(* ===== verification/Prelude.thy ===== *)
theory Prelude
  imports Complex_Main
begin

text \<open>
  Shared vocabulary of the development: Go strings (byte sequences) and the functions of
  \<^verbatim>\<open>strings\<close>, \<^verbatim>\<open>bytes\<close>, \<^verbatim>\<open>unicode/utf8\<close> and \<^verbatim>\<open>encoding/hex\<close> that the source calls,
  \<^verbatim>\<open>time.Time\<close> as nanoseconds, \<^verbatim>\<open>float64\<close> as an exact rational with rounding, and the
  fact collections the component theories fill.
\<close>

named_theorems go_string_simps \<open>unfolding of the string library\<close>

section \<open>Byte strings\<close>

text \<open>A Go string is a sequence of bytes: \<open>char\<close> is exactly a byte.\<close>

definition has_prefix :: "string \<Rightarrow> string \<Rightarrow> bool" where
  "has_prefix p s \<longleftrightarrow> take (length p) s = p"

definition trim_prefix :: "string \<Rightarrow> string \<Rightarrow> string" where
  "trim_prefix p s = (if has_prefix p s then drop (length p) s else s)"

definition has_suffix :: "string \<Rightarrow> string \<Rightarrow> bool" where
  "has_suffix p s \<longleftrightarrow> has_prefix (rev p) (rev s)"

definition trim_suffix :: "string \<Rightarrow> string \<Rightarrow> string" where
  "trim_suffix p s = (if has_suffix p s then take (length s - length p) s else s)"

text \<open>\<^verbatim>\<open>strings.Cut\<close>: the text before and after the first separator, and whether it occurs.\<close>

fun str_cut :: "string \<Rightarrow> string \<Rightarrow> string \<times> string \<times> bool" where
  "str_cut sep [] = (if sep = [] then ([], [], True) else ([], [], False))"
| "str_cut sep (c # cs) =
     (if has_prefix sep (c # cs) then ([], drop (length sep) (c # cs), True)
      else case str_cut sep cs of (a, b, found) \<Rightarrow> (c # a, b, found))"

text \<open>\<^verbatim>\<open>strings.Contains\<close> and \<^verbatim>\<open>strings.ContainsAny\<close> for ASCII sets.\<close>

definition contains :: "string \<Rightarrow> string \<Rightarrow> bool" where
  "contains s sub \<longleftrightarrow> snd (snd (str_cut sub s))"

definition contains_any :: "string \<Rightarrow> string \<Rightarrow> bool" where
  "contains_any s cs \<longleftrightarrow> list_ex (\<lambda>c. c \<in> set cs) s"

text \<open>\<^verbatim>\<open>bytes.IndexByte\<close> used as a line splitter: the bytes before the first newline and
  the bytes after it.\<close>

fun split_line :: "string \<Rightarrow> (string \<times> string) option" where
  "split_line [] = None"
| "split_line (c # cs) =
     (if c = CHR 0x0A then Some ([], cs)
      else map_option (\<lambda>(a, b). (c # a, b)) (split_line cs))"

abbreviation NL :: char where "NL \<equiv> CHR 0x0A"
abbreviation CR :: char where "CR \<equiv> CHR 0x0D"
abbreviation NUL :: char where "NUL \<equiv> CHR 0x00"

lemma has_prefix_self [simp]: "has_prefix p (p @ s)"
  by (simp add: has_prefix_def)

lemma has_prefix_Nil [simp]: "has_prefix [] s"
  by (simp add: has_prefix_def)

lemma has_prefix_iff: "has_prefix p s \<longleftrightarrow> (\<exists>t. s = p @ t)"
proof
  assume "has_prefix p s"
  then have "s = p @ drop (length p) s"
    by (metis append_take_drop_id has_prefix_def)
  then show "\<exists>t. s = p @ t" ..
qed auto

lemma has_prefix_Cons [simp]:
  "has_prefix (c # p) s = (case s of [] \<Rightarrow> False | d # t \<Rightarrow> c = d \<and> has_prefix p t)"
  by (cases s) (auto simp: has_prefix_def)

lemma has_prefix_code [code]:
  "has_prefix [] s = True"
  "has_prefix (c # p) s = (case s of [] \<Rightarrow> False | d # t \<Rightarrow> c = d \<and> has_prefix p t)"
  by simp_all

lemma has_suffix_iff: "has_suffix p s \<longleftrightarrow> (\<exists>t. s = t @ p)"
proof -
  have "has_suffix p s \<longleftrightarrow> (\<exists>t. rev s = rev p @ t)"
    by (simp add: has_suffix_def has_prefix_iff)
  also have "\<dots> \<longleftrightarrow> (\<exists>t. s = t @ p)"
    by (metis rev_append rev_rev_ident)
  finally show ?thesis .
qed

lemma trim_prefix_append [simp]: "trim_prefix p (p @ s) = s"
  by (simp add: trim_prefix_def)

lemma trim_suffix_append [simp]: "trim_suffix p (s @ p) = s"
  by (auto simp: trim_suffix_def has_suffix_iff)

lemma cut_found:
  "str_cut sep s = (a, b, True) \<Longrightarrow> s = a @ sep @ b"
proof (induction s arbitrary: a b)
  case (Cons c cs)
  show ?case
  proof (cases "has_prefix sep (c # cs)")
    case True
    then obtain t where "c # cs = sep @ t" unfolding has_prefix_iff by blast
    with True Cons.prems show ?thesis
      by (metis append_eq_conv_conj append_Nil str_cut.simps(2) prod.inject)
  next
    case False
    with Cons.prems obtain a' where "str_cut sep cs = (a', b, True)" and "a = c # a'"
      by (auto simp del: has_prefix_Cons split: prod.splits)
    with Cons.IH show ?thesis by simp
  qed
qed (auto split: if_splits)

lemma split_line_Some:
  "split_line s = Some (a, b) \<Longrightarrow> s = a @ NL # b \<and> NL \<notin> set a"
  by (induction s arbitrary: a b) (auto split: if_splits)

lemma split_line_None: "split_line s = None \<longleftrightarrow> NL \<notin> set s"
  by (induction s) auto

lemma split_line_append [simp]:
  "NL \<notin> set a \<Longrightarrow> split_line (a @ NL # b) = Some (a, b)"
  by (induction a) auto

lemma split_line_length:
  "split_line s = Some (a, b) \<Longrightarrow> length b < length s"
  by (drule split_line_Some) auto

section \<open>UTF-8\<close>

abbreviation byte :: "char \<Rightarrow> nat" where "byte c \<equiv> of_char c"

definition cont :: "char \<Rightarrow> bool" where
  "cont c \<longleftrightarrow> 128 \<le> byte c \<and> byte c < 192"

definition rune_error :: nat where "rune_error = 65533"

text \<open>\<^verbatim>\<open>utf8.DecodeRune\<close>: the rune at the head and its width; an invalid byte decodes to the
  replacement character with width 1, the empty string has width 0.\<close>

definition decode_rune :: "string \<Rightarrow> nat \<times> nat" where
  "decode_rune s =
     (case s of [] \<Rightarrow> (rune_error, 0)
      | a # r1 \<Rightarrow>
        (let b0 = byte a in
         if b0 < 128 then (b0, 1)
         else case r1 of [] \<Rightarrow> (rune_error, 1)
         | b # r2 \<Rightarrow>
           (let b1 = byte b in
            if 194 \<le> b0 \<and> b0 \<le> 223 then
              (if cont b then ((b0 - 192) * 64 + (b1 - 128), 2) else (rune_error, 1))
            else case r2 of [] \<Rightarrow> (rune_error, 1)
            | c # r3 \<Rightarrow>
              (let b2 = byte c in
               if 224 \<le> b0 \<and> b0 \<le> 239 then
                 (if cont b \<and> cont c \<and> (b0 = 224 \<longrightarrow> 160 \<le> b1) \<and> (b0 = 237 \<longrightarrow> b1 \<le> 159)
                  then ((b0 - 224) * 4096 + (b1 - 128) * 64 + (b2 - 128), 3)
                  else (rune_error, 1))
               else case r3 of [] \<Rightarrow> (rune_error, 1)
               | d # _ \<Rightarrow>
                 (if 240 \<le> b0 \<and> b0 \<le> 244 \<and> cont b \<and> cont c \<and> cont d
                     \<and> (b0 = 240 \<longrightarrow> 144 \<le> b1) \<and> (b0 = 244 \<longrightarrow> b1 \<le> 143)
                  then ((b0 - 240) * 262144 + (b1 - 128) * 4096 + (b2 - 128) * 64
                        + (byte d - 128), 4)
                  else (rune_error, 1))))))"

lemma decode_rune_width: "s \<noteq> [] \<Longrightarrow> 0 < snd (decode_rune s)"
  by (auto simp: decode_rune_def Let_def split: list.splits)

text \<open>\<^verbatim>\<open>utf8.Valid\<close>.\<close>

function utf8_valid :: "string \<Rightarrow> bool" where
  "utf8_valid s =
     (if s = [] then True
      else case decode_rune s of (r, w) \<Rightarrow>
        (if r = rune_error \<and> w = 1 then False else utf8_valid (drop w s)))"
  by pat_completeness auto
termination
  by (relation "measure length")
    (auto dest: decode_rune_width simp: split_beta
      intro!: diff_less dest!: arg_cong [where f = snd])

declare utf8_valid.simps [simp del]

lemma utf8_valid_Nil [simp]: "utf8_valid []"
  by (subst utf8_valid.simps) simp

lemma utf8_valid_ascii [simp]:
  "byte c < 128 \<Longrightarrow> utf8_valid (c # s) = utf8_valid s"
  by (subst utf8_valid.simps) (simp add: decode_rune_def rune_error_def)

lemma utf8_valid_all_ascii: "(\<forall>c\<in>set s. byte c < 128) \<Longrightarrow> utf8_valid s"
  by (induction s) auto

section \<open>White space\<close>

text \<open>The width of the white-space rune (\<^verbatim>\<open>unicode.IsSpace\<close>) at the head of a string, 0 if
  there is none, and the same for the end of a string given in reverse.\<close>

definition ascii_space :: "char \<Rightarrow> bool" where
  "ascii_space c \<longleftrightarrow> c = CHR '' '' \<or> (9 \<le> byte c \<and> byte c \<le> 13)"

definition wide_space :: "nat \<Rightarrow> bool" where
  "wide_space r \<longleftrightarrow> r = 133 \<or> r = 160 \<or> r = 5760 \<or> (8192 \<le> r \<and> r \<le> 8202)
     \<or> r = 8232 \<or> r = 8233 \<or> r = 8239 \<or> r = 8287 \<or> r = 12288"

definition space_head :: "string \<Rightarrow> nat" where
  "space_head s =
     (case s of [] \<Rightarrow> 0
      | c # _ \<Rightarrow> if ascii_space c then 1
                 else case decode_rune s of (r, w) \<Rightarrow> if wide_space r then w else 0)"

definition space_last :: "string \<Rightarrow> nat" where
  "space_last r =
     (case r of [] \<Rightarrow> 0
      | c # _ \<Rightarrow> if ascii_space c then 1
                 else if wide_space (fst (decode_rune (rev (take 2 r))))
                         \<and> snd (decode_rune (rev (take 2 r))) = 2 then 2
                 else if wide_space (fst (decode_rune (rev (take 3 r))))
                         \<and> snd (decode_rune (rev (take 3 r))) = 3 then 3
                 else 0)"

function trim_with :: "(string \<Rightarrow> nat) \<Rightarrow> string \<Rightarrow> string" where
  "trim_with w s = (if s = [] \<or> w s = 0 then s else trim_with w (drop (w s) s))"
  by pat_completeness auto
termination
  by (relation "measure (\<lambda>(w, s). length s)") auto

declare trim_with.simps [simp del]

definition trim_space :: "string \<Rightarrow> string" where
  "trim_space s = rev (trim_with space_last (rev (trim_with space_head s)))"

lemma trim_with_stop [simp]: "w s = 0 \<Longrightarrow> trim_with w s = s"
  by (subst trim_with.simps) simp

lemma trim_with_Nil [simp]: "trim_with w [] = []"
  by (subst trim_with.simps) simp

lemma trim_with_step: "s \<noteq> [] \<Longrightarrow> 0 < w s \<Longrightarrow> trim_with w s = trim_with w (drop (w s) s)"
  by (subst trim_with.simps) simp

section \<open>Lower-case hexadecimal\<close>

definition lower_hex :: "char \<Rightarrow> bool" where
  "lower_hex c \<longleftrightarrow> (48 \<le> byte c \<and> byte c \<le> 57) \<or> (97 \<le> byte c \<and> byte c \<le> 102)"

text \<open>\<^verbatim>\<open>hex.DecodeString\<close> succeeds, the result has \<open>n\<close> bytes and re-encoding it gives the
  string back: exactly \<open>2 n\<close> lower-case hexadecimal digits.\<close>

definition hex_of_len :: "nat \<Rightarrow> string \<Rightarrow> bool" where
  "hex_of_len n s \<longleftrightarrow> length s = 2 * n \<and> list_all lower_hex s"

section \<open>Time\<close>

text \<open>\<^verbatim>\<open>time.Time\<close>: nanoseconds since the Unix epoch. Durations are nanoseconds too;
  \<^verbatim>\<open>Time.Sub\<close> saturates at the bounds of \<^verbatim>\<open>int64\<close>.\<close>

type_synonym time = int

definition seconds :: "int \<Rightarrow> int" where "seconds n = n * 1000000000"
definition minutes :: "int \<Rightarrow> int" where "minutes n = seconds (60 * n)"
definition hours :: "int \<Rightarrow> int" where "hours n = minutes (60 * n)"

definition zero_time :: time where "zero_time = seconds (- 62135596800)"

definition unix_seconds :: "time \<Rightarrow> int" where
  "unix_seconds t = t div 1000000000"

definition time_sub :: "time \<Rightarrow> time \<Rightarrow> int" where
  "time_sub a b = max (- (2 ^ 63)) (min (2 ^ 63 - 1) (a - b))"

lemma time_sub_ge:
  "- (2 ^ 63) < d \<Longrightarrow> d \<le> 2 ^ 63 - 1 \<Longrightarrow> d \<le> time_sub a b \<longleftrightarrow> d \<le> a - b"
  by (auto simp: time_sub_def max_def min_def)

lemma time_sub_le:
  "- (2 ^ 63) \<le> d \<Longrightarrow> d < 2 ^ 63 - 1 \<Longrightarrow> time_sub a b \<le> d \<longleftrightarrow> a - b \<le> d"
  by (auto simp: time_sub_def max_def min_def)

lemmas time_unit_defs = seconds_def minutes_def hours_def zero_time_def

section \<open>Floating point\<close>

text \<open>\<^verbatim>\<open>float64\<close>: a finite value is the rational it denotes (the two zeroes are one value,
  which comparison and subtraction from 100 do not tell apart). Subtraction rounds to the
  nearest representable value, ties to even.\<close>

datatype f64 = NaN | Inf bool | Fin rat

fun f64_less :: "f64 \<Rightarrow> f64 \<Rightarrow> bool" where
  "f64_less NaN _ = False"
| "f64_less _ NaN = False"
| "f64_less (Inf s) (Inf t) = (\<not> s \<and> t)"
| "f64_less (Inf s) (Fin _) = (\<not> s)"
| "f64_less (Fin _) (Inf t) = t"
| "f64_less (Fin a) (Fin b) = (a < b)"

fun f64_le :: "f64 \<Rightarrow> f64 \<Rightarrow> bool" where
  "f64_le NaN _ = False"
| "f64_le _ NaN = False"
| "f64_le (Inf s) (Inf t) = (s \<longrightarrow> t)"
| "f64_le (Inf s) (Fin _) = (\<not> s)"
| "f64_le (Fin _) (Inf t) = t"
| "f64_le (Fin a) (Fin b) = (a \<le> b)"

definition round_half_even :: "rat \<Rightarrow> int" where
  "round_half_even q =
     (let f = \<lfloor>q\<rfloor>; r = q - of_int f
      in if r < 1 / 2 then f else if 1 / 2 < r then f + 1 else if even f then f else f + 1)"

text \<open>The binary exponent of a positive rational (the \<open>e\<close> with \<open>2 ^ e \<le> q < 2 ^ (e + 1)\<close>),
  searched downwards from 1023 and bounded below by the subnormal exponent.\<close>

function exponent :: "rat \<Rightarrow> int \<Rightarrow> int" where
  "exponent q e = (if e \<le> - 1022 \<or> 2 powi e \<le> q then e else exponent q (e - 1))"
  by pat_completeness auto
termination
  by (relation "measure (\<lambda>(q, e). nat (e + 1023))") auto

declare exponent.simps [simp del]

definition round64 :: "rat \<Rightarrow> f64" where
  "round64 q =
     (let ulp = 2 powi (exponent \<bar>q\<bar> 1023 - 52); v = of_int (round_half_even (q / ulp)) * ulp
      in if 2 powi 1024 \<le> \<bar>v\<bar> then Inf (0 < q) else Fin v)"

definition f64_sub :: "rat \<Rightarrow> f64 \<Rightarrow> f64" where
  "f64_sub a b = (case b of NaN \<Rightarrow> NaN | Inf s \<Rightarrow> Inf (\<not> s) | Fin q \<Rightarrow> round64 (a - q))"

text \<open>\<^verbatim>\<open>math.Min\<close> on values that are not NaN (the source checks both operands first).\<close>

definition f64_min :: "f64 \<Rightarrow> f64 \<Rightarrow> f64" where
  "f64_min a b = (if a = NaN \<or> b = NaN then NaN else if f64_less b a then b else a)"

lemma f64_less_irrefl [simp]: "\<not> f64_less a a"
  by (cases a) auto

lemma f64_less_trans: "f64_less a b \<Longrightarrow> f64_less b c \<Longrightarrow> f64_less a c"
  by (cases a; cases b; cases c) auto

lemma f64_not_less:
  "a \<noteq> NaN \<Longrightarrow> b \<noteq> NaN \<Longrightarrow> \<not> f64_less a b \<longleftrightarrow> f64_le b a"
  by (cases a; cases b) auto

lemma f64_le_less_trans: "f64_le a b \<Longrightarrow> f64_less b c \<Longrightarrow> f64_less a c"
  by (cases a; cases b; cases c) auto

lemma f64_less_le: "f64_less a b \<Longrightarrow> f64_le a b"
  by (cases a; cases b) auto

lemma f64_le_trans: "f64_le a b \<Longrightarrow> f64_le b c \<Longrightarrow> f64_le a c"
  by (cases a; cases b; cases c) auto

lemma f64_min_le1: "a \<noteq> NaN \<Longrightarrow> b \<noteq> NaN \<Longrightarrow> f64_le (f64_min a b) a"
  by (cases a; cases b) (auto simp: f64_min_def)

lemma f64_min_le2: "a \<noteq> NaN \<Longrightarrow> b \<noteq> NaN \<Longrightarrow> f64_le (f64_min a b) b"
  by (cases a; cases b) (auto simp: f64_min_def)

section \<open>Results\<close>

text \<open>A fallible Go function returns \<open>error + 'a\<close>.\<close>

definition bind_r :: "'e + 'a \<Rightarrow> ('a \<Rightarrow> 'e + 'b) \<Rightarrow> 'e + 'b" where
  "bind_r r f = (case r of Inl e \<Rightarrow> Inl e | Inr x \<Rightarrow> f x)"

lemma bind_r_simps [simp]: "bind_r (Inl e) f = Inl e" "bind_r (Inr x) f = f x"
  by (simp_all add: bind_r_def)

lemma bind_r_Inr_iff: "bind_r r f = Inr y \<longleftrightarrow> (\<exists>x. r = Inr x \<and> f x = Inr y)"
  by (cases r) auto

end
