(* ===== verification/Go_Errors.thy ===== *)
theory Go_Errors
  imports Prelude
begin

text \<open>
  The sentinel errors of the packages, one constructor per \<^verbatim>\<open>errors.New\<close> variable, and
  \<^verbatim>\<open>errors.Is\<close> over joined and wrapped errors. Sentinels of different packages are different
  values even where their texts agree.
\<close>

datatype affinity_err = AffStorage | AffUnknown | AffConflict | AffBlocked

datatype handoff_err =
  HandConflict | HandIdentity | HandUnavailable | HandInputRequired | HandBoundary

datatype checkpoint_err = CpState | CpTimeout | CpFile | CpFormat | CpIdentity | CpSize

datatype routing_err =
  RtUsageUnavailable | RtCredentialsUnavailable | RtUnavailable | RtIdentity | RtPolicy

datatype accounts_err =
  AccSlot | AccOccupied | AccDuplicate | AccStore | AccLogin | AccCancelled | AccCleanup
| AccExpired | AccNotRegistered | AccMismatch | AccAuthFormat | AccIdentity

datatype proxy_err =
  PxHistoryOwner | PxCompactionOwner | PxAuxiliaryCredential | PxAuthenticationExpired
| PxAccountUnavailable | PxCredentialStore

datatype go_err =
  EAffinity affinity_err
| EHandoff handoff_err
| ECheckpoint checkpoint_err
| ERouting routing_err
| EAccounts accounts_err
| ERefresh \<comment> \<open>\<^verbatim>\<open>accounts.ErrRefresh\<close>, which wraps \<^verbatim>\<open>ErrExpired\<close>\<close>
| EProxy proxy_err
| ELockBusy
| ELockStorage
| EUsage string nat \<comment> \<open>\<^verbatim>\<open>usage.Error\<close>: code and HTTP status\<close>
| EBinding
| EContext \<comment> \<open>\<^verbatim>\<open>ctx.Err()\<close> of a cancelled or expired context\<close>
| EJoined go_err go_err
| EOther string

text \<open>\<^verbatim>\<open>errors.Is\<close>: the error itself, or any error it wraps.\<close>

fun errors_is :: "go_err \<Rightarrow> go_err \<Rightarrow> bool" where
  "errors_is (EJoined a b) t = (EJoined a b = t \<or> errors_is a t \<or> errors_is b t)"
| "errors_is ERefresh t = (t = ERefresh \<or> t = EAccounts AccExpired)"
| "errors_is e t = (e = t)"

text \<open>A Go result: \<open>Inl\<close> carries the non-nil error.\<close>

type_synonym 'a res = "go_err + 'a"

abbreviation is_ok :: "'e + 'a \<Rightarrow> bool" where "is_ok r \<equiv> \<not> isl r"

lemma errors_is_refl [simp]: "errors_is e e"
  by (cases e) auto

end
