(* ===== verification/Json.thy ===== *)
theory Json
  imports Prelude
begin

text \<open>
  The part of \<^verbatim>\<open>encoding/json\<close> the source relies on: \<^verbatim>\<open>json.Valid\<close>/\<^verbatim>\<open>json.Unmarshal\<close>
  of a complete text (a scanner and a pushdown parser that read one token at a time, with the
  nesting limit of the library), case-insensitive matching of struct fields, and
  \<^verbatim>\<open>json.Marshal\<close>. Numbers keep their literal text, as \<^verbatim>\<open>json.RawMessage\<close> and
  \<^verbatim>\<open>json.Number\<close> do; objects keep duplicate members in order. The lemmas give the round trip
  from a quoted ASCII string back to the string.
\<close>

datatype json =
  JNull | JBool bool | JNum string | JStr string | JArr "json list" | JObj "(string \<times> json) list"

section \<open>Strings\<close>

definition hex_value :: "char \<Rightarrow> nat option" where
  "hex_value c =
     (let b = byte c in
      if 48 \<le> b \<and> b \<le> 57 then Some (b - 48)
      else if 97 \<le> b \<and> b \<le> 102 then Some (b - 87)
      else if 65 \<le> b \<and> b \<le> 70 then Some (b - 55) else None)"

definition is_hex :: "char \<Rightarrow> bool" where
  "is_hex c \<longleftrightarrow> hex_value c \<noteq> None"

definition hex4 :: "char \<Rightarrow> char \<Rightarrow> char \<Rightarrow> char \<Rightarrow> nat" where
  "hex4 a b c d = ((the (hex_value a) * 16 + the (hex_value b)) * 16 + the (hex_value c)) * 16
     + the (hex_value d)"

abbreviation QUOTE :: char where "QUOTE \<equiv> CHR 0x22"
abbreviation BACKSLASH :: char where "BACKSLASH \<equiv> CHR 0x5C"

definition simple_escapes :: string where
  "simple_escapes = [QUOTE, BACKSLASH, CHR ''/'', CHR ''b'', CHR ''f'', CHR ''n'', CHR ''r'', CHR ''t'']"

definition escape_value :: "char \<Rightarrow> char" where
  "escape_value c =
     (if c = CHR ''b'' then CHR 0x08 else if c = CHR ''f'' then CHR 0x0C
      else if c = CHR ''n'' then NL else if c = CHR ''r'' then CR
      else if c = CHR ''t'' then CHR 0x09 else c)"

text \<open>The raw contents of a string literal up to its closing quote, and what follows it.\<close>

fun scan_str :: "string \<Rightarrow> (string \<times> string) option" where
  "scan_str [] = None"
| "scan_str (c # cs) =
     (if c = QUOTE then Some ([], cs)
      else if byte c < 32 then None
      else if c = BACKSLASH then
        (case cs of [] \<Rightarrow> None
         | d # ds \<Rightarrow>
           if d \<in> set simple_escapes then
             map_option (\<lambda>(a, r). (c # d # a, r)) (scan_str ds)
           else if d = CHR ''u'' then
             (case ds of h1 # h2 # h3 # h4 # es \<Rightarrow>
                (if is_hex h1 \<and> is_hex h2 \<and> is_hex h3 \<and> is_hex h4
                 then map_option (\<lambda>(a, r). (c # d # h1 # h2 # h3 # h4 # a, r)) (scan_str es)
                 else None)
              | _ \<Rightarrow> None)
           else None)
      else map_option (\<lambda>(a, r). (c # a, r)) (scan_str cs))"

definition encode_rune :: "nat \<Rightarrow> string" where
  "encode_rune r =
     (if r < 128 then [char_of r]
      else if r < 2048 then [char_of (192 + r div 64), char_of (128 + r mod 64)]
      else if (55296 \<le> r \<and> r \<le> 57343) \<or> 1114112 \<le> r then [CHR 0xEF, CHR 0xBF, CHR 0xBD]
      else if r < 65536 then
        [char_of (224 + r div 4096), char_of (128 + (r div 64) mod 64), char_of (128 + r mod 64)]
      else [char_of (240 + r div 262144), char_of (128 + (r div 4096) mod 64),
            char_of (128 + (r div 64) mod 64), char_of (128 + r mod 64)])"

definition surrogate :: "nat \<Rightarrow> bool" where
  "surrogate r \<longleftrightarrow> 55296 \<le> r \<and> r \<le> 57343"

text \<open>The value of a \<^verbatim>\<open>\uXXXX\<close> escape starting a raw string, if there is one.\<close>

definition get_u4 :: "string \<Rightarrow> nat option" where
  "get_u4 s =
     (case s of b # u # h1 # h2 # h3 # h4 # _ \<Rightarrow>
        if b = BACKSLASH \<and> u = CHR ''u'' \<and> is_hex h1 \<and> is_hex h2 \<and> is_hex h3 \<and> is_hex h4
        then Some (hex4 h1 h2 h3 h4) else None
      | _ \<Rightarrow> None)"

text \<open>One step of unquoting: the bytes produced and the number of raw bytes consumed.\<close>

definition unquote_step :: "string \<Rightarrow> string \<times> nat" where
  "unquote_step s =
     (case s of [] \<Rightarrow> ([], 1)
      | c # cs \<Rightarrow>
        if c = BACKSLASH then
          (case get_u4 s of
             Some r \<Rightarrow>
               (if surrogate r then
                  (case get_u4 (drop 6 s) of
                     Some r2 \<Rightarrow>
                       if r < 56320 \<and> 56320 \<le> r2 \<and> r2 \<le> 57343
                       then (encode_rune ((r - 55296) * 1024 + (r2 - 56320) + 65536), 12)
                       else (encode_rune rune_error, 6)
                   | None \<Rightarrow> (encode_rune rune_error, 6))
                else (encode_rune r, 6))
           | None \<Rightarrow> (case cs of [] \<Rightarrow> ([], 1) | d # _ \<Rightarrow> ([escape_value d], 2)))
        else if byte c < 128 then ([c], 1)
        else case decode_rune s of (r, w) \<Rightarrow> (encode_rune r, max 1 w))"

function unquote :: "string \<Rightarrow> string" where
  "unquote s =
     (if s = [] then [] else fst (unquote_step s) @ unquote (drop (snd (unquote_step s)) s))"
  by pat_completeness auto
termination
proof (relation "measure length", goal_cases)
  case (2 s)
  then have "0 < snd (unquote_step s)"
    by (auto simp: unquote_step_def split: list.splits option.splits prod.splits)
  with 2 show ?case by simp
qed simp

declare unquote.simps [simp del]

section \<open>Numbers\<close>

datatype num_state = NNeg | NZero | NInt | NDot | NFrac | NExpMark | NExpSign | NExp

definition digit :: "char \<Rightarrow> bool" where
  "digit c \<longleftrightarrow> 48 \<le> byte c \<and> byte c \<le> 57"

fun num_start :: "char \<Rightarrow> num_state option" where
  "num_start c =
     (if c = CHR ''-'' then Some NNeg else if c = CHR ''0'' then Some NZero
      else if digit c then Some NInt else None)"

definition exp_mark :: "char \<Rightarrow> bool" where
  "exp_mark c \<longleftrightarrow> c = CHR ''e'' \<or> c = CHR ''E''"

fun num_step :: "num_state \<Rightarrow> char \<Rightarrow> num_state option" where
  "num_step NNeg c = (if c = CHR ''0'' then Some NZero else if digit c then Some NInt else None)"
| "num_step NZero c = (if c = CHR ''.'' then Some NDot else if exp_mark c then Some NExpMark else None)"
| "num_step NInt c =
     (if digit c then Some NInt else if c = CHR ''.'' then Some NDot
      else if exp_mark c then Some NExpMark else None)"
| "num_step NDot c = (if digit c then Some NFrac else None)"
| "num_step NFrac c = (if digit c then Some NFrac else if exp_mark c then Some NExpMark else None)"
| "num_step NExpMark c =
     (if c = CHR ''+'' \<or> c = CHR ''-'' then Some NExpSign else if digit c then Some NExp else None)"
| "num_step NExpSign c = (if digit c then Some NExp else None)"
| "num_step NExp c = (if digit c then Some NExp else None)"

fun num_final :: "num_state \<Rightarrow> bool" where
  "num_final NZero = True" | "num_final NInt = True" | "num_final NFrac = True"
| "num_final NExp = True" | "num_final _ = False"

fun scan_num :: "num_state \<Rightarrow> string \<Rightarrow> (string \<times> string) option" where
  "scan_num st [] = (if num_final st then Some ([], []) else None)"
| "scan_num st (c # cs) =
     (case num_step st c of
        Some st' \<Rightarrow> map_option (\<lambda>(a, r). (c # a, r)) (scan_num st' cs)
      | None \<Rightarrow> if num_final st then Some ([], c # cs) else None)"

section \<open>Tokens\<close>

datatype token = TOpenObj | TCloseObj | TOpenArr | TCloseArr | TColon | TComma | TVal json

definition json_space :: "char \<Rightarrow> bool" where
  "json_space c \<longleftrightarrow> c = CHR '' '' \<or> c = CHR 0x09 \<or> c = CR \<or> c = NL"

definition punct :: "char \<Rightarrow> token option" where
  "punct c =
     (if c = CHR ''{'' then Some TOpenObj else if c = CHR ''}'' then Some TCloseObj
      else if c = CHR ''['' then Some TOpenArr else if c = CHR '']'' then Some TCloseArr
      else if c = CHR '':'' then Some TColon else if c = CHR '','' then Some TComma else None)"

text \<open>The token at the head of a text that starts with no white space, and the rest.\<close>

definition scan_token :: "char \<Rightarrow> string \<Rightarrow> (token \<times> string) option" where
  "scan_token c cs =
     (case punct c of
        Some t \<Rightarrow> Some (t, cs)
      | None \<Rightarrow>
        if c = QUOTE then map_option (\<lambda>(raw, r). (TVal (JStr (unquote raw)), r)) (scan_str cs)
        else if has_prefix ''true'' (c # cs) then Some (TVal (JBool True), drop 3 cs)
        else if has_prefix ''false'' (c # cs) then Some (TVal (JBool False), drop 4 cs)
        else if has_prefix ''null'' (c # cs) then Some (TVal JNull, drop 3 cs)
        else case num_start c of
            Some st \<Rightarrow> map_option (\<lambda>(a, r). (TVal (JNum (c # a)), r)) (scan_num st cs)
          | None \<Rightarrow> None)"

lemma scan_str_length: "scan_str s = Some (a, r) \<Longrightarrow> length r < length s"
  by (induction s arbitrary: a r rule: scan_str.induct)
    (fastforce split: if_splits list.splits)+

lemma scan_num_length: "scan_num st s = Some (a, r) \<Longrightarrow> length r \<le> length s"
  by (induction st s arbitrary: a r rule: scan_num.induct)
    (fastforce split: if_splits option.splits)+

lemma scan_token_length: "scan_token c cs = Some (t, r) \<Longrightarrow> length r \<le> length cs"
  by (auto simp: scan_token_def dest: scan_str_length scan_num_length
      split: if_splits option.splits simp del: has_prefix_Cons num_start.simps)

function tokens :: "string \<Rightarrow> token list option" where
  "tokens [] = Some []"
| "tokens (c # cs) =
     (if json_space c then tokens cs
      else case scan_token c cs of
             None \<Rightarrow> None
           | Some (t, r) \<Rightarrow> map_option ((#) t) (tokens r))"
  by pat_completeness auto
termination
  by (relation "measure length") (auto dest: scan_token_length)

section \<open>The parser\<close>

text \<open>A frame is an unfinished array, an object between members, or an object waiting for the
  value of a key; members are accumulated in reverse.\<close>

datatype frame =
  FArr "json list" | FObj "(string \<times> json) list" | FKey "(string \<times> json) list" string

datatype mode = MValue | MValueOrClose | MKey | MKeyOrClose | MColon string | MAfter | MDone json

definition max_depth :: nat where "max_depth = 10000"

fun finish_value :: "json \<Rightarrow> frame list \<Rightarrow> (mode \<times> frame list) option" where
  "finish_value v [] = Some (MDone v, [])"
| "finish_value v (FArr xs # st) = Some (MAfter, FArr (v # xs) # st)"
| "finish_value v (FKey ms k # st) = Some (MAfter, FObj ((k, v) # ms) # st)"
| "finish_value v (FObj ms # st) = None"

definition open_frame :: "mode \<Rightarrow> frame \<Rightarrow> frame list \<Rightarrow> (mode \<times> frame list) option" where
  "open_frame m f st = (if length st < max_depth then Some (m, f # st) else None)"

lemma open_frame_code [code]:
  "open_frame m f st = (if int (length st) < 10000 then Some (m, f # st) else None)"
  by (simp add: open_frame_def max_depth_def)

definition read_value :: "token \<Rightarrow> frame list \<Rightarrow> (mode \<times> frame list) option" where
  "read_value t st =
     (case t of
        TVal v \<Rightarrow> finish_value v st
      | TOpenArr \<Rightarrow> open_frame MValueOrClose (FArr []) st
      | TOpenObj \<Rightarrow> open_frame MKeyOrClose (FObj []) st
      | _ \<Rightarrow> None)"

definition read_key :: "token \<Rightarrow> frame list \<Rightarrow> (mode \<times> frame list) option" where
  "read_key t st = (case t of TVal (JStr k) \<Rightarrow> Some (MColon k, st) | _ \<Rightarrow> None)"

fun close_frame :: "token \<Rightarrow> frame list \<Rightarrow> (mode \<times> frame list) option" where
  "close_frame TCloseArr (FArr xs # st) = finish_value (JArr (rev xs)) st"
| "close_frame TCloseObj (FObj ms # st) = finish_value (JObj (rev ms)) st"
| "close_frame _ _ = None"

fun json_step :: "mode \<times> frame list \<Rightarrow> token \<Rightarrow> (mode \<times> frame list) option" where
  "json_step (MValue, st) t = read_value t st"
| "json_step (MValueOrClose, st) t = (if t = TCloseArr then close_frame t st else read_value t st)"
| "json_step (MKey, st) t = read_key t st"
| "json_step (MKeyOrClose, st) t = (if t = TCloseObj then close_frame t st else read_key t st)"
| "json_step (MColon k, st) t =
     (case (t, st) of (TColon, FObj ms # r) \<Rightarrow> Some (MValue, FKey ms k # r) | _ \<Rightarrow> None)"
| "json_step (MAfter, st) t =
     (case (t, st) of
        (TComma, FArr _ # _) \<Rightarrow> Some (MValue, st)
      | (TComma, FObj _ # _) \<Rightarrow> Some (MKey, st)
      | _ \<Rightarrow> close_frame t st)"
| "json_step (MDone v, st) t = None"

fun json_run :: "mode \<times> frame list \<Rightarrow> token list \<Rightarrow> json option" where
  "json_run (m, st) [] = (case m of MDone v \<Rightarrow> Some v | _ \<Rightarrow> None)"
| "json_run (m, st) (t # ts) =
     (case json_step (m, st) t of None \<Rightarrow> None | Some s \<Rightarrow> json_run s ts)"

definition json_parse :: "string \<Rightarrow> json option" where
  "json_parse s = Option.bind (tokens s) (json_run (MValue, []))"

section \<open>Objects and struct fields\<close>

text \<open>Decoding into a Go map: the last member with a name wins.\<close>

definition obj_get :: "(string \<times> json) list \<Rightarrow> string \<Rightarrow> json option" where
  "obj_get ms k = map_of (rev ms) k"

definition obj_keys :: "(string \<times> json) list \<Rightarrow> string list" where
  "obj_keys ms = remdups (map fst ms)"

text \<open>Struct fields match without regard to case. Two non-ASCII runes fold to ASCII letters:
  the long s and the Kelvin sign.\<close>

fun fold_name :: "string \<Rightarrow> string" where
  "fold_name [] = []"
| "fold_name (a # r) =
     (case r of
        b # r2 \<Rightarrow>
          if a = CHR 0xC5 \<and> b = CHR 0xBF then CHR ''S'' # fold_name r2
          else (case r2 of
                  c # r3 \<Rightarrow>
                    if a = CHR 0xE2 \<and> b = CHR 0x84 \<and> c = CHR 0xAA then CHR ''K'' # fold_name r3
                    else (if 97 \<le> byte a \<and> byte a \<le> 122 then char_of (byte a - 32) else a) # fold_name r
                | [] \<Rightarrow> (if 97 \<le> byte a \<and> byte a \<le> 122 then char_of (byte a - 32) else a) # fold_name r)
      | [] \<Rightarrow> [if 97 \<le> byte a \<and> byte a \<le> 122 then char_of (byte a - 32) else a])"

definition field_match :: "string \<Rightarrow> string \<Rightarrow> bool" where
  "field_match name key \<longleftrightarrow> key = name \<or> fold_name key = fold_name name"

text \<open>The members that decode into the struct field \<open>name\<close>, in order.\<close>

definition field_values :: "string \<Rightarrow> (string \<times> json) list \<Rightarrow> json list" where
  "field_values name ms = map snd (filter (\<lambda>(k, v). field_match name k) ms)"

text \<open>Decoding a sequence of members into one \<^verbatim>\<open>string\<close> field: null leaves the value alone,
  anything else but a string is a type error (\<open>None\<close>).\<close>

fun decode_string :: "string \<Rightarrow> json \<Rightarrow> string option" where
  "decode_string s JNull = Some s"
| "decode_string s (JStr t) = Some t"
| "decode_string s _ = None"

fun decode_string_all :: "string \<Rightarrow> json list \<Rightarrow> string option" where
  "decode_string_all s [] = Some s"
| "decode_string_all s (v # vs) =
     (case decode_string s v of None \<Rightarrow> None | Some t \<Rightarrow> decode_string_all t vs)"

definition string_field :: "string \<Rightarrow> (string \<times> json) list \<Rightarrow> string option" where
  "string_field name ms = decode_string_all [] (field_values name ms)"

text \<open>A \<^verbatim>\<open>json.RawMessage\<close> field keeps the last matching member, null included.\<close>

definition raw_field :: "string \<Rightarrow> (string \<times> json) list \<Rightarrow> json option" where
  "raw_field name ms = (case rev (field_values name ms) of [] \<Rightarrow> None | v # _ \<Rightarrow> Some v)"

section \<open>Printing\<close>

definition hex_digit :: "nat \<Rightarrow> char" where
  "hex_digit n = ''0123456789abcdef'' ! n"

definition u00 :: "char \<Rightarrow> string" where
  "u00 c = BACKSLASH # ''u00'' @ [hex_digit (byte c div 16), hex_digit (byte c mod 16)]"

definition quote_char :: "char \<Rightarrow> string" where
  "quote_char c =
     (if c = QUOTE \<or> c = BACKSLASH then [BACKSLASH, c]
      else if c = CHR 0x08 then [BACKSLASH, CHR ''b''] else if c = CHR 0x0C then [BACKSLASH, CHR ''f'']
      else if c = NL then [BACKSLASH, CHR ''n''] else if c = CR then [BACKSLASH, CHR ''r'']
      else if c = CHR 0x09 then [BACKSLASH, CHR ''t'']
      else if byte c < 32 \<or> c = CHR ''<'' \<or> c = CHR ''>'' \<or> c = CHR ''&'' then u00 c
      else [c])"

text \<open>The bytes of one rune inside a quoted string and the number of bytes read: the HTML
  escapes, the two line separators and the replacement of invalid bytes are the library's.\<close>

definition quote_step :: "string \<Rightarrow> string \<times> nat" where
  "quote_step s =
     (case s of [] \<Rightarrow> ([], 1)
      | c # cs \<Rightarrow>
        if byte c < 128 then (quote_char c, 1)
        else case decode_rune s of (r, w) \<Rightarrow>
          if r = rune_error \<and> w = 1 then (BACKSLASH # ''ufffd'', 1)
          else if r = 8232 then (BACKSLASH # ''u2028'', 3)
          else if r = 8233 then (BACKSLASH # ''u2029'', 3)
          else (take (max 1 w) s, max 1 w))"

function quote_raw :: "string \<Rightarrow> string" where
  "quote_raw s =
     (if s = [] then [] else fst (quote_step s) @ quote_raw (drop (snd (quote_step s)) s))"
  by pat_completeness auto
termination
proof (relation "measure length", goal_cases)
  case (2 s)
  then have "0 < snd (quote_step s)"
    by (auto simp: quote_step_def split: list.splits prod.splits)
  with 2 show ?case by simp
qed simp

declare quote_raw.simps [simp del]

definition json_quote :: "string \<Rightarrow> string" where
  "json_quote s = QUOTE # quote_raw s @ [QUOTE]"

section \<open>Quoting and unquoting\<close>

definition ascii :: "string \<Rightarrow> bool" where
  "ascii s \<longleftrightarrow> list_all (\<lambda>c. byte c < 128) s"

lemma ascii_simps [simp]: "ascii []" "ascii (c # s) \<longleftrightarrow> byte c < 128 \<and> ascii s"
  "ascii (s @ t) \<longleftrightarrow> ascii s \<and> ascii t"
  by (auto simp: ascii_def)

lemma quote_raw_Nil [simp]: "quote_raw [] = []"
  by (subst quote_raw.simps) simp

lemma quote_raw_ascii: "byte c < 128 \<Longrightarrow> quote_raw (c # s) = quote_char c @ quote_raw s"
  by (subst quote_raw.simps) (simp add: quote_step_def)

lemma unquote_Nil [simp]: "unquote [] = []"
  by (subst unquote.simps) simp

lemma unquote_plain:
  "byte c < 128 \<Longrightarrow> c \<noteq> BACKSLASH \<Longrightarrow> unquote (c # s) = c # unquote s"
  by (subst unquote.simps) (simp add: unquote_step_def)

lemma unquote_simple:
  "d \<noteq> CHR ''u'' \<Longrightarrow> unquote (BACKSLASH # d # s) = escape_value d # unquote s"
  by (subst unquote.simps)
    (simp add: unquote_step_def get_u4_def split: list.splits)

lemma hex_value_digit: "n < 16 \<Longrightarrow> hex_value (hex_digit n) = Some n"
  by (auto simp: hex_digit_def hex_value_def less_Suc_eq numeral_eq_Suc)

lemma get_u4_u00: "byte c < 128 \<Longrightarrow> get_u4 (u00 c @ t) = Some (byte c)"
  by (simp add: u00_def get_u4_def is_hex_def hex4_def hex_value_digit)
    (simp add: hex_value_def)

lemma unquote_u00: "byte c < 128 \<Longrightarrow> unquote (u00 c @ t) = c # unquote t"
proof -
  assume c: "byte c < 128"
  have "unquote_step (u00 c @ t) = ([c], 6)"
    using c get_u4_u00 [OF c, of t]
    by (simp add: unquote_step_def surrogate_def encode_rune_def u00_def)
  then show ?thesis by (subst unquote.simps) (simp add: u00_def)
qed

lemma u00_raw:
  "byte c < 128 \<Longrightarrow> scan_str (u00 c @ t) = map_option (\<lambda>(a, r). (u00 c @ a, r)) (scan_str t)"
  by (simp add: u00_def is_hex_def hex_value_digit simple_escapes_def)
    (simp add: hex_value_def split_def)

lemma unquote_quote_char:
  "byte c < 128 \<Longrightarrow> unquote (quote_char c @ t) = c # unquote t"
  by (auto simp: quote_char_def unquote_simple unquote_plain unquote_u00 escape_value_def)

lemma scan_quote_char:
  "byte c < 128 \<Longrightarrow>
    scan_str (quote_char c @ t) = map_option (\<lambda>(a, r). (quote_char c @ a, r)) (scan_str t)"
  by (auto simp: quote_char_def u00_raw simple_escapes_def split_def)

lemma unquote_quote_raw: "ascii s \<Longrightarrow> unquote (quote_raw s) = s"
  by (induction s) (simp_all add: quote_raw_ascii unquote_quote_char)

lemma scan_quote_raw:
  "ascii s \<Longrightarrow> scan_str (quote_raw s @ QUOTE # r) = Some (quote_raw s, r)"
  by (induction s) (simp_all add: quote_raw_ascii scan_quote_char)

text \<open>Scanning a quoted ASCII string gives back the string and leaves what follows it.\<close>

lemma tokens_quote:
  assumes "ascii s"
  shows "tokens (json_quote s @ r) = map_option ((#) (TVal (JStr s))) (tokens r)"
  using assms
  by (simp add: json_quote_def json_space_def scan_token_def punct_def scan_quote_raw
      unquote_quote_raw)

lemma tokens_punct:
  "punct c = Some t \<Longrightarrow> tokens (c # r) = map_option ((#) t) (tokens r)"
  by (auto simp: json_space_def scan_token_def punct_def split: if_splits)

end
