(* ===== verification/Sha256.thy ===== *)
theory Sha256
  imports Prelude "HOL-Library.Word"
begin

text \<open>
  \<^verbatim>\<open>crypto/sha256.Sum256\<close> (FIPS 180-4) on byte strings, and its hexadecimal form
  \<^verbatim>\<open>hex.EncodeToString\<close>. A digest is the 32-byte string; \<open>zero_digest\<close> is the zero value
  \<^verbatim>\<open>[32]byte{}\<close> that the source uses for "no digest".
\<close>

unbundle bit_operations_syntax

type_synonym u32 = "32 word"

text \<open>The constants are the first 32 bits of the fractional parts of the cube roots of the first 64
  primes; the initial state those of the square roots of the first eight.\<close>

definition first_primes :: "int list" where
  "first_primes =
    [2, 3, 5, 7, 11, 13, 17, 19, 23, 29, 31, 37, 41, 43, 47, 53,
     59, 61, 67, 71, 73, 79, 83, 89, 97, 101, 103, 107, 109, 113, 127, 131,
     137, 139, 149, 151, 157, 163, 167, 173, 179, 181, 191, 193, 197, 199, 211, 223,
     227, 229, 233, 239, 241, 251, 257, 263, 269, 271, 277, 281, 283, 293, 307, 311]"

text \<open>The \<open>k\<close>-th root of \<open>n\<close>, rounded down, bit by bit.\<close>

fun root_bits :: "nat \<Rightarrow> nat \<Rightarrow> int \<Rightarrow> int \<Rightarrow> int" where
  "root_bits 0 k n r = r"
| "root_bits (Suc b) k n r = root_bits b k n (if (r + 2 ^ b) ^ k \<le> n then r + 2 ^ b else r)"

definition root_word :: "nat \<Rightarrow> int \<Rightarrow> u32" where
  "root_word k p = word_of_int (root_bits 40 k (p * 2 ^ (32 * k)) 0)"

definition sha_k :: "u32 list" where
  "sha_k = map (root_word 3) first_primes"

definition sha_init :: "u32 list" where
  "sha_init = map (root_word 2) (take 8 first_primes)"

definition rotr :: "nat \<Rightarrow> u32 \<Rightarrow> u32" where
  "rotr n w = drop_bit n w OR push_bit (32 - n) w"

definition small0 :: "u32 \<Rightarrow> u32" where
  "small0 w = rotr 7 w XOR rotr 18 w XOR drop_bit 3 w"
definition small1 :: "u32 \<Rightarrow> u32" where
  "small1 w = rotr 17 w XOR rotr 19 w XOR drop_bit 10 w"
definition big0 :: "u32 \<Rightarrow> u32" where
  "big0 w = rotr 2 w XOR rotr 13 w XOR rotr 22 w"
definition big1 :: "u32 \<Rightarrow> u32" where
  "big1 w = rotr 6 w XOR rotr 11 w XOR rotr 25 w"

fun schedule :: "nat \<Rightarrow> u32 list \<Rightarrow> u32 list" where
  "schedule 0 ws = ws"
| "schedule (Suc n) ws =
     (let t = length ws in
      schedule n (ws @ [small1 (ws ! (t - 2)) + ws ! (t - 7) + small0 (ws ! (t - 15)) + ws ! (t - 16)]))"

definition sha_round :: "u32 list \<Rightarrow> u32 \<times> u32 \<Rightarrow> u32 list" where
  "sha_round st kw =
     (let a = st ! 0; b = st ! 1; c = st ! 2; d = st ! 3;
          e = st ! 4; f = st ! 5; g = st ! 6; h = st ! 7;
          t1 = h + big1 e + ((e AND f) XOR (NOT e AND g)) + fst kw + snd kw;
          t2 = big0 a + ((a AND b) XOR (a AND c) XOR (b AND c))
      in [t1 + t2, a, b, c, d + t1, e, f, g])"

definition sha_block :: "u32 list \<Rightarrow> u32 list \<Rightarrow> u32 list" where
  "sha_block h block = map2 (+) h (foldl sha_round h (zip sha_k (schedule 48 block)))"

fun be_word :: "int list \<Rightarrow> u32" where
  "be_word bs = word_of_int (foldl (\<lambda>n b. n * 256 + b) 0 bs)"

fun words_of :: "int list \<Rightarrow> u32 list" where
  "words_of (a # b # c # d # r) = be_word [a, b, c, d] # words_of r"
| "words_of _ = []"

function chunks16 :: "u32 list \<Rightarrow> u32 list list" where
  "chunks16 ws = (if ws = [] then [] else take 16 ws # chunks16 (drop 16 ws))"
  by pat_completeness auto
termination
  by (relation "measure length") auto

declare chunks16.simps [simp del]

definition be_bytes :: "nat \<Rightarrow> int \<Rightarrow> int list" where
  "be_bytes k n = map (\<lambda>i. n div 256 ^ (k - 1 - i) mod 256) [0..<k]"

definition sha_pad :: "int list \<Rightarrow> int list" where
  "sha_pad m =
     (let n = length m; z = (119 - n mod 64) mod 64
      in m @ [128] @ replicate z 0 @ be_bytes 8 (8 * int n))"

definition sha256 :: "string \<Rightarrow> string" where
  "sha256 s =
     map char_of (concat (map (\<lambda>w. be_bytes 4 (uint w))
       (foldl sha_block sha_init (chunks16 (words_of (sha_pad (map of_char s)))))))"

definition hex_encode :: "string \<Rightarrow> string" where
  "hex_encode s =
     concat (map (\<lambda>c. [''0123456789abcdef'' ! (byte c div 16), ''0123456789abcdef'' ! (byte c mod 16)]) s)"

definition sha256_hex :: "string \<Rightarrow> string" where
  "sha256_hex s = hex_encode (sha256 s)"

definition zero_digest :: string where
  "zero_digest = replicate 32 NUL"

lemma length_hex_encode [simp]: "length (hex_encode s) = 2 * length s"
  by (induction s) (auto simp: hex_encode_def)

lemma byte_bound: "byte c < 256"
  by simp

lemma hex_alphabet: "list_all lower_hex ''0123456789abcdef''"
  by (simp add: lower_hex_def)

lemma lower_hex_digit: "n < 16 \<Longrightarrow> lower_hex (''0123456789abcdef'' ! n)"
  using hex_alphabet by (simp add: list_all_length)

lemma lower_hex_encode: "list_all lower_hex (hex_encode s)"
proof (induction s)
  case (Cons c s)
  have "byte c div 16 < 16" using byte_bound [of c] by linarith
  with Cons show ?case
    by (simp add: hex_encode_def lower_hex_digit del: of_char_of)
qed (simp add: hex_encode_def)

lemma hex_of_len_encode: "hex_of_len (length s) (hex_encode s)"
  by (simp add: hex_of_len_def lower_hex_encode)

lemma length_sha_round [simp]: "length (sha_round st kw) = 8"
  by (simp add: sha_round_def Let_def)

lemma length_foldl_round: "length h = 8 \<Longrightarrow> length (foldl sha_round h kws) = 8"
  by (induction kws arbitrary: h) simp_all

lemma length_foldl_block: "length h = 8 \<Longrightarrow> length (foldl sha_block h bs) = 8"
  by (induction bs arbitrary: h) (simp_all add: sha_block_def length_foldl_round)

lemma length_concat_const: "(\<And>x. x \<in> set xs \<Longrightarrow> length (f x) = k) \<Longrightarrow> length (concat (map f xs)) = k * length xs"
  by (induction xs) auto

lemma length_sha256: "length (sha256 s) = 32"
proof -
  have "length (foldl sha_block sha_init bs) = 8" for bs
    by (rule length_foldl_block) (simp add: sha_init_def first_primes_def)
  then show ?thesis
    unfolding sha256_def length_map by (subst length_concat_const [where k = 4]) (simp_all add: be_bytes_def)
qed

lemma sha256_hex_form: "hex_of_len 32 (sha256_hex s)"
  using hex_of_len_encode [of "sha256 s"] by (simp add: sha256_hex_def length_sha256)

end
