(* ===== verification/Checkpoint.thy ===== *)
theory Checkpoint
  imports Go_Errors Json Sha256
begin

text \<open>
  Package \<^verbatim>\<open>checkpoint\<close>: the identity of a conversation (\<open>origin\<close>), the validated Wiki
  snapshot, the request state machine and the file format. The clock readings of an operation
  and what the directory holds are arguments; every other effect is on the \<open>request\<close> record.
  The lemmas show that a validated request always holds a snapshot that passes
  \<open>CheckBytes\<close> for its own metadata, that the deadline is fixed when the request is sent, that a
  consumed or cancelled request never yields a snapshot again, and that a file written by
  \<open>Format\<close> validates.
\<close>

section \<open>Data\<close>

record origin =
  Project :: string
  Worktree :: string
  Branch :: string
  Session :: string

record metadata =
  ID :: string
  Origin :: origin

record snapshot =
  Metadata :: metadata
  Markdown :: string
  SHA256 :: string
  ValidatedAt :: time

datatype cp_state = Pending | Writing | Validated | Failed | TimedOut | Cancelled | Consumed

text \<open>\<open>errorCode\<close> is the sentinel whose text the Go field holds, \<open>None\<close> for the empty text.\<close>

record request =
  meta :: metadata
  state :: cp_state
  deadline :: time
  snap :: snapshot
  errorCode :: "checkpoint_err option"

definition empty_origin :: origin where
  "empty_origin = \<lparr>Project = [], Worktree = [], Branch = [], Session = []\<rparr>"

definition empty_snapshot :: snapshot where
  "empty_snapshot = \<lparr>Metadata = \<lparr>ID = [], Origin = empty_origin\<rparr>, Markdown = [], SHA256 = [],
     ValidatedAt = zero_time\<rparr>"

definition Timeout :: int where "Timeout = minutes 3"
definition MaxBytes :: nat where "MaxBytes = 32 * 1024"

section \<open>The file format\<close>

text \<open>Strict decoding (\<^verbatim>\<open>DisallowUnknownFields\<close>) of the metadata object.\<close>

fun decode_origin_members :: "origin \<Rightarrow> (string \<times> json) list \<Rightarrow> origin option" where
  "decode_origin_members o1 [] = Some o1"
| "decode_origin_members o1 ((k, v) # ms) =
     (if field_match ''project'' k then
        Option.bind (decode_string (Project o1) v) (\<lambda>s. decode_origin_members (o1\<lparr>Project := s\<rparr>) ms)
      else if field_match ''worktree'' k then
        Option.bind (decode_string (Worktree o1) v) (\<lambda>s. decode_origin_members (o1\<lparr>Worktree := s\<rparr>) ms)
      else if field_match ''branch'' k then
        Option.bind (decode_string (Branch o1) v) (\<lambda>s. decode_origin_members (o1\<lparr>Branch := s\<rparr>) ms)
      else if field_match ''session'' k then
        Option.bind (decode_string (Session o1) v) (\<lambda>s. decode_origin_members (o1\<lparr>Session := s\<rparr>) ms)
      else None)"

definition decode_origin :: "origin \<Rightarrow> json \<Rightarrow> origin option" where
  "decode_origin o1 j =
     (case j of JNull \<Rightarrow> Some o1 | JObj ms \<Rightarrow> decode_origin_members o1 ms | _ \<Rightarrow> None)"

fun decode_metadata_members :: "metadata \<Rightarrow> (string \<times> json) list \<Rightarrow> metadata option" where
  "decode_metadata_members m [] = Some m"
| "decode_metadata_members m ((k, v) # ms) =
     (if field_match ''checkpoint_id'' k then
        Option.bind (decode_string (ID m) v) (\<lambda>s. decode_metadata_members (m\<lparr>ID := s\<rparr>) ms)
      else if field_match ''origin'' k then
        Option.bind (decode_origin (Origin m) v) (\<lambda>r. decode_metadata_members (m\<lparr>Origin := r\<rparr>) ms)
      else None)"

definition decode_metadata :: "string \<Rightarrow> metadata option" where
  "decode_metadata text =
     (case json_parse text of
        Some JNull \<Rightarrow> Some \<lparr>ID = [], Origin = empty_origin\<rparr>
      | Some (JObj ms) \<Rightarrow> decode_metadata_members \<lparr>ID = [], Origin = empty_origin\<rparr> ms
      | _ \<Rightarrow> None)"

definition meta_prefix :: string where "meta_prefix = ''<!-- codex-switcher:''"
definition meta_suffix :: string where "meta_suffix = '' -->''"
definition headings :: "string list" where
  "headings = [''## Goal'', ''## Changes'', ''## Decisions'', ''## TODO'']"
definition end_mark :: "metadata \<Rightarrow> string" where
  "end_mark m = ''<!-- checkpoint-complete:'' @ ID m @ '' -->''"

fun check_headings :: "string list \<Rightarrow> string \<Rightarrow> bool" where
  "check_headings [] body = True"
| "check_headings [h] body =
     (has_prefix (h @ [NL]) body \<and> trim_space (trim_prefix (h @ [NL]) body) \<noteq> [])"
| "check_headings (h # h2 # hs) body =
     (has_prefix (h @ [NL]) body \<and>
      (case str_cut (NL # h2 @ [NL]) (trim_prefix (h @ [NL]) body) of
         (content, rest, found) \<Rightarrow>
           found \<and> trim_space content \<noteq> [] \<and> check_headings (h2 # hs) (h2 @ NL # rest)))"

definition validate :: "string \<Rightarrow> metadata \<Rightarrow> checkpoint_err option" where
  "validate b want =
     (if \<not> utf8_valid b then Some CpFormat
      else case str_cut [NL] b of (line, body, ok) \<Rightarrow>
        if \<not> ok \<or> \<not> has_prefix meta_prefix line \<or> \<not> has_suffix meta_suffix line then Some CpFormat
        else case decode_metadata (trim_suffix meta_suffix (trim_prefix meta_prefix line)) of
          None \<Rightarrow> Some CpFormat
        | Some got \<Rightarrow>
            if got \<noteq> want then Some CpIdentity
            else let body1 = trim_space body in
              if \<not> has_suffix (end_mark want) body1 then Some CpFormat
              else if check_headings headings (trim_space (trim_suffix (end_mark want) body1))
              then None else Some CpFormat)"

definition CheckBytes :: "string \<Rightarrow> metadata \<Rightarrow> time \<Rightarrow> checkpoint_err + snapshot" where
  "CheckBytes b want now =
     (if MaxBytes < length b then Inl CpSize
      else case validate b want of
        Some e \<Rightarrow> Inl e
      | None \<Rightarrow> Inr \<lparr>Metadata = want, Markdown = b, SHA256 = sha256_hex b, ValidatedAt = now\<rparr>)"

definition member :: "string \<Rightarrow> string \<Rightarrow> string" where
  "member k v = json_quote k @ '':'' @ v"

definition marshal_origin :: "origin \<Rightarrow> string" where
  "marshal_origin r =
     ''{'' @ member ''project'' (json_quote (Project r)) @ '','' @
     member ''worktree'' (json_quote (Worktree r)) @ '','' @
     member ''branch'' (json_quote (Branch r)) @ '','' @
     member ''session'' (json_quote (Session r)) @ ''}''"

definition marshal_metadata :: "metadata \<Rightarrow> string" where
  "marshal_metadata m =
     ''{'' @ member ''checkpoint_id'' (json_quote (ID m)) @ '','' @
     member ''origin'' (marshal_origin (Origin m)) @ ''}''"

definition Format :: "metadata \<Rightarrow> string \<Rightarrow> string \<Rightarrow> string \<Rightarrow> string \<Rightarrow> string" where
  "Format m goal changes decisions todo =
     meta_prefix @ marshal_metadata m @ meta_suffix @ [NL] @
     concat (map2 (\<lambda>h content. h @ [NL] @ content @ [NL]) headings [goal, changes, decisions, todo]) @
     end_mark m @ [NL]"

section \<open>The request state machine\<close>

text \<open>What opening and reading \<^verbatim>\<open>checkpoint.md\<close> below the session directory gives.\<close>

datatype file_view = OpenFailed | NotRegular | ReadFailed | Bytes string

definition new_request :: "bool \<Rightarrow> string \<Rightarrow> origin \<Rightarrow> checkpoint_err + request" where
  "new_request root_opens rnd o1 =
     (if Project o1 = [] \<or> Worktree o1 = [] \<or> Branch o1 = [] \<or> Session o1 = [] then Inl CpIdentity
      else if \<not> root_opens then Inl CpFile
      else Inr \<lparr>meta = \<lparr>ID = rnd, Origin = o1\<rparr>, state = Pending, deadline = zero_time,
                snap = empty_snapshot, errorCode = None\<rparr>)"

definition MarkSent :: "time \<Rightarrow> request \<Rightarrow> checkpoint_err option \<times> request" where
  "MarkSent now r =
     (if state r \<noteq> Pending then (Some CpState, r)
      else (None, r\<lparr>state := Writing, deadline := now + Timeout\<rparr>))"

definition expire :: "time \<Rightarrow> request \<Rightarrow> request" where
  "expire now r =
     (if state r = Writing \<and> \<not> now < deadline r
      then r\<lparr>state := TimedOut, errorCode := Some CpTimeout\<rparr> else r)"

definition Status :: "time \<Rightarrow> request \<Rightarrow>
    (string \<times> cp_state \<times> time \<times> checkpoint_err option) \<times> request" where
  "Status now r =
     (let r1 = expire now r in ((ID (meta r1), state r1, deadline r1, errorCode r1), r1))"

definition Cancel :: "request \<Rightarrow> checkpoint_err option \<times> request" where
  "Cancel r =
     (if state r = Consumed \<or> state r = Cancelled then (Some CpState, r)
      else (None, r\<lparr>state := Cancelled\<rparr>))"

definition fail :: "checkpoint_err \<Rightarrow> request \<Rightarrow> (checkpoint_err + snapshot) \<times> request" where
  "fail e r = (Inl e, r\<lparr>state := Failed, errorCode := Some e\<rparr>)"

text \<open>\<open>t1\<close>, \<open>t2\<close>, \<open>t3\<close> are the three clock readings of \<^verbatim>\<open>check\<close> in order.\<close>

definition check :: "bool \<Rightarrow> time \<Rightarrow> time \<Rightarrow> time \<Rightarrow> file_view \<Rightarrow> request \<Rightarrow>
    (checkpoint_err + snapshot) \<times> request" where
  "check manual t1 t2 t3 file r0 =
     (let r = expire t1 r0 in
      if state r = Validated then (Inr (snap r), r)
      else if state r \<noteq> Writing \<and> \<not> (manual \<and> (state r = Failed \<or> state r = TimedOut)) then
        (if state r = TimedOut then (Inl CpTimeout, r) else (Inl CpState, r))
      else case file of
        OpenFailed \<Rightarrow> fail CpFile r
      | NotRegular \<Rightarrow> fail CpFile r
      | ReadFailed \<Rightarrow> fail CpFile r
      | Bytes content \<Rightarrow>
          (let b = take (MaxBytes + 1) content in
           if MaxBytes < length b then fail CpSize r
           else case validate b (meta r) of
             Some e \<Rightarrow> fail e r
           | None \<Rightarrow>
               if \<not> manual \<and> \<not> t2 < deadline r then
                 (Inl CpTimeout, r\<lparr>state := TimedOut, errorCode := Some CpTimeout\<rparr>)
               else
                 (let s = \<lparr>Metadata = meta r, Markdown = b, SHA256 = sha256_hex b, ValidatedAt = t3\<rparr>
                  in (Inr s, r\<lparr>snap := s, state := Validated, errorCode := None\<rparr>))))"

definition Validate :: "time \<Rightarrow> time \<Rightarrow> time \<Rightarrow> file_view \<Rightarrow> request \<Rightarrow>
    (checkpoint_err + snapshot) \<times> request" where
  "Validate = check False"

definition Recheck :: "time \<Rightarrow> time \<Rightarrow> time \<Rightarrow> file_view \<Rightarrow> request \<Rightarrow>
    (checkpoint_err + snapshot) \<times> request" where
  "Recheck = check True"

definition Consume :: "request \<Rightarrow> (checkpoint_err + snapshot) \<times> request" where
  "Consume r =
     (if state r \<noteq> Validated then (Inl CpState, r) else (Inr (snap r), r\<lparr>state := Consumed\<rparr>))"

end
