(* ===== verification/Checkpoint_Props.thy ===== *)
theory Checkpoint_Props
  imports Checkpoint
begin

text \<open>
  Correctness of package \<^verbatim>\<open>checkpoint\<close>: the step relation of a request, its invariant, and the
  round trip from \<open>Format\<close> to \<open>validate\<close>.
\<close>

section \<open>The request as a state machine\<close>

text \<open>One exported operation of \<^verbatim>\<open>Request\<close>, at any clock reading and with any file contents.\<close>

inductive request_step :: "request \<Rightarrow> request \<Rightarrow> bool" where
  mark_sent: "request_step r (snd (MarkSent now r))"
| status: "request_step r (snd (Status now r))"
| cancel: "request_step r (snd (Cancel r))"
| check: "request_step r (snd (check manual t1 t2 t3 file r))"
| consume: "request_step r (snd (Consume r))"

inductive request_run :: "request \<Rightarrow> request \<Rightarrow> bool" where
  refl: "request_run r r"
| step: "request_run r s \<Longrightarrow> request_step s t \<Longrightarrow> request_run r t"

definition checked :: "metadata \<Rightarrow> snapshot \<Rightarrow> bool" where
  "checked m s \<longleftrightarrow> CheckBytes (Markdown s) m (ValidatedAt s) = Inr s"

definition request_inv :: "request \<Rightarrow> bool" where
  "request_inv r \<longleftrightarrow> (state r = Validated \<or> state r = Consumed \<longrightarrow> checked (meta r) (snap r))"

lemmas request_defs = MarkSent_def Status_def Cancel_def Consume_def expire_def fail_def Let_def

lemma expire_meta [simp]: "meta (expire now r) = meta r" "snap (expire now r) = snap r"
  "deadline (expire now r) = deadline r"
  by (simp_all add: expire_def)

lemma expire_state:
  "state (expire now r) =
     (if state r = Writing \<and> \<not> now < deadline r then TimedOut else state r)"
  by (simp add: expire_def)

lemma check_frame:
  assumes "check manual t1 t2 t3 fv r = (Inl e, r')"
  shows "meta r' = meta r \<and> snap r' = snap r \<and> deadline r' = deadline r \<and>
    (state r' = Failed \<or> state r' = TimedOut \<or> state r' = state r)"
  using assms
  by (cases fv) (auto simp: check_def Let_def fail_def expire_def split: if_splits option.splits)

text \<open>What a check can do: return the stored snapshot, accept the file, or fail.\<close>

lemma check_cases:
  assumes "check manual t1 t2 t3 fv r = (res, r')"
  obtains (stored) "state r = Validated" "res = Inr (snap r)" "r' = r"
  | (accepted) b where "state r = Writing \<or> manual \<and> (state r = Failed \<or> state r = TimedOut)"
      "length b \<le> MaxBytes" "validate b (meta r) = None"
      "manual \<or> t1 < deadline r \<and> t2 < deadline r"
      "res = Inr \<lparr>Metadata = meta r, Markdown = b, SHA256 = sha256_hex b, ValidatedAt = t3\<rparr>"
      "r' = (expire t1 r)\<lparr>snap := \<lparr>Metadata = meta r, Markdown = b, SHA256 = sha256_hex b,
                ValidatedAt = t3\<rparr>, state := Validated, errorCode := None\<rparr>"
  | (failed) e where "res = Inl e" "state r \<noteq> Validated" "meta r' = meta r" "snap r' = snap r"
      "deadline r' = deadline r"
      "state r' = Failed \<or> state r' = TimedOut \<or> state r' = state r"
proof (cases "state r = Validated")
  case True
  with assms have "res = Inr (snap r)" "r' = r" by (auto simp: check_def expire_def Let_def)
  with True show thesis by (rule stored)
next
  case nv: False
  show thesis
  proof (cases res)
    case (Inl e)
    with failed [OF Inl nv] check_frame [OF assms [unfolded Inl]] show thesis by simp
  next
    case (Inr s)
    with assms nv obtain content where f: "fv = Bytes content" and
      st: "state (expire t1 r) = Writing \<or>
           manual \<and> (state (expire t1 r) = Failed \<or> state (expire t1 r) = TimedOut)" and
      len: "length (take (MaxBytes + 1) content) \<le> MaxBytes" and
      v: "validate (take (MaxBytes + 1) content) (meta r) = None" and
      dl: "manual \<or> t2 < deadline r"
      by (cases fv) (auto simp: check_def Let_def fail_def expire_state split: if_splits option.splits)
    define b where "b = take (MaxBytes + 1) content"
    have pre: "state r = Writing \<or> manual \<and> (state r = Failed \<or> state r = TimedOut)"
      "manual \<or> t1 < deadline r \<and> t2 < deadline r"
      using st dl by (auto simp: expire_state split: if_splits)
    from st have "state (expire t1 r) \<noteq> Validated" by auto
    with st len v dl have "check manual t1 t2 t3 fv r =
        (Inr \<lparr>Metadata = meta r, Markdown = b, SHA256 = sha256_hex b, ValidatedAt = t3\<rparr>,
         (expire t1 r)\<lparr>snap := \<lparr>Metadata = meta r, Markdown = b, SHA256 = sha256_hex b,
                ValidatedAt = t3\<rparr>, state := Validated, errorCode := None\<rparr>)"
      unfolding check_def Let_def f b_def by auto
    with assms accepted [OF pre(1) _ _ pre(2), of b] len v show thesis
      by (simp add: b_def)
  qed
qed

lemma checked_new:
  "length b \<le> MaxBytes \<Longrightarrow> validate b m = None \<Longrightarrow>
    checked m \<lparr>Metadata = m, Markdown = b, SHA256 = sha256_hex b, ValidatedAt = t\<rparr>"
  by (simp add: checked_def CheckBytes_def)

lemma check_step:
  assumes "check manual t1 t2 t3 fv r = (res, r')" and "request_inv r"
  shows "request_inv r' \<and> meta r' = meta r \<and> (\<forall>s. res = Inr s \<longrightarrow> checked (meta r) s)"
  using assms(1)
proof (cases rule: check_cases)
  case stored
  with assms(2) show ?thesis by (simp add: request_inv_def)
next
  case (accepted b)
  then show ?thesis by (simp add: request_inv_def checked_new)
next
  case failed
  with assms(2) show ?thesis by (auto simp: request_inv_def)
qed

lemma request_step_inv: "request_step r r' \<Longrightarrow> request_inv r \<Longrightarrow> request_inv r' \<and> meta r' = meta r"
proof (induction rule: request_step.induct)
  case (check r manual t1 t2 t3 fv)
  then show ?case by (metis check_step prod.collapse)
qed (auto simp: request_inv_def request_defs)

lemma request_run_inv: "request_run r r' \<Longrightarrow> request_inv r \<Longrightarrow> request_inv r' \<and> meta r' = meta r"
  by (induction rule: request_run.induct) (auto dest: request_step_inv)

lemma new_request_inv: "new_request ok rnd o1 = Inr r \<Longrightarrow> request_inv r"
  by (auto simp: new_request_def request_inv_def split: if_splits)

text \<open>Consumed and cancelled requests stay so.\<close>

definition retired :: "request \<Rightarrow> bool" where
  "retired r \<longleftrightarrow> state r = Consumed \<or> state r = Cancelled"

lemma retired_step: "request_step r r' \<Longrightarrow> retired r \<Longrightarrow> retired r'"
proof (induction rule: request_step.induct)
  case (check r manual t1 t2 t3 fv)
  then show ?case by (auto simp: retired_def check_def expire_def Let_def)
qed (auto simp: retired_def request_defs)

lemma retired_run: "request_run r r' \<Longrightarrow> retired r \<Longrightarrow> retired r'"
  by (induction rule: request_run.induct) (auto dest: retired_step)

section \<open>Round trip of the file format\<close>

lemma cut_char: "c \<notin> set a \<Longrightarrow> str_cut [c] (a @ c # b) = (a, b, True)"
  by (induction a) auto

lemma cut_mark:
  assumes "x \<notin> set a" and "x \<noteq> y"
  shows "str_cut (y # x # m) (a @ (y # x # m) @ b) = (a, b, True)"
  using assms
proof (induction a)
  case (Cons c cs)
  have "\<not> has_prefix (y # x # m) ((c # cs) @ (y # x # m) @ b)"
    using Cons.prems by (cases cs) auto
  with Cons show ?case by (simp del: has_prefix_Cons)
qed (simp del: has_prefix_Cons add: has_prefix_iff)

lemma quote_char_no_nl: "byte c < 128 \<Longrightarrow> NL \<notin> set (quote_char c)"
proof -
  have "list_all (\<lambda>d. d \<noteq> NL) ''0123456789abcdef''" by simp
  then have d: "n < 16 \<Longrightarrow> hex_digit n \<noteq> NL" for n
    by (simp add: hex_digit_def list_all_length)
  assume "byte c < 128"
  then have "byte c div 16 < 16" by linarith
  then have "NL \<notin> set (u00 c)" using d [of "byte c div 16"] d [of "byte c mod 16"]
    by (auto simp: u00_def)
  then show ?thesis by (auto simp: quote_char_def)
qed

lemma quote_char_ascii: "byte c < 128 \<Longrightarrow> ascii (quote_char c)"
proof -
  have "list_all (\<lambda>d. byte d < 128) ''0123456789abcdef''" by simp
  then have d: "n < 16 \<Longrightarrow> byte (hex_digit n) < 128" for n
    by (simp add: hex_digit_def list_all_length)
  assume c: "byte c < 128"
  then have "byte c div 16 < 16" by linarith
  then have "ascii (u00 c)" using d [of "byte c div 16"] d [of "byte c mod 16"]
    by (simp add: u00_def)
  with c show ?thesis by (auto simp: quote_char_def)
qed

lemma quote_raw_ok: "ascii s \<Longrightarrow> NL \<notin> set (quote_raw s) \<and> ascii (quote_raw s)"
  by (induction s) (auto simp: quote_raw_ascii quote_char_no_nl quote_char_ascii)

lemma json_quote_ok: "ascii s \<Longrightarrow> NL \<notin> set (json_quote s) \<and> ascii (json_quote s)"
  using quote_raw_ok [of s] by (simp add: json_quote_def)

definition ascii_origin :: "origin \<Rightarrow> bool" where
  "ascii_origin r \<longleftrightarrow> ascii (Project r) \<and> ascii (Worktree r) \<and> ascii (Branch r) \<and> ascii (Session r)"

definition ascii_metadata :: "metadata \<Rightarrow> bool" where
  "ascii_metadata m \<longleftrightarrow> ascii (ID m) \<and> ascii_origin (Origin m)"

lemma marshal_ok:
  assumes "ascii_metadata m"
  shows "NL \<notin> set (marshal_metadata m) \<and> ascii (marshal_metadata m)"
  using assms json_quote_ok
  by (auto simp: marshal_metadata_def marshal_origin_def member_def ascii_metadata_def ascii_origin_def)

lemmas field_match_simps = field_match_def fold_name.simps

lemma tokens_colon: "tokens (CHR '':'' # r) = map_option ((#) TColon) (tokens r)"
  and tokens_comma: "tokens (CHR '','' # r) = map_option ((#) TComma) (tokens r)"
  and tokens_open: "tokens (CHR ''{'' # r) = map_option ((#) TOpenObj) (tokens r)"
  and tokens_close: "tokens (CHR ''}'' # r) = map_option ((#) TCloseObj) (tokens r)"
  by (rule tokens_punct, simp add: punct_def)+

lemma tokens_origin:
  assumes "ascii_origin r"
  shows "tokens (marshal_origin r @ s) =
     map_option (\<lambda>ts. [TOpenObj, TVal (JStr ''project''), TColon, TVal (JStr (Project r)), TComma,
        TVal (JStr ''worktree''), TColon, TVal (JStr (Worktree r)), TComma,
        TVal (JStr ''branch''), TColon, TVal (JStr (Branch r)), TComma,
        TVal (JStr ''session''), TColon, TVal (JStr (Session r)), TCloseObj] @ ts) (tokens s)"
  using assms
  by (simp add: marshal_origin_def member_def ascii_origin_def tokens_quote
      tokens_colon tokens_comma tokens_open tokens_close option.map_comp o_def del: tokens.simps)

lemma parse_metadata:
  assumes "ascii_metadata m"
  shows "json_parse (marshal_metadata m) =
     Some (JObj [(''checkpoint_id'', JStr (ID m)),
        (''origin'', JObj [(''project'', JStr (Project (Origin m))),
           (''worktree'', JStr (Worktree (Origin m))), (''branch'', JStr (Branch (Origin m))),
           (''session'', JStr (Session (Origin m)))])])"
proof -
  have "tokens (marshal_metadata m) =
      Some [TOpenObj, TVal (JStr ''checkpoint_id''), TColon, TVal (JStr (ID m)), TComma,
        TVal (JStr ''origin''), TColon, TOpenObj,
        TVal (JStr ''project''), TColon, TVal (JStr (Project (Origin m))), TComma,
        TVal (JStr ''worktree''), TColon, TVal (JStr (Worktree (Origin m))), TComma,
        TVal (JStr ''branch''), TColon, TVal (JStr (Branch (Origin m))), TComma,
        TVal (JStr ''session''), TColon, TVal (JStr (Session (Origin m))), TCloseObj, TCloseObj]"
    using assms
    by (simp add: marshal_metadata_def member_def ascii_metadata_def tokens_quote tokens_origin
        tokens_colon tokens_comma tokens_open tokens_close option.map_comp o_def del: tokens.simps)
      (simp add: tokens.simps(1))
  then show ?thesis
    by (simp add: json_parse_def read_value_def read_key_def open_frame_def max_depth_def)
qed

lemma decode_marshal:
  assumes "ascii_metadata m"
  shows "decode_metadata (marshal_metadata m) = Some m"
  by (simp add: decode_metadata_def parse_metadata [OF assms] field_match_simps decode_origin_def
      char_of_def bit_Suc_0_iff)

text \<open>On ASCII text white space is the six ASCII characters.\<close>

lemma space_head_ascii: "ascii (c # s) \<Longrightarrow> space_head (c # s) = (if ascii_space c then 1 else 0)"
  by (auto simp: space_head_def decode_rune_def wide_space_def)

lemma space_last_ascii: "ascii (c # s) \<Longrightarrow> space_last (c # s) = (if ascii_space c then 1 else 0)"
proof -
  assume a: "ascii (c # s)"
  have "snd (decode_rune (rev (take n (c # s)))) \<le> 1" for n
  proof (cases "rev (take n (c # s))")
    case (Cons d t)
    then have "d \<in> set (c # s)"
      by (metis in_set_takeD list.set_intros(1) set_rev)
    with a have "byte d < 128" by (auto simp: ascii_def list_all_iff)
    with Cons show ?thesis by (simp add: decode_rune_def)
  qed (simp add: decode_rune_def)
  from this [of 2] this [of 3] show ?thesis by (auto simp: space_last_def)
qed

lemma trim_head_ascii: "ascii s \<Longrightarrow> trim_with space_head s = dropWhile ascii_space s"
  by (induction s) (simp_all add: trim_with.simps [of _ "_ # _"] space_head_ascii del: ascii_simps(2) cong: if_cong,
      auto)

lemma trim_last_ascii: "ascii s \<Longrightarrow> trim_with space_last s = dropWhile ascii_space s"
  by (induction s) (simp_all add: trim_with.simps [of _ "_ # _"] space_last_ascii del: ascii_simps(2) cong: if_cong,
      auto)

lemma ascii_rev [simp]: "ascii (rev s) = ascii s"
  by (simp add: ascii_def)

lemma ascii_dropWhile: "ascii s \<Longrightarrow> ascii (dropWhile P s)"
  by (induction s) auto

lemma trim_space_ascii:
  "ascii s \<Longrightarrow> trim_space s = rev (dropWhile ascii_space (rev (dropWhile ascii_space s)))"
  by (simp add: trim_space_def trim_head_ascii trim_last_ascii ascii_dropWhile)

definition blank :: "string \<Rightarrow> bool" where
  "blank s \<longleftrightarrow> list_all ascii_space s"

lemma dropWhile_blank: "dropWhile ascii_space s = [] \<longleftrightarrow> blank s"
  by (simp add: blank_def list_all_iff)

lemma blank_dropWhile [simp]: "blank (dropWhile ascii_space s) = blank s"
  by (induction s) (auto simp: blank_def)

lemma blank_rev [simp]: "blank (rev s) = blank s"
  by (simp add: blank_def)

lemma trim_space_blank: "ascii s \<Longrightarrow> trim_space s = [] \<longleftrightarrow> blank s"
  using dropWhile_blank [of "rev (dropWhile ascii_space s)"] by (simp add: trim_space_ascii del: dropWhile_eq_Nil_conv)

lemma trim_space_right:
  assumes "ascii (c # a @ t)" and "\<not> ascii_space c"
  shows "trim_space (c # a @ t) =
    (if blank t then trim_space (c # a) else c # a @ rev (dropWhile ascii_space (rev t)))"
proof (cases "blank t")
  case True
  then have "\<forall>x\<in>set (rev t). ascii_space x" by (simp add: blank_def list_all_iff)
  with True assms dropWhile_append2 [of "rev t" ascii_space "rev a @ [c]"] show ?thesis
    by (simp add: trim_space_ascii)
next
  case False
  then obtain x where "x \<in> set (rev t)" "\<not> ascii_space x"
    by (auto simp: blank_def list_all_iff)
  with False assms show ?thesis by (simp add: trim_space_ascii dropWhile_append1)
qed

text \<open>A content section: ASCII, not blank, without a heading mark.\<close>

definition section_ok :: "string \<Rightarrow> bool" where
  "section_ok c \<longleftrightarrow> ascii c \<and> \<not> blank c \<and> CHR ''#'' \<notin> set c"

lemma check_headings_step:
  assumes "section_ok c" and "h2 = CHR ''#'' # k"
  shows "check_headings (h # h2 # hs) (h @ NL # c @ NL # h2 @ NL # rest) =
    check_headings (h2 # hs) (h2 @ NL # rest)"
proof -
  have "str_cut (NL # h2 @ [NL]) (c @ NL # h2 @ NL # rest) = (c, rest, True)"
    using cut_mark [of "CHR ''#''" c NL "k @ [NL]" rest] assms by (simp add: section_ok_def)
  moreover have "trim_prefix (h @ [NL]) (h @ NL # x) = x" and "has_prefix (h @ [NL]) (h @ NL # x)" for x
    using trim_prefix_append [of "h @ [NL]" x] has_prefix_self [of "h @ [NL]" x] by simp_all
  ultimately show ?thesis
    using assms by (simp add: section_ok_def trim_space_blank)
qed

lemma check_headings_last:
  assumes "ascii c" and "\<not> blank c"
  shows "check_headings [h] (h @ NL # c)"
  using assms trim_prefix_append [of "h @ [NL]" c] has_prefix_self [of "h @ [NL]" c]
  by (simp add: trim_space_blank)

section \<open>Properties\<close>

lemma format_validate:
  assumes m: "ascii_metadata m"
    and ok: "section_ok goal" "section_ok changes" "section_ok decisions" "section_ok todo"
  shows "validate (Format m goal changes decisions todo) m = None"
proof -
  define line where "line = meta_prefix @ marshal_metadata m @ meta_suffix"
  define hd4 where "hd4 = ''# Goal'' @ NL # goal @ NL # ''## Changes'' @ NL # changes @ NL #
      ''## Decisions'' @ NL # decisions @ NL # ''## TODO'' @ [NL]"
  define todo' where "todo' = rev (dropWhile ascii_space (rev (todo @ [NL])))"
  have fmt: "Format m goal changes decisions todo =
      line @ NL # CHR ''#'' # hd4 @ (todo @ [NL]) @ end_mark m @ [NL]"
    by (simp add: Format_def line_def hd4_def headings_def)
  have asc: "ascii line" "ascii hd4" "ascii todo" "ascii (end_mark m)" "ascii todo'"
    using marshal_ok [OF m] m ok
    by (simp_all add: line_def hd4_def todo'_def meta_prefix_def meta_suffix_def end_mark_def
        section_ok_def ascii_metadata_def ascii_dropWhile)
  have nl: "NL \<notin> set line"
    using marshal_ok [OF m] by (simp add: line_def meta_prefix_def meta_suffix_def)
  have u: "utf8_valid (Format m goal changes decisions todo)"
    using asc by (intro utf8_valid_all_ascii) (auto simp: fmt ascii_def list_all_iff)
  have nb: "\<not> blank (todo @ [NL])" "\<not> blank todo'"
    using ok by (simp_all add: section_ok_def todo'_def) (simp_all add: blank_def)
  have e: "end_mark m = (''<!-- checkpoint-complete:'' @ ID m @ '' --'') @ ''>''"
    by (simp add: end_mark_def)
  have "trim_space (CHR ''#'' # (hd4 @ (todo @ [NL]) @ end_mark m) @ [NL]) =
      trim_space (CHR ''#'' # (hd4 @ (todo @ [NL]) @ end_mark m))"
    by (subst trim_space_right) (use asc in \<open>simp_all add: ascii_space_def blank_def\<close>)
  also have "\<dots> = CHR ''#'' # (hd4 @ (todo @ [NL]) @ end_mark m)"
    using trim_space_right [of "CHR ''#''" "hd4 @ todo @ NL # ''<!-- checkpoint-complete:'' @ ID m @ '' --''" "''>''"]
      asc by (simp add: e ascii_space_def blank_def)
  finally have b1: "trim_space (CHR ''#'' # hd4 @ todo @ NL # end_mark m @ [NL]) =
      (CHR ''#'' # hd4 @ todo @ [NL]) @ end_mark m" by simp
  have b2: "trim_space (CHR ''#'' # hd4 @ (todo @ [NL])) = CHR ''#'' # hd4 @ todo'"
    by (subst trim_space_right) (use asc nb in \<open>simp_all add: ascii_space_def todo'_def\<close>)
  have "check_headings headings (CHR ''#'' # hd4 @ todo')"
    using ok asc nb check_headings_last [of todo' "''## TODO''"]
      check_headings_step [of goal "''## Changes''" "''# Changes''" "''## Goal''"
        "[''## Decisions'', ''## TODO'']"]
      check_headings_step [of changes "''## Decisions''" "''# Decisions''" "''## Changes''" "[''## TODO'']"]
      check_headings_step [of decisions "''## TODO''" "''# TODO''" "''## Decisions''" "[]"]
    by (simp add: headings_def hd4_def del: check_headings.simps has_prefix_Cons)
  moreover have "has_prefix meta_prefix line" "has_suffix meta_suffix line"
    and "trim_suffix meta_suffix (trim_prefix meta_prefix line) = marshal_metadata m"
    unfolding line_def
    by (simp_all add: has_suffix_iff del: has_prefix_Cons)
  moreover have "has_suffix (end_mark m) ((CHR ''#'' # hd4 @ todo @ [NL]) @ end_mark m)"
    unfolding has_suffix_iff by blast
  ultimately show ?thesis
    using u cut_char [OF nl] b1 b2 decode_marshal [OF m]
      trim_suffix_append [of "end_mark m" "CHR ''#'' # hd4 @ todo @ [NL]"]
    by (simp add: validate_def fmt Let_def del: has_prefix_Cons)
qed


definition sample_origin :: origin where
  "sample_origin = \<lparr>Project = ''p'', Worktree = ''w'', Branch = ''b'', Session = ''s''\<rparr>"

definition sample_meta :: metadata where
  "sample_meta = \<lparr>ID = ''k'', Origin = sample_origin\<rparr>"

abbreviation sample_file :: string where
  "sample_file \<equiv> Format sample_meta ''g'' ''c'' ''d'' ''t''"

lemma sample_meta_ascii: "ascii_metadata sample_meta"
  by (simp add: ascii_metadata_def ascii_origin_def sample_meta_def sample_origin_def)

lemma sample_sections: "section_ok ''g''" "section_ok ''c''" "section_ok ''d''" "section_ok ''t''"
  by (simp_all add: section_ok_def blank_def ascii_space_def)

lemma sample_length: "length sample_file \<le> MaxBytes"
  by (simp add: Format_def headings_def meta_prefix_def meta_suffix_def end_mark_def MaxBytes_def
      marshal_metadata_def marshal_origin_def member_def json_quote_def sample_meta_def
      sample_origin_def quote_raw_ascii quote_char_def)

lemmas sample_valid = format_validate [OF sample_meta_ascii sample_sections]


text \<open>C24: in every run of a request from its creation, a snapshot that \<^verbatim>\<open>Validate\<close>, \<^verbatim>\<open>Recheck\<close> or
  \<^verbatim>\<open>Consume\<close> returns passes \<^verbatim>\<open>CheckBytes\<close> for the request's own metadata, so it carries the
  identity the request was created for and the digest of exactly its bytes.\<close>

theorem request_snapshot_sound:
  assumes "new_request ok rnd o1 = Inr r0" and "request_run r0 r"
    and "fst (check manual t1 t2 t3 fv r) = Inr s \<or> fst (Consume r) = Inr s"
  shows "CheckBytes (Markdown s) (meta r0) (ValidatedAt s) = Inr s \<and> meta r0 = \<lparr>ID = rnd, Origin = o1\<rparr>"
proof -
  have inv: "request_inv r" "meta r = meta r0"
    using request_run_inv [OF assms(2) new_request_inv [OF assms(1)]] by auto
  have "checked (meta r) s"
    using assms(3)
  proof
    assume "fst (check manual t1 t2 t3 fv r) = Inr s"
    with check_step [OF surjective_pairing inv(1)] show ?thesis by blast
  next
    assume "fst (Consume r) = Inr s"
    with inv(1) show ?thesis by (auto simp: Consume_def request_inv_def split: if_splits)
  qed
  with inv(2) assms(1) show ?thesis
    by (auto simp: checked_def new_request_def split: if_splits)
qed

definition sample_request :: request where
  "sample_request = \<lparr>meta = sample_meta, state = Pending, deadline = zero_time,
     snap = empty_snapshot, errorCode = None\<rparr>"

lemma sample_new: "new_request True ''k'' sample_origin = Inr sample_request"
  by (simp add: new_request_def sample_request_def sample_meta_def sample_origin_def)

lemma sample_take: "take (MaxBytes + 1) sample_file = sample_file"
  using sample_length by (simp del: One_nat_def)

lemma sample_check:
  "check False 1 2 3 (Bytes sample_file) (snd (MarkSent 0 sample_request)) =
    (Inr \<lparr>Metadata = sample_meta, Markdown = sample_file, SHA256 = sha256_hex sample_file, ValidatedAt = 3\<rparr>,
     \<lparr>meta = sample_meta, state = Validated, deadline = Timeout,
      snap = \<lparr>Metadata = sample_meta, Markdown = sample_file, SHA256 = sha256_hex sample_file, ValidatedAt = 3\<rparr>,
      errorCode = None\<rparr>)"
  using sample_length sample_valid
  unfolding check_def Let_def file_view.case sample_take
  by (simp add: MarkSent_def sample_request_def expire_def Timeout_def time_unit_defs)

theorem request_snapshot_sound_witness:
  "\<exists>s. fst (check False 1 2 3 (Bytes sample_file) (snd (MarkSent 0 sample_request))) = Inr s
    \<and> CheckBytes (Markdown s) sample_meta (ValidatedAt s) = Inr s"
proof -
  let ?s = "\<lparr>Metadata = sample_meta, Markdown = sample_file, SHA256 = sha256_hex sample_file, ValidatedAt = 3\<rparr>"
  have "fst (check False 1 2 3 (Bytes sample_file) (snd (MarkSent 0 sample_request))) = Inr ?s"
    by (simp add: sample_check)
  with request_snapshot_sound [OF sample_new request_run.step [OF request_run.refl request_step.mark_sent],
      of False 1 2 3 "Bytes sample_file" 0 ?s]
  show ?thesis by (intro exI [of _ ?s] conjI) (simp_all add: sample_request_def)
qed

text \<open>A snapshot is handed out for consumption at most once: after a successful
  \<^verbatim>\<open>Consume\<close>, whatever operations follow, no \<^verbatim>\<open>Consume\<close>, \<^verbatim>\<open>Validate\<close> or \<^verbatim>\<open>Recheck\<close>
  returns a snapshot again.\<close>

theorem consumed_once:
  assumes "fst (Consume r) = Inr s" and "request_run (snd (Consume r)) r'"
  shows "isl (fst (Consume r')) \<and> isl (fst (check manual t1 t2 t3 fv r'))"
proof -
  have "retired (snd (Consume r))"
    using assms(1) by (auto simp: Consume_def retired_def split: if_splits)
  with assms(2) have "retired r'" by (rule retired_run)
  then show ?thesis by (auto simp: retired_def Consume_def check_def expire_def Let_def)
qed

theorem consumed_once_witness:
  "let r = snd (check False 1 2 3 (Bytes sample_file) (snd (MarkSent 0 sample_request)));
       r' = snd (check True 4 5 6 (Bytes sample_file) (snd (Consume r)))
   in is_ok (fst (Consume r)) \<and> isl (fst (Consume r'))"
  using consumed_once [OF _ request_run.step [OF request_run.refl request_step.check],
      of "snd (check False 1 2 3 (Bytes sample_file) (snd (MarkSent 0 sample_request)))"]
    sample_check
  by (simp add: Consume_def)

lemma deadline_step:
  "request_step r r' \<Longrightarrow> state r \<noteq> Pending \<Longrightarrow> state r' \<noteq> Pending \<and> deadline r' = deadline r"
proof (induction rule: request_step.induct)
  case (check r manual t1 t2 t3 fv)
  show ?case
    by (rule check_cases [of manual t1 t2 t3 fv r])
      (use check in \<open>auto simp: prod_eq_iff\<close>)
qed (auto simp: request_defs)

lemma deadline_run:
  "request_run r r' \<Longrightarrow> state r \<noteq> Pending \<Longrightarrow> state r' \<noteq> Pending \<and> deadline r' = deadline r"
  by (induction rule: request_run.induct) (auto dest: deadline_step)

text \<open>The three minutes run from the moment the request is sent and are never extended: an
  automatic validation that accepts a file does so with both of its clock readings before that
  deadline, whatever happened in between.\<close>

theorem validate_before_deadline:
  assumes "fst (MarkSent now r) = None" and "request_run (snd (MarkSent now r)) r'"
    and "state r' \<noteq> Validated" and "fst (Validate t1 t2 t3 fv r') = Inr s"
  shows "t1 < now + Timeout \<and> t2 < now + Timeout"
proof -
  have "state (snd (MarkSent now r)) = Writing" "deadline (snd (MarkSent now r)) = now + Timeout"
    using assms(1) by (auto simp: MarkSent_def split: if_splits)
  with deadline_run [OF assms(2)] have "deadline r' = now + Timeout" by simp
  moreover obtain r'' where "check False t1 t2 t3 fv r' = (Inr s, r'')"
    using assms(4) by (metis Validate_def prod.collapse)
  then have "t1 < deadline r' \<and> t2 < deadline r'"
    using assms(3) by (cases rule: check_cases) auto
  ultimately show ?thesis by simp
qed

theorem validate_before_deadline_witness:
  "is_ok (fst (Validate 1 2 3 (Bytes sample_file) (snd (MarkSent 0 sample_request)))) \<and> (2::int) < 0 + Timeout"
  using validate_before_deadline [OF _ request_run.refl, of 0 sample_request 1 2 3 "Bytes sample_file"]
    sample_check
  by (auto simp: Validate_def MarkSent_def sample_request_def)

end
