(* ===== verification/Handoff_Store.thy ===== *)
theory Handoff_Store
  imports Checkpoint "HOL-Library.AList"
begin

text \<open>
  Package \<^verbatim>\<open>handoff\<close>: the in-memory store that binds an explicit handoff to a new
  conversation. \<^verbatim>\<open>rand.Text()\<close> is an argument. The account table is an association list with
  unique keys, because the code counts its entries; the other tables are maps. The lemmas
  establish the store invariant, that a reservation is consumed by at most one conversation and
  that no operation moves a session to another account.
\<close>

record hsession =
  sOrigin :: origin
  Account :: string
  Wiki :: string

record mem_reservation =
  mSource :: origin
  mTarget :: string
  mSnapshot :: snapshot
  mConsumedBy :: string

record mem_store =
  accounts :: "(string \<times> bool) list"
  sessions :: "string \<rightharpoonup> hsession"
  reservations :: "string \<rightharpoonup> mem_reservation"
  sourcePending :: "string \<rightharpoonup> string"

definition empty_session :: hsession where
  "empty_session = \<lparr>sOrigin = empty_origin, Account = [], Wiki = []\<rparr>"

definition new_store :: mem_store where
  "new_store = \<lparr>accounts = [], sessions = Map.empty, reservations = Map.empty,
     sourcePending = Map.empty\<rparr>"

definition origin_complete :: "origin \<Rightarrow> bool" where
  "origin_complete r \<longleftrightarrow> Project r \<noteq> [] \<and> Worktree r \<noteq> [] \<and> Branch r \<noteq> [] \<and> Session r \<noteq> []"

text \<open>Indexing a Go map of booleans: a missing key reads as false.\<close>

definition available :: "mem_store \<Rightarrow> string \<Rightarrow> bool" where
  "available s a \<longleftrightarrow> map_of (accounts s) a = Some True"

definition SetAccount :: "string \<Rightarrow> bool \<Rightarrow> mem_store \<Rightarrow> handoff_err option \<times> mem_store" where
  "SetAccount a avail s =
     (if a = [] then (Some HandIdentity, s)
      else if map_of (accounts s) a = None \<and> 2 \<le> length (accounts s) then (Some HandConflict, s)
      else (None, s\<lparr>accounts := AList.update a avail (accounts s)\<rparr>))"

definition mem_Register :: "origin \<Rightarrow> string \<Rightarrow> mem_store \<Rightarrow> (handoff_err + hsession) \<times> mem_store" where
  "mem_Register o1 account s =
     (if \<not> origin_complete o1 then (Inl HandIdentity, s)
      else if sessions s (Session o1) \<noteq> None then (Inl HandConflict, s)
      else if \<not> available s account then (Inl HandUnavailable, s)
      else let x = \<lparr>sOrigin = o1, Account = account, Wiki = []\<rparr>
           in (Inr x, s\<lparr>sessions := (sessions s)(Session o1 \<mapsto> x)\<rparr>))"

definition pending_of :: "mem_store \<Rightarrow> string \<Rightarrow> string" where
  "pending_of s source = (case sourcePending s source of None \<Rightarrow> [] | Some i \<Rightarrow> i)"

definition Prepare :: "string \<Rightarrow> string \<Rightarrow> string \<Rightarrow> snapshot \<Rightarrow> bool \<Rightarrow> mem_store \<Rightarrow>
    (handoff_err + string) \<times> mem_store" where
  "Prepare rnd source target sn boundary s =
     (if \<not> boundary then (Inl HandBoundary, s)
      else case sessions s source of
        None \<Rightarrow> (Inl HandIdentity, s)
      | Some x \<Rightarrow>
          if Origin (Metadata sn) \<noteq> sOrigin x \<or> ID (Metadata sn) = [] \<or> Markdown sn = []
          then (Inl HandIdentity, s)
          else if \<not> available s target then (Inl HandUnavailable, s)
          else if target = Account x \<or> pending_of s source \<noteq> [] then (Inl HandConflict, s)
          else (Inr rnd, s\<lparr>reservations := (reservations s)(rnd \<mapsto>
                   \<lparr>mSource = sOrigin x, mTarget = target, mSnapshot = sn, mConsumedBy = []\<rparr>),
                 sourcePending := (sourcePending s)(source \<mapsto> rnd)\<rparr>))"

definition Bind :: "string \<Rightarrow> origin \<Rightarrow> bool \<Rightarrow> mem_store \<Rightarrow> (handoff_err + hsession) \<times> mem_store" where
  "Bind i o1 userInput s =
     (if \<not> userInput then (Inl HandInputRequired, s)
      else case reservations s i of
        None \<Rightarrow> (Inl HandIdentity, s)
      | Some r \<Rightarrow>
          if \<not> origin_complete o1 then (Inl HandIdentity, s)
          else if mConsumedBy r \<noteq> [] then (Inl HandConflict, s)
          else if sessions s (Session o1) \<noteq> None then (Inl HandConflict, s)
          else if Project o1 \<noteq> Project (mSource r) \<or> Worktree o1 \<noteq> Worktree (mSource r)
               \<or> Branch o1 \<noteq> Branch (mSource r) then (Inl HandIdentity, s)
          else if \<not> available s (mTarget r) then (Inl HandUnavailable, s)
          else let x = \<lparr>sOrigin = o1, Account = mTarget r, Wiki = Markdown (mSnapshot r)\<rparr>
               in (Inr x, s\<lparr>sessions := (sessions s)(Session o1 \<mapsto> x),
                     reservations := (reservations s)(i \<mapsto> r\<lparr>mConsumedBy := Session o1\<rparr>),
                     sourcePending := (sourcePending s)(Session (mSource r) := None)\<rparr>))"

definition mem_Session :: "string \<Rightarrow> mem_store \<Rightarrow> hsession option" where
  "mem_Session i s = sessions s i"

section \<open>Invariant\<close>

text \<open>Every session is filed under its own identifier, a pending mark names an unconsumed
  reservation of that source, and an unconsumed reservation is the pending one of its source.
  A fresh identifier (\<^verbatim>\<open>rand.Text\<close>) is not empty and not in use.\<close>

definition mem_inv :: "mem_store \<Rightarrow> bool" where
  "mem_inv s \<longleftrightarrow>
     (\<forall>i x. sessions s i = Some x \<longrightarrow> Session (sOrigin x) = i \<and> origin_complete (sOrigin x)) \<and>
     (\<forall>src i. sourcePending s src = Some i \<longrightarrow>
        i \<noteq> [] \<and> (\<exists>r. reservations s i = Some r \<and> mConsumedBy r = [] \<and> Session (mSource r) = src)) \<and>
     (\<forall>i r. reservations s i = Some r \<and> mConsumedBy r = [] \<longrightarrow>
        sourcePending s (Session (mSource r)) = Some i) \<and>
     length (accounts s) \<le> 2 \<and> distinct (map fst (accounts s))"

datatype mem_event =
  MSetAccount string bool
| MRegister origin string
| MPrepare string string string snapshot bool
| MBind string origin bool

fun mem_step :: "mem_event \<Rightarrow> mem_store \<Rightarrow> mem_store" where
  "mem_step (MSetAccount a b) s = snd (SetAccount a b s)"
| "mem_step (MRegister r a) s = snd (mem_Register r a s)"
| "mem_step (MPrepare i src t sn b) s = snd (Prepare i src t sn b s)"
| "mem_step (MBind i r u) s = snd (Bind i r u s)"

text \<open>The random identifier of a \<^verbatim>\<open>Prepare\<close> has not been used before.\<close>

fun mem_fresh :: "mem_store \<Rightarrow> mem_event \<Rightarrow> bool" where
  "mem_fresh s (MPrepare i src t sn b) = (i \<noteq> [] \<and> reservations s i = None)"
| "mem_fresh s _ = True"

inductive mem_run :: "mem_store \<Rightarrow> mem_store \<Rightarrow> bool" where
  refl: "mem_run s s"
| step: "mem_run s t \<Longrightarrow> mem_fresh t e \<Longrightarrow> mem_run s (mem_step e t)"

lemma new_store_inv: "mem_inv new_store"
  by (simp add: mem_inv_def new_store_def)

lemma length_alist_update:
  "length (AList.update k v xs) = (if map_of xs k = None then Suc (length xs) else length xs)"
  by (induction xs) auto

lemma SetAccount_inv: "mem_inv s \<Longrightarrow> mem_inv (snd (SetAccount a b s))"
  by (auto simp: mem_inv_def SetAccount_def length_alist_update distinct_update)

lemma Register_inv: "mem_inv s \<Longrightarrow> mem_inv (snd (mem_Register r a s))"
  by (simp add: mem_inv_def mem_Register_def Let_def)

lemma Prepare_inv:
  assumes "mem_inv s" and "i \<noteq> []" and "reservations s i = None"
  shows "mem_inv (snd (Prepare i src t sn b s))"
proof (cases "isl (fst (Prepare i src t sn b s))")
  case True
  then have "snd (Prepare i src t sn b s) = s"
    by (auto simp: Prepare_def split: option.splits if_splits)
  with assms(1) show ?thesis by simp
next
  case False
  then obtain x where x: "sessions s src = Some x" and np: "pending_of s src = []" and
    s': "snd (Prepare i src t sn b s) = s\<lparr>reservations := (reservations s)(i \<mapsto>
       \<lparr>mSource = sOrigin x, mTarget = t, mSnapshot = sn, mConsumedBy = []\<rparr>),
       sourcePending := (sourcePending s)(src \<mapsto> i)\<rparr>"
    by (auto simp: Prepare_def split: option.splits if_splits)
  from assms(1) x have src: "Session (sOrigin x) = src" by (auto simp: mem_inv_def)
  from np assms(1) have "sourcePending s src = None"
    by (auto simp: pending_of_def mem_inv_def split: option.splits)
  then have none: "reservations s j = Some r \<Longrightarrow> mConsumedBy r = [] \<Longrightarrow> Session (mSource r) \<noteq> src" for j r
    using assms(1) by (force simp: mem_inv_def)
  have unused: "sourcePending s a \<noteq> Some i" for a
    using assms(1,3) by (force simp: mem_inv_def)
  show ?thesis
    using assms none src unused unfolding s' mem_inv_def by (auto split: if_splits)
qed

lemma mem_inv_pending:
  "mem_inv s \<Longrightarrow> sourcePending s src = Some i \<Longrightarrow>
    \<exists>r. reservations s i = Some r \<and> mConsumedBy r = [] \<and> Session (mSource r) = src"
  by (simp add: mem_inv_def)

lemma mem_inv_open:
  "mem_inv s \<Longrightarrow> reservations s i = Some r \<Longrightarrow> mConsumedBy r = [] \<Longrightarrow>
    sourcePending s (Session (mSource r)) = Some i"
  by (simp add: mem_inv_def)

lemma Bind_inv:
  assumes "mem_inv s"
  shows "mem_inv (snd (Bind i r u s))"
proof (cases "isl (fst (Bind i r u s))")
  case True
  then have "snd (Bind i r u s) = s"
    by (auto simp: Bind_def Let_def split: option.splits if_splits)
  with assms show ?thesis by simp
next
  case False
  then obtain v where v: "reservations s i = Some v" "mConsumedBy v = []" and c: "origin_complete r" and
    s': "snd (Bind i r u s) = s\<lparr>sessions := (sessions s)(Session r \<mapsto>
          \<lparr>sOrigin = r, Account = mTarget v, Wiki = Markdown (mSnapshot v)\<rparr>),
          reservations := (reservations s)(i \<mapsto> v\<lparr>mConsumedBy := Session r\<rparr>),
          sourcePending := (sourcePending s)(Session (mSource v) := None)\<rparr>"
    by (auto simp: Bind_def Let_def split: option.splits if_splits)
  have "sourcePending s src = Some i \<Longrightarrow> src = Session (mSource v)" for src
    using mem_inv_pending [OF assms] v(1) by fastforce
  moreover have "sourcePending s (Session (mSource v)) = Some i"
    using assms v by (simp add: mem_inv_def)
  ultimately have only: "sourcePending s src = Some i \<longleftrightarrow> src = Session (mSource v)" for src
    by blast
  have "ia = i" if "reservations s ia = Some ra" "mConsumedBy ra = []"
      "Session (mSource ra) = Session (mSource v)" for ia ra
    using mem_inv_open [OF assms that(1,2)] that(3) only [of "Session (mSource v)"] by simp
  moreover have "Session r \<noteq> []" using c by (simp add: origin_complete_def)
  ultimately show ?thesis
    using assms c only unfolding s' mem_inv_def by auto
qed

lemma mem_step_inv: "mem_inv s \<Longrightarrow> mem_fresh s e \<Longrightarrow> mem_inv (mem_step e s)"
  by (cases e) (simp_all add: SetAccount_inv Register_inv Prepare_inv Bind_inv)

lemma mem_run_inv: "mem_run s t \<Longrightarrow> mem_inv s \<Longrightarrow> mem_inv t"
  by (induction rule: mem_run.induct) (auto intro: mem_step_inv)

section \<open>Sessions never move, reservations are consumed once\<close>

lemma mem_step_session:
  "sessions s i = Some x \<Longrightarrow> sessions (mem_step e s) i = Some x"
  by (cases e) (auto simp: SetAccount_def mem_Register_def Prepare_def Bind_def Let_def
      split: option.splits)

lemma mem_step_consumed:
  "reservations s i = Some r \<Longrightarrow> mConsumedBy r \<noteq> [] \<Longrightarrow> mem_fresh s e \<Longrightarrow>
    reservations (mem_step e s) i = Some r"
  by (cases e) (auto simp: SetAccount_def mem_Register_def Prepare_def Bind_def Let_def
      split: option.splits)

lemma mem_run_consumed:
  "mem_run s t \<Longrightarrow> reservations s i = Some r \<Longrightarrow> mConsumedBy r \<noteq> [] \<Longrightarrow> reservations t i = Some r"
  by (induction rule: mem_run.induct) (auto intro: mem_step_consumed)

text \<open>The store keeps its word over any sequence of operations: once a reservation has been
  bound to a conversation, every later attempt to bind it (whatever the conversation and however
  many other operations came in between) is refused with the conflict error and changes nothing.
  Only an attempt that names no user input or an incomplete origin is refused earlier.\<close>

theorem reservation_bound_once:
  assumes "Bind i o1 u s = (Inr x, s')" and "mem_run s' t" and "origin_complete o2"
  shows "Bind i o2 True t = (Inl HandConflict, t)"
proof -
  from assms(1) obtain r where "reservations s' i = Some r" and "mConsumedBy r = Session o1"
    and "origin_complete o1"
    by (auto simp: Bind_def Let_def split: option.splits if_splits)
  then have "reservations t i = Some r" and "mConsumedBy r \<noteq> []"
    using mem_run_consumed [OF assms(2)] by (auto simp: origin_complete_def)
  with assms(3) show ?thesis by (simp add: Bind_def)
qed

definition sample_source :: origin where
  "sample_source = \<lparr>Project = ''p'', Worktree = ''w'', Branch = ''b'', Session = ''s''\<rparr>"

definition sample_next :: origin where
  "sample_next = \<lparr>Project = ''p'', Worktree = ''w'', Branch = ''b'', Session = ''n''\<rparr>"

definition sample_snap :: snapshot where
  "sample_snap = \<lparr>Metadata = \<lparr>ID = ''k'', Origin = sample_source\<rparr>, Markdown = ''text'',
     SHA256 = ''h'', ValidatedAt = 0\<rparr>"

text \<open>A session on the first of two available accounts.\<close>

definition sample_store :: mem_store where
  "sample_store = foldl (\<lambda>s e. mem_step e s) new_store
     [MSetAccount ''one'' True, MSetAccount ''two'' True, MRegister sample_source ''one'']"

definition sample_prepared :: "(handoff_err + string) \<times> mem_store" where
  "sample_prepared = Prepare ''r'' ''s'' ''two'' sample_snap True sample_store"

definition sample_bound :: "(handoff_err + hsession) \<times> mem_store" where
  "sample_bound = Bind ''r'' sample_next True (snd sample_prepared)"

lemmas sample_store_defs = sample_source_def sample_next_def sample_snap_def sample_store_def
  sample_prepared_def sample_bound_def new_store_def SetAccount_def mem_Register_def Prepare_def
  Bind_def available_def pending_of_def origin_complete_def Let_def

theorem reservation_bound_once_witness:
  "is_ok (fst sample_bound) \<and> Bind ''r'' sample_source True (snd sample_bound) = (Inl HandConflict, snd sample_bound)"
proof -
  have "is_ok (fst sample_bound)" and "origin_complete sample_source"
    by (simp_all add: sample_store_defs)
  moreover from this obtain x where "Bind ''r'' sample_next True (snd sample_prepared) = (Inr x, snd sample_bound)"
    unfolding sample_bound_def by (metis isl_def prod.collapse sum.collapse(2))
  ultimately show ?thesis
    using reservation_bound_once [OF _ mem_run.refl] by blast
qed

lemma mem_run_session: "mem_run s t \<Longrightarrow> sessions s i = Some x \<Longrightarrow> sessions t i = Some x"
  by (induction rule: mem_run.induct) (auto intro: mem_step_session)

lemma Bind_result:
  assumes "Bind i o1 u s = (Inr x, s')"
  shows "\<exists>r. reservations s i = Some r \<and> Account x = mTarget r \<and> Wiki x = Markdown (mSnapshot r)
    \<and> sessions s' (Session o1) = Some x \<and> sOrigin x = o1"
  using assms by (auto simp: Bind_def Let_def split: option.splits if_splits)

lemma mem_step_reserved:
  assumes "reservations s i = Some r" and "mem_fresh s e"
  shows "\<exists>c. reservations (mem_step e s) i = Some (r\<lparr>mConsumedBy := c\<rparr>)"
proof (cases "reservations (mem_step e s) i = Some r")
  case True
  then show ?thesis by (intro exI [of _ "mConsumedBy r"]) simp
next
  case False
  with assms show ?thesis
    by (cases e) (auto simp: SetAccount_def mem_Register_def Prepare_def Bind_def Let_def
        split: option.splits if_splits)
qed

lemma mem_run_reserved:
  "mem_run s t \<Longrightarrow> reservations s i = Some r \<Longrightarrow>
    \<exists>c. reservations t i = Some (r\<lparr>mConsumedBy := c\<rparr>)"
proof (induction rule: mem_run.induct)
  case (refl s)
  then show ?case by (intro exI [of _ "mConsumedBy r"]) simp
next
  case (step s t e)
  then obtain c where "reservations t i = Some (r\<lparr>mConsumedBy := c\<rparr>)" by blast
  from mem_step_reserved [OF this step.hyps(2)] show ?case by simp
qed

text \<open>A handoff delivers exactly what was prepared: if a reservation was prepared from a
  source session to a target account, and after any sequence of operations a conversation binds
  it, then that conversation runs on the prepared target account, carries the prepared checkpoint
  text, is recorded in the store under its own identifier, and stays so (account and text
  unchanged) over every later sequence of operations.\<close>

theorem handoff_delivers_checkpoint:
  assumes "Prepare i src target sn b s = (Inr j, s1)" and "mem_run s1 s2"
    and "Bind j o1 u s2 = (Inr x, s3)" and "mem_run s3 s4"
  shows "mem_Session (Session o1) s4 = Some \<lparr>sOrigin = o1, Account = target, Wiki = Markdown sn\<rparr>"
proof -
  from assms(1) obtain r where "reservations s1 j = Some r" and r: "mTarget r = target" "mSnapshot r = sn"
    by (auto simp: Prepare_def split: option.splits if_splits)
  then obtain c where "reservations s2 j = Some (r\<lparr>mConsumedBy := c\<rparr>)"
    using mem_run_reserved [OF assms(2)] by blast
  with Bind_result [OF assms(3)] r have "sessions s3 (Session o1) = Some x" and
    "x = \<lparr>sOrigin = o1, Account = target, Wiki = Markdown sn\<rparr>"
    by auto
  with mem_run_session [OF assms(4)] show ?thesis by (simp add: mem_Session_def)
qed

theorem handoff_delivers_checkpoint_witness:
  "mem_Session ''n'' (snd sample_bound) = Some \<lparr>sOrigin = sample_next, Account = ''two'', Wiki = ''text''\<rparr>"
proof -
  have "sample_prepared = (Inr ''r'', snd sample_prepared)"
    and "sample_bound = (Inr \<lparr>sOrigin = sample_next, Account = ''two'', Wiki = ''text''\<rparr>, snd sample_bound)"
    by (simp_all add: sample_store_defs)
  then show ?thesis
    using handoff_delivers_checkpoint [OF _ mem_run.refl _ mem_run.refl,
        of "''r''" "''s''" "''two''" sample_snap True sample_store "''r''" "snd sample_prepared" sample_next True]
    by (simp add: sample_prepared_def sample_bound_def) (simp add: sample_next_def sample_snap_def)
qed

end
