(* ===== verification/Accountslot.thy ===== *)
theory Accountslot
  imports Prelude
begin

text \<open>
  Package \<^verbatim>\<open>accountslot\<close>: the five stable local positions for accounts. The lemmas say that
  the three views of a slot (membership in \<open>slot_all\<close>, the validity test and the index) agree.
\<close>

definition Capacity :: nat where "Capacity = 5"

definition slot_all :: "string list" where
  "slot_all = [''a'', ''b'', ''c'', ''d'', ''e'']"

definition slot_valid :: "string \<Rightarrow> bool" where
  "slot_valid slot \<longleftrightarrow> length slot = 1 \<and> 97 \<le> byte (slot ! 0) \<and> byte (slot ! 0) \<le> 101"

definition slot_index :: "string \<Rightarrow> int" where
  "slot_index slot = (if \<not> slot_valid slot then - 1 else int (byte (slot ! 0)) - 97)"

lemma of_char_eq: "(of_char c :: nat) = k \<Longrightarrow> k < 256 \<Longrightarrow> c = char_of k"
  by auto

lemma slot_valid_iff: "slot_valid slot \<longleftrightarrow> slot \<in> set slot_all"
proof
  assume v: "slot_valid slot"
  then obtain c where c: "slot = [c]"
    by (auto simp: slot_valid_def length_Suc_conv)
  with v have "97 \<le> byte c" "byte c \<le> 101" by (simp_all add: slot_valid_def)
  then have "byte c = 97 \<or> byte c = 98 \<or> byte c = 99 \<or> byte c = 100 \<or> byte c = 101" by linarith
  then show "slot \<in> set slot_all"
    by (auto simp: c slot_all_def char_of_def bit_Suc_0_iff dest!: of_char_eq)
qed (auto simp: slot_all_def slot_valid_def)

lemma slot_valid_cases:
  "slot_valid slot \<Longrightarrow>
    slot = ''a'' \<or> slot = ''b'' \<or> slot = ''c'' \<or> slot = ''d'' \<or> slot = ''e''"
  by (simp add: slot_valid_iff slot_all_def)

lemma slot_all_valid [simp]:
  "slot_valid ''a''" "slot_valid ''b''" "slot_valid ''c''" "slot_valid ''d''" "slot_valid ''e''"
  by (simp_all add: slot_valid_iff slot_all_def)

lemma slot_valid_Nil [simp]: "\<not> slot_valid []"
  by (simp add: slot_valid_def)

lemma slot_index_nth:
  assumes "slot_valid slot"
  shows "slot_all ! nat (slot_index slot) = slot"
  using slot_valid_cases [OF assms] by (auto simp: slot_index_def slot_all_def)

lemma slot_index_range:
  assumes "slot_valid slot"
  shows "0 \<le> slot_index slot \<and> slot_index slot < int Capacity"
  using slot_valid_cases [OF assms] by (auto simp: slot_index_def Capacity_def)

lemma slot_all_length [simp]: "length slot_all = Capacity" "distinct slot_all"
  by (simp_all add: slot_all_def Capacity_def)

lemma slot_index_of_nth:
  "i < Capacity \<Longrightarrow> slot_index (slot_all ! i) = int i"
  by (auto simp: Capacity_def less_Suc_eq numeral_eq_Suc slot_index_def slot_all_def)

end
