(* ===== verification/Affinity_Sql.thy ===== *)
theory Affinity_Sql
  imports Checkpoint Accountslot
begin

text \<open>
  The relational side of package \<^verbatim>\<open>affinity\<close>. The SQL database is a library: the code only hands
  it the statements below, one constructor per statement text of the source. \<open>sql_sem\<close> is what the
  documented semantics of SQL gives for each statement on the tables the code creates (primary
  keys, CHECK lists, the partial unique index, foreign keys with ON DELETE CASCADE). The database
  itself is the parameter of the locale \<open>sql_engine\<close>: any connection whose successful calls have
  this meaning and whose failing calls change nothing or roll the open transaction back. The
  reference connection \<open>pure_query\<close> and a connection that fails on schedule interpret it.
\<close>

section \<open>Tables\<close>

record session_row =
  r_id :: string
  r_project :: string
  r_worktree :: string
  r_branch :: string
  r_slot :: string
  r_last_seen :: int
  r_state :: string
  r_request :: string

record response_row =
  p_id :: string
  p_session :: string

record handoff_row =
  h_id :: string
  h_source :: string
  h_target :: string
  h_checkpoint :: string
  h_digest :: string
  h_consumed_by :: string
  h_created :: int

text \<open>The catalog lists the tables and indexes that exist. \<open>session_check\<close> and \<open>handoff_check\<close> are
  the slot lists of the CHECK constraints: older schema versions admitted fewer slots.\<close>

record tables =
  user_version :: nat
  catalog :: "string list"
  session_rows :: "session_row list"
  response_rows :: "response_row list"
  handoff_rows :: "handoff_row list"
  session_check :: "string list"
  handoff_check :: "string list"
  session_copy :: "session_row list" \<comment> \<open>table \<^verbatim>\<open>sessions_v3\<close>\<close>
  handoff_copy :: "handoff_row list" \<comment> \<open>table \<^verbatim>\<open>handoffs_v3\<close>\<close>

definition empty_tables :: tables where
  "empty_tables = \<lparr>user_version = 0, catalog = [], session_rows = [], response_rows = [],
     handoff_rows = [], session_check = slot_all, handoff_check = slot_all,
     session_copy = [], handoff_copy = []\<rparr>"

section \<open>Statements\<close>

datatype stmt =
  BeginImmediate | Commit | Rollback
| PragmaForeignKeys bool | PragmaJournalDelete | PragmaSynchronousFull
| SelUserVersion | SetUserVersion3 | ForeignKeyCheck
| CreateSessions | CreateResponses | CreateLastSeenIndex bool
| CreateHandoffs | CreatePendingIndex bool
| BlockInflight
| CreateSessionsV3 | CopySessions | CreateHandoffsV3 | CopyHandoffs
| DropHandoffs | DropSessions | RenameSessions | RenameHandoffs
| SelSessionId string
| InsSession string string string string string int
| SelSession string
| SelPending string
| SelResponse string
| InsResponse string string
| UpdInflight string int string
| UpdState string int string
| DelIdleBefore int
| InsHandoff string string string string string int
| SelHandoff string
| BlockSlot string
| DelPendingSlot string
| SelHandoffOf string string
| DelHandoff string
| UpdConsumed string string

text \<open>\<^verbatim>\<open>C.CString\<close> and \<^verbatim>\<open>sqlite3_bind_text\<close> with length -1: the bound text ends at the first NUL.\<close>

definition c_string :: "string \<Rightarrow> string" where
  "c_string s = takeWhile (\<lambda>c. c \<noteq> NUL) s"

fun bind_args :: "stmt \<Rightarrow> stmt" where
  "bind_args (SelSessionId i) = SelSessionId (c_string i)"
| "bind_args (InsSession i p w b sl n) =
     InsSession (c_string i) (c_string p) (c_string w) (c_string b) (c_string sl) n"
| "bind_args (SelSession i) = SelSession (c_string i)"
| "bind_args (SelPending i) = SelPending (c_string i)"
| "bind_args (SelResponse i) = SelResponse (c_string i)"
| "bind_args (InsResponse i s) = InsResponse (c_string i) (c_string s)"
| "bind_args (UpdInflight q n i) = UpdInflight (c_string q) n (c_string i)"
| "bind_args (UpdState st n i) = UpdState (c_string st) n (c_string i)"
| "bind_args (InsHandoff i s t c d n) =
     InsHandoff (c_string i) (c_string s) (c_string t) (c_string c) (c_string d) n"
| "bind_args (SelHandoff i) = SelHandoff (c_string i)"
| "bind_args (BlockSlot s) = BlockSlot (c_string s)"
| "bind_args (DelPendingSlot s) = DelPendingSlot (c_string s)"
| "bind_args (SelHandoffOf s c) = SelHandoffOf (c_string s) (c_string c)"
| "bind_args (DelHandoff i) = DelHandoff (c_string i)"
| "bind_args (UpdConsumed s i) = UpdConsumed (c_string s) (c_string i)"
| "bind_args st = st"

section \<open>Meaning of the statements\<close>

type_synonym rows = "string list list"

definition session_states :: "string list" where
  "session_states = [''ready'', ''inflight'', ''blocked'']"

definition add_catalog :: "string \<Rightarrow> tables \<Rightarrow> tables" where
  "add_catalog n t = t\<lparr>catalog := n # catalog t\<rparr>"

definition drop_catalog :: "string list \<Rightarrow> tables \<Rightarrow> tables" where
  "drop_catalog ns t = t\<lparr>catalog := filter (\<lambda>n. n \<notin> set ns) (catalog t)\<rparr>"

text \<open>The partial unique index on the source of pending handoffs.\<close>

definition pending_sources :: "handoff_row list \<Rightarrow> string list" where
  "pending_sources hs = map h_source (filter (\<lambda>h. h_consumed_by h = []) hs)"

definition handoffs_admissible :: "tables \<Rightarrow> handoff_row list \<Rightarrow> bool" where
  "handoffs_admissible t hs \<longleftrightarrow> distinct (map h_id hs) \<and>
     (''handoffs_pending_source'' \<in> set (catalog t) \<longrightarrow> distinct (pending_sources hs)) \<and>
     (\<forall>h\<in>set hs. h_target h \<in> set (handoff_check t))"

definition dangling :: "tables \<Rightarrow> string list" where
  "dangling t =
     (let ids = map r_id (session_rows t)
      in filter (\<lambda>s. s \<notin> set ids) (map p_session (response_rows t) @ map h_source (handoff_rows t)))"

definition update_sessions :: "(session_row \<Rightarrow> bool) \<Rightarrow> (session_row \<Rightarrow> session_row) \<Rightarrow> tables \<Rightarrow> tables" where
  "update_sessions p f t =
     t\<lparr>session_rows := map (\<lambda>r. if p r then f r else r) (session_rows t)\<rparr>"

definition delete_sessions :: "(session_row \<Rightarrow> bool) \<Rightarrow> tables \<Rightarrow> tables" where
  "delete_sessions p t =
     (let kept = filter (\<lambda>r. \<not> p r) (session_rows t);
          gone = map r_id (filter p (session_rows t))
      in t\<lparr>session_rows := kept,
           response_rows := filter (\<lambda>x. p_session x \<notin> set gone) (response_rows t),
           handoff_rows := filter (\<lambda>h. h_source h \<notin> set gone) (handoff_rows t)\<rparr>)"

definition version_text :: "nat \<Rightarrow> string" where
  "version_text n = (if n < 10 then [char_of (48 + n)] else ''10'')"

text \<open>Schema statements.\<close>

fun ddl_sem :: "stmt \<Rightarrow> tables \<Rightarrow> (rows \<times> tables) option" where
  "ddl_sem SelUserVersion t = Some ([[version_text (user_version t)]], t)"
| "ddl_sem SetUserVersion3 t = Some ([], t\<lparr>user_version := 3\<rparr>)"
| "ddl_sem ForeignKeyCheck t = Some (map (\<lambda>s. [s]) (dangling t), t)"
| "ddl_sem CreateSessions t =
     Some ([], if ''sessions'' \<in> set (catalog t) then t
               else add_catalog ''sessions'' (t\<lparr>session_rows := [], session_check := slot_all\<rparr>))"
| "ddl_sem CreateResponses t =
     Some ([], if ''responses'' \<in> set (catalog t) then t
               else add_catalog ''responses'' (t\<lparr>response_rows := []\<rparr>))"
| "ddl_sem (CreateLastSeenIndex if_not_exists) t =
     (if ''sessions_last_seen'' \<in> set (catalog t)
      then (if if_not_exists then Some ([], t) else None)
      else Some ([], add_catalog ''sessions_last_seen'' t))"
| "ddl_sem CreateHandoffs t =
     Some ([], if ''handoffs'' \<in> set (catalog t) then t
               else add_catalog ''handoffs'' (t\<lparr>handoff_rows := [], handoff_check := slot_all\<rparr>))"
| "ddl_sem (CreatePendingIndex if_not_exists) t =
     (if ''handoffs_pending_source'' \<in> set (catalog t)
      then (if if_not_exists then Some ([], t) else None)
      else if distinct (pending_sources (handoff_rows t))
      then Some ([], add_catalog ''handoffs_pending_source'' t) else None)"
| "ddl_sem CreateSessionsV3 t =
     (if ''sessions_v3'' \<in> set (catalog t) then None
      else Some ([], add_catalog ''sessions_v3'' (t\<lparr>session_copy := []\<rparr>)))"
| "ddl_sem CopySessions t =
     (if (\<forall>r\<in>set (session_rows t). r_slot r \<in> set slot_all \<and> r_state r \<in> set session_states)
         \<and> distinct (map r_id (session_rows t))
      then Some ([], t\<lparr>session_copy := session_rows t\<rparr>) else None)"
| "ddl_sem CreateHandoffsV3 t =
     (if ''handoffs_v3'' \<in> set (catalog t) then None
      else Some ([], add_catalog ''handoffs_v3'' (t\<lparr>handoff_copy := []\<rparr>)))"
| "ddl_sem CopyHandoffs t =
     (if (\<forall>h\<in>set (handoff_rows t). h_target h \<in> set slot_all) \<and> distinct (map h_id (handoff_rows t))
      then Some ([], t\<lparr>handoff_copy := handoff_rows t\<rparr>) else None)"
| "ddl_sem DropHandoffs t =
     Some ([], drop_catalog [''handoffs'', ''handoffs_pending_source''] (t\<lparr>handoff_rows := []\<rparr>))"
| "ddl_sem DropSessions t =
     Some ([], drop_catalog [''sessions'', ''sessions_last_seen''] (t\<lparr>session_rows := []\<rparr>))"
| "ddl_sem RenameSessions t =
     Some ([], add_catalog ''sessions'' (drop_catalog [''sessions_v3'']
       (t\<lparr>session_rows := session_copy t, session_copy := [], session_check := slot_all\<rparr>)))"
| "ddl_sem RenameHandoffs t =
     Some ([], add_catalog ''handoffs'' (drop_catalog [''handoffs_v3'']
       (t\<lparr>handoff_rows := handoff_copy t, handoff_copy := [], handoff_check := slot_all\<rparr>)))"
| "ddl_sem _ t = Some ([], t)"

text \<open>Queries and updates. \<^verbatim>\<open>MAX(last_seen,?)\<close> compares an INTEGER with a bound TEXT: every text is
  greater than every integer and a function argument has no column affinity, so the result is
  the bound stamp, which the column turns into a number again.\<close>

fun sql_sem :: "stmt \<Rightarrow> tables \<Rightarrow> (rows \<times> tables) option" where
  "sql_sem (SelSessionId i) t =
     Some (map (\<lambda>r. [r_id r]) (filter (\<lambda>r. r_id r = i) (session_rows t)), t)"
| "sql_sem (InsSession i p w b sl n) t =
     (if i \<in> set (map r_id (session_rows t)) \<or> sl \<notin> set (session_check t) then None
      else Some ([], t\<lparr>session_rows := session_rows t @ [\<lparr>r_id = i, r_project = p, r_worktree = w,
        r_branch = b, r_slot = sl, r_last_seen = n, r_state = ''ready'', r_request = []\<rparr>]\<rparr>))"
| "sql_sem (SelSession i) t =
     Some (map (\<lambda>r. [r_project r, r_worktree r, r_branch r, r_slot r, r_state r, r_request r])
       (filter (\<lambda>r. r_id r = i) (session_rows t)), t)"
| "sql_sem (SelPending i) t =
     Some (map (\<lambda>h. [h_id h]) (filter (\<lambda>h. h_source h = i \<and> h_consumed_by h = []) (handoff_rows t)), t)"
| "sql_sem (SelResponse i) t =
     Some (map (\<lambda>x. [p_session x]) (filter (\<lambda>x. p_id x = i) (response_rows t)), t)"
| "sql_sem (InsResponse i s) t =
     (if i \<in> set (map p_id (response_rows t)) \<or> s \<notin> set (map r_id (session_rows t)) then None
      else Some ([], t\<lparr>response_rows := response_rows t @ [\<lparr>p_id = i, p_session = s\<rparr>]\<rparr>))"
| "sql_sem (UpdInflight q n i) t =
     Some ([], update_sessions (\<lambda>r. r_id r = i)
       (\<lambda>r. r\<lparr>r_state := ''inflight'', r_request := q, r_last_seen := n\<rparr>) t)"
| "sql_sem (UpdState st n i) t =
     (if st \<notin> set session_states \<and> i \<in> set (map r_id (session_rows t)) then None
      else Some ([], update_sessions (\<lambda>r. r_id r = i)
        (\<lambda>r. r\<lparr>r_state := st, r_request := [], r_last_seen := n\<rparr>) t))"
| "sql_sem BlockInflight t =
     Some ([], update_sessions (\<lambda>r. r_state r = ''inflight'') (\<lambda>r. r\<lparr>r_state := ''blocked'', r_request := []\<rparr>) t)"
| "sql_sem (DelIdleBefore n) t =
     Some ([], delete_sessions (\<lambda>r. r_state r \<noteq> ''inflight'' \<and> r_last_seen r < n) t)"
| "sql_sem (InsHandoff i s tg c d n) t =
     (let hs = handoff_rows t @ [\<lparr>h_id = i, h_source = s, h_target = tg, h_checkpoint = c,
             h_digest = d, h_consumed_by = [], h_created = n\<rparr>]
      in if handoffs_admissible t hs \<and> s \<in> set (map r_id (session_rows t))
         then Some ([], t\<lparr>handoff_rows := hs\<rparr>) else None)"
| "sql_sem (SelHandoff i) t =
     Some (map (\<lambda>h. [h_source h, h_target h, h_checkpoint h, h_digest h, h_consumed_by h])
       (filter (\<lambda>h. h_id h = i) (handoff_rows t)), t)"
| "sql_sem (BlockSlot sl) t =
     Some ([], update_sessions (\<lambda>r. r_slot r = sl) (\<lambda>r. r\<lparr>r_state := ''blocked'', r_request := []\<rparr>) t)"
| "sql_sem (DelPendingSlot sl) t =
     Some ([], t\<lparr>handoff_rows := filter (\<lambda>h. \<not> (h_consumed_by h = [] \<and>
        (h_target h = sl \<or> h_source h \<in> set (map r_id (filter (\<lambda>r. r_slot r = sl) (session_rows t))))))
        (handoff_rows t)\<rparr>)"
| "sql_sem (SelHandoffOf s c) t =
     Some (map (\<lambda>h. [h_id h]) (filter (\<lambda>h. h_source h = s \<and> h_checkpoint h = c) (handoff_rows t)), t)"
| "sql_sem (DelHandoff i) t =
     Some ([], t\<lparr>handoff_rows := filter (\<lambda>h. h_id h \<noteq> i) (handoff_rows t)\<rparr>)"
| "sql_sem (UpdConsumed s i) t =
     (let hs = map (\<lambda>h. if h_id h = i \<and> h_consumed_by h = [] then h\<lparr>h_consumed_by := s\<rparr> else h)
               (handoff_rows t)
      in if handoffs_admissible t hs then Some ([], t\<lparr>handoff_rows := hs\<rparr>) else None)"
| "sql_sem st t = ddl_sem st t"

section \<open>Connections\<close>

text \<open>A connection answers a statement with rows or the storage error. The reference connection
  keeps the tables a reader sees and, while a transaction is open, the tables it started from.\<close>

type_synonym 'db conn = "stmt \<Rightarrow> 'db \<Rightarrow> rows res \<times> 'db"

abbreviation storage :: go_err where "storage \<equiv> EAffinity AffStorage"

type_synonym pure_db = "tables \<times> tables option"

definition pure_exec :: "stmt \<Rightarrow> pure_db \<Rightarrow> rows res \<times> pure_db" where
  "pure_exec st db =
     (let (t, sv) = db in
      if st = BeginImmediate then
        (case sv of None \<Rightarrow> (Inr [], t, Some t) | Some t0 \<Rightarrow> (Inl storage, db))
      else if st = Commit then
        (case sv of None \<Rightarrow> (Inl storage, db) | Some t0 \<Rightarrow> (Inr [], t, None))
      else if st = Rollback then
        (case sv of None \<Rightarrow> (Inl storage, db) | Some t0 \<Rightarrow> (Inr [], t0, None))
      else
        (case sql_sem st t of None \<Rightarrow> (Inl storage, db) | Some (rs, t') \<Rightarrow> (Inr rs, t', sv)))"

definition pure_query :: "pure_db conn" where
  "pure_query st db = pure_exec (bind_args st) db"

definition undo :: "pure_db \<Rightarrow> pure_db" where
  "undo db = (case snd db of None \<Rightarrow> db | Some t0 \<Rightarrow> (t0, None))"

text \<open>What the code relies on. A call that succeeds has the meaning of the reference
  connection; a call that fails reports the storage error and leaves the database as it was or
  with the open transaction rolled back; after a ROLLBACK no transaction is open.\<close>

locale sql_engine =
  fixes query :: "'db conn" and view :: "'db \<Rightarrow> pure_db"
  assumes query_ok: "query st db = (Inr rs, db') \<Longrightarrow> pure_query st (view db) = (Inr rs, view db')"
    and query_fail: "query st db = (Inl e, db') \<Longrightarrow>
      e = storage \<and> (view db' = view db \<or> view db' = undo (view db))"
    and rollback_ends: "query Rollback db = (r, db') \<Longrightarrow> view db' = undo (view db)"

lemma pure_query_storage: "fst (pure_query st db) = Inl e \<Longrightarrow> e = storage"
  by (cases db) (auto simp: pure_query_def pure_exec_def split: option.splits if_splits)

lemma pure_query_fail: "pure_query st db = (Inl e, db') \<Longrightarrow> db' = db"
  by (cases db) (auto simp: pure_query_def pure_exec_def split: option.splits if_splits)

lemma pure_query_rollback: "snd (pure_query Rollback db) = undo db"
  by (cases db; cases "snd db") (auto simp: pure_query_def pure_exec_def undo_def)

interpretation pure: sql_engine pure_query "\<lambda>db. db"
proof
  show "e = storage \<and> (db' = db \<or> db' = undo db)" if "pure_query st db = (Inl e, db')" for st db e db'
    using that pure_query_fail [OF that] pure_query_storage [of st db e] by simp
  show "db' = undo db" if "pure_query Rollback db = (r, db')" for db r db'
    using that pure_query_rollback [of db] by simp
qed

text \<open>A connection whose calls fail on schedule: each call takes the next entry of a list;
  \<open>Some False\<close> makes it fail with nothing changed, \<open>Some True\<close> makes it fail and roll the open
  transaction back, as the library does when the disk is full.\<close>

type_synonym faulty_db = "bool option list \<times> pure_db"

definition faulty_query :: "faulty_db conn" where
  "faulty_query st db =
     (case db of (faults, p) \<Rightarrow>
       (case faults of
          Some rolled # fs \<Rightarrow>
            (Inl storage, fs, if rolled \<or> st = Rollback then undo p else p)
        | fs \<Rightarrow> (case pure_query st p of (r, p') \<Rightarrow> (r, tl fs, p'))))"

interpretation faulty: sql_engine faulty_query snd
proof
  fix st db rs db' assume "faulty_query st db = (Inr rs, db')"
  then show "pure_query st (snd db) = (Inr rs, snd db')"
    by (auto simp: faulty_query_def split: prod.splits list.splits option.splits)
next
  fix st db e db' assume "faulty_query st db = (Inl e, db')"
  then show "e = storage \<and> (snd db' = snd db \<or> snd db' = undo (snd db))"
    by (auto simp: faulty_query_def dest: pure_query_fail
        split: prod.splits list.splits option.splits if_splits)
      (metis fst_conv pure_query_storage)+
next
  fix db r db' assume "faulty_query Rollback db = (r, db')"
  then show "snd db' = undo (snd db)"
    using pure_query_rollback [of "snd db"]
    by (auto simp: faulty_query_def split: prod.splits list.splits option.splits)
qed

end
