(* ===== verification/Affinity.thy ===== *)
theory Affinity
  imports Affinity_Sql Handoff_Store
begin

text \<open>
  Package \<^verbatim>\<open>affinity\<close>: durable ownership of sessions, response identifiers and handoffs. Every
  operation is written over a connection (\<open>'db conn\<close>), in the order the code issues its
  statements, inside the same transactions. \<^verbatim>\<open>rand.Text()\<close> and the clock are arguments. A store is
  \<open>'db option\<close>: \<open>None\<close> after \<^verbatim>\<open>Close\<close>, as the code sets its handle to nil. The refinement
  lemmas reduce any connection that keeps the laws of \<open>sql_engine\<close> to the reference connection:
  an operation either has exactly the reference result or reports the storage error with the
  tables untouched.
\<close>

section \<open>Programs over a connection\<close>

type_synonym ('db, 'a) prog = "'db \<Rightarrow> 'a res \<times> 'db"

definition ret :: "'a \<Rightarrow> ('db, 'a) prog" where
  "ret x db = (Inr x, db)"

definition throw :: "go_err \<Rightarrow> ('db, 'a) prog" where
  "throw e db = (Inl e, db)"

definition bnd :: "('db, 'a) prog \<Rightarrow> ('a \<Rightarrow> ('db, 'b) prog) \<Rightarrow> ('db, 'b) prog" where
  "bnd m f db = (case m db of (Inl e, db1) \<Rightarrow> (Inl e, db1) | (Inr x, db1) \<Rightarrow> f x db1)"

text \<open>The deferred ROLLBACK runs on every way out; its own outcome is ignored.\<close>

definition transaction :: "'db conn \<Rightarrow> ('db, 'a) prog \<Rightarrow> ('db, 'a) prog" where
  "transaction q f db =
     (case q BeginImmediate db of
        (Inl e, db1) \<Rightarrow> (Inl e, db1)
      | (Inr _, db1) \<Rightarrow>
          (case bnd f (\<lambda>x. bnd (q Commit) (\<lambda>_. ret x)) db1 of
             (r, db2) \<Rightarrow> (r, snd (q Rollback db2))))"

type_synonym 'db store = "'db option"

text \<open>The test for a closed store.\<close>

definition on_store :: "('db, 'a) prog \<Rightarrow> 'db store \<Rightarrow> 'a res \<times> 'db store" where
  "on_store m s =
     (case s of None \<Rightarrow> (Inl storage, None) | Some db \<Rightarrow> (case m db of (r, db1) \<Rightarrow> (r, Some db1)))"

section \<open>Data\<close>

record lease =
  lSession :: hsession
  lRequest :: string

record reservation =
  rID :: string
  rSource :: origin
  rTarget :: string
  rCheckpointID :: string
  rDigest :: string
  rConsumedBy :: string

abbreviation Unknown :: go_err where "Unknown \<equiv> EAffinity AffUnknown"
abbreviation Conflict :: go_err where "Conflict \<equiv> EAffinity AffConflict"
abbreviation Blocked :: go_err where "Blocked \<equiv> EAffinity AffBlocked"

definition Retention :: int where "Retention = hours (14 * 24)"

definition aff_valid :: "string \<Rightarrow> bool" where
  "aff_valid v \<longleftrightarrow> v \<noteq> [] \<and> length v \<le> 4096 \<and> NUL \<notin> set v"

definition validOrigin :: "origin \<Rightarrow> bool" where
  "validOrigin o1 \<longleftrightarrow> aff_valid (Session o1) \<and> aff_valid (Project o1) \<and> aff_valid (Worktree o1)
     \<and> aff_valid (Branch o1)"

text \<open>The bound text is the decimal form of the Unix seconds; the column is an INTEGER.\<close>

definition stamp :: "time \<Rightarrow> int" where
  "stamp t = unix_seconds t"

section \<open>Opening and closing\<close>

fun query_all :: "'db conn \<Rightarrow> stmt list \<Rightarrow> ('db, unit) prog" where
  "query_all q [] = ret ()"
| "query_all q (st # sts) = bnd (q st) (\<lambda>_. query_all q sts)"

definition schema_stmts :: "stmt list" where
  "schema_stmts = [CreateSessions, CreateResponses, CreateLastSeenIndex True, CreateHandoffs,
     CreatePendingIndex True, BlockInflight]"

definition migrate_stmts :: "stmt list" where
  "migrate_stmts = [CreateSessionsV3, CopySessions, CreateHandoffsV3, CopyHandoffs, DropHandoffs,
     DropSessions, RenameSessions, RenameHandoffs, CreateLastSeenIndex False, CreatePendingIndex False]"

definition init_body :: "'db conn \<Rightarrow> string \<Rightarrow> ('db, unit) prog" where
  "init_body q version =
     bnd (query_all q schema_stmts) (\<lambda>_.
     bnd (if version = ''1'' \<or> version = ''2'' then query_all q migrate_stmts else ret ()) (\<lambda>_.
     bnd (q ForeignKeyCheck) (\<lambda>violations.
     if violations \<noteq> [] then throw storage
     else bnd (q SetUserVersion3) (\<lambda>_. ret ()))))"

definition initialize :: "'db conn \<Rightarrow> ('db, unit) prog" where
  "initialize q =
     bnd (query_all q [PragmaForeignKeys True, PragmaJournalDelete, PragmaSynchronousFull]) (\<lambda>_.
     bnd (q SelUserVersion) (\<lambda>rows.
     case rows of
       [[v]] \<Rightarrow>
         if v \<noteq> ''0'' \<and> v \<noteq> ''1'' \<and> v \<noteq> ''2'' \<and> v \<noteq> ''3'' then throw storage
         else bnd (q (PragmaForeignKeys False)) (\<lambda>_ db.
           case transaction q (init_body q v) db of (result, db1) \<Rightarrow>
             (case q (PragmaForeignKeys True) db1 of (r2, db2) \<Rightarrow>
                (if isl r2 \<and> is_ok result then Inl storage else result, db2)))
     | _ \<Rightarrow> throw storage))"

text \<open>\<^verbatim>\<open>Open\<close> after the directory lock was acquired and the database file opened (\<open>None\<close> stands for
  either failing).\<close>

definition Open :: "'db conn \<Rightarrow> 'db option \<Rightarrow> unit res \<times> 'db store" where
  "Open q opened =
     (case opened of None \<Rightarrow> (Inl storage, None)
      | Some db \<Rightarrow> (case initialize q db of
          (Inl e, _) \<Rightarrow> (Inl e, None) | (Inr _, db1) \<Rightarrow> (Inr (), Some db1)))"

definition Close :: "bool \<Rightarrow> bool \<Rightarrow> 'db store \<Rightarrow> unit res \<times> 'db store" where
  "Close db_closes lock_closes s =
     (case s of None \<Rightarrow> (Inr (), None)
      | Some _ \<Rightarrow> (if db_closes \<and> lock_closes then Inr () else Inl storage, None))"

section \<open>Sessions and responses\<close>

text \<open>A row of \<^verbatim>\<open>SELECT\<close> has as many columns as the statement names.\<close>

definition lookup :: "'db conn \<Rightarrow> string \<Rightarrow> ('db, hsession \<times> string \<times> string) prog" where
  "lookup q i =
     bnd (q (SelSession i)) (\<lambda>rows.
     case rows of
       [[p, w, b, sl, st, rq]] \<Rightarrow>
         ret (\<lparr>sOrigin = \<lparr>Project = p, Worktree = w, Branch = b, Session = i\<rparr>, Account = sl, Wiki = []\<rparr>,
              st, rq)
     | _ \<Rightarrow> throw Unknown)"

definition register_body :: "'db conn \<Rightarrow> origin \<Rightarrow> string \<Rightarrow> time \<Rightarrow> ('db, unit) prog" where
  "register_body q o1 slot now =
     bnd (q (SelSessionId (Session o1))) (\<lambda>rows.
     if rows \<noteq> [] then throw Conflict
     else bnd (q (InsSession (Session o1) (Project o1) (Worktree o1) (Branch o1) slot (stamp now)))
       (\<lambda>_. ret ()))"

definition Register :: "'db conn \<Rightarrow> origin \<Rightarrow> string \<Rightarrow> time \<Rightarrow> 'db store \<Rightarrow> hsession res \<times> 'db store" where
  "Register q o1 slot now s =
     (if \<not> validOrigin o1 \<or> \<not> slot_valid slot then (Inl Conflict, s)
      else on_store (bnd (transaction q (register_body q o1 slot now))
        (\<lambda>_. ret \<lparr>sOrigin = o1, Account = slot, Wiki = []\<rparr>)) s)"

definition Lookup :: "'db conn \<Rightarrow> string \<Rightarrow> 'db store \<Rightarrow> hsession res \<times> 'db store" where
  "Lookup q i = on_store (bnd (lookup q i) (\<lambda>(x, _, _). ret x))"

definition ready_body :: "'db conn \<Rightarrow> origin \<Rightarrow> ('db, hsession) prog" where
  "ready_body q o1 =
     bnd (lookup q (Session o1)) (\<lambda>(x, st, _).
     if sOrigin x \<noteq> o1 then throw Unknown
     else if st \<noteq> ''ready'' then throw Blocked
     else bnd (q (SelPending (Session o1))) (\<lambda>rows.
       if rows \<noteq> [] then throw Blocked else ret x))"

definition Ready :: "'db conn \<Rightarrow> origin \<Rightarrow> 'db store \<Rightarrow> unit res \<times> 'db store" where
  "Ready q o1 = on_store (bnd (ready_body q o1) (\<lambda>_. ret ()))"

definition historyScope :: "string \<Rightarrow> string \<Rightarrow> string" where
  "historyScope i session =
     (if has_prefix ''history:'' i
      then ''history:'' @ sha256_hex session @ '':'' @ trim_prefix ''history:'' i else i)"

fun check_refs :: "'db conn \<Rightarrow> string \<Rightarrow> string list \<Rightarrow> ('db, unit) prog" where
  "check_refs q session [] = ret ()"
| "check_refs q session (i # ids) =
     (if \<not> aff_valid i then throw Unknown
      else bnd (q (SelResponse (historyScope i session))) (\<lambda>rows.
        case rows of
          [row] \<Rightarrow> if row \<noteq> [session] then throw Unknown else check_refs q session ids
        | _ \<Rightarrow> throw Unknown))"

text \<open>The loops of \<^verbatim>\<open>BeginWithInputs\<close> over the new inputs and of \<^verbatim>\<open>Finish\<close> over the produced
  identifiers differ in the scoping and in the error only.\<close>

fun claim_ids :: "'db conn \<Rightarrow> (string \<Rightarrow> string) \<Rightarrow> go_err \<Rightarrow> string \<Rightarrow> string list \<Rightarrow> ('db, unit) prog" where
  "claim_ids q scope e session [] = ret ()"
| "claim_ids q scope e session (i # ids) =
     (if \<not> aff_valid i then throw e
      else bnd (q (SelResponse (scope i))) (\<lambda>rows.
        case rows of
          row # _ \<Rightarrow> if row \<noteq> [session] then throw e else claim_ids q scope e session ids
        | [] \<Rightarrow> bnd (q (InsResponse (scope i) session)) (\<lambda>_. claim_ids q scope e session ids)))"

definition begin_body :: "'db conn \<Rightarrow> origin \<Rightarrow> string list \<Rightarrow> string list \<Rightarrow> string \<Rightarrow> time \<Rightarrow>
    ('db, lease) prog" where
  "begin_body q o1 refs inputs rnd now =
     bnd (ready_body q o1) (\<lambda>x.
     bnd (check_refs q (Session o1) refs) (\<lambda>_.
     bnd (claim_ids q (\<lambda>i. i) Unknown (Session o1) inputs) (\<lambda>_.
     bnd (q (UpdInflight rnd (stamp now) (Session o1))) (\<lambda>_.
     ret \<lparr>lSession = x, lRequest = rnd\<rparr>))))"

definition BeginWithInputs :: "'db conn \<Rightarrow> origin \<Rightarrow> string list \<Rightarrow> string list \<Rightarrow> string \<Rightarrow> time \<Rightarrow>
    'db store \<Rightarrow> lease res \<times> 'db store" where
  "BeginWithInputs q o1 refs inputs rnd now = on_store (transaction q (begin_body q o1 refs inputs rnd now))"

definition Begin :: "'db conn \<Rightarrow> origin \<Rightarrow> string list \<Rightarrow> string \<Rightarrow> time \<Rightarrow> 'db store \<Rightarrow> lease res \<times> 'db store" where
  "Begin q o1 refs rnd now = BeginWithInputs q o1 refs [] rnd now"

definition finish_body :: "'db conn \<Rightarrow> lease \<Rightarrow> string list \<Rightarrow> bool \<Rightarrow> time \<Rightarrow> ('db, unit) prog" where
  "finish_body q l ids success now =
     bnd (lookup q (Session (sOrigin (lSession l)))) (\<lambda>(x, st, rq).
     if st \<noteq> ''inflight'' \<or> rq \<noteq> lRequest l \<or> x \<noteq> lSession l then throw Conflict
     else let me = Session (sOrigin x) in
       bnd (if success then claim_ids q (\<lambda>i. historyScope i me) Conflict me ids else ret ()) (\<lambda>_.
       bnd (q (UpdState (if success then ''ready'' else ''blocked'') (stamp now) me)) (\<lambda>_. ret ())))"

definition Finish :: "'db conn \<Rightarrow> lease \<Rightarrow> string list \<Rightarrow> bool \<Rightarrow> time \<Rightarrow> 'db store \<Rightarrow> unit res \<times> 'db store" where
  "Finish q l ids success now = on_store (transaction q (finish_body q l ids success now))"

definition GC :: "'db conn \<Rightarrow> time \<Rightarrow> 'db store \<Rightarrow> unit res \<times> 'db store" where
  "GC q now = on_store (transaction q (bnd (q (DelIdleBefore (stamp (now - Retention)))) (\<lambda>_. ret ())))"

section \<open>Handoffs\<close>

definition validDigest :: "string \<Rightarrow> bool" where
  "validDigest d \<longleftrightarrow> hex_of_len 32 d"

definition prepare_body :: "'db conn \<Rightarrow> reservation \<Rightarrow> time \<Rightarrow> ('db, unit) prog" where
  "prepare_body q r now =
     bnd (lookup q (Session (rSource r))) (\<lambda>(x, st, _).
     if sOrigin x \<noteq> rSource r \<or> Account x = rTarget r then throw Conflict
     else if st \<noteq> ''ready'' then throw Blocked
     else bnd (q (SelPending (Session (rSource r)))) (\<lambda>rows.
       if rows \<noteq> [] then throw Conflict
       else bnd (q (InsHandoff (rID r) (Session (rSource r)) (rTarget r) (rCheckpointID r) (rDigest r)
          (stamp now))) (\<lambda>_. ret ())))"

definition PrepareHandoff :: "'db conn \<Rightarrow> string \<Rightarrow> origin \<Rightarrow> string \<Rightarrow> string \<Rightarrow> string \<Rightarrow> bool \<Rightarrow> time \<Rightarrow>
    'db store \<Rightarrow> reservation res \<times> 'db store" where
  "PrepareHandoff q rnd source target checkpointID digest boundary now s =
     (if \<not> boundary then (Inl (EHandoff HandBoundary), s)
      else if \<not> validOrigin source \<or> \<not> aff_valid checkpointID \<or> \<not> validDigest digest \<or> \<not> slot_valid target
      then (Inl Conflict, s)
      else let r = \<lparr>rID = rnd, rSource = source, rTarget = target, rCheckpointID = checkpointID,
                    rDigest = digest, rConsumedBy = []\<rparr>
           in on_store (bnd (transaction q (prepare_body q r now)) (\<lambda>_. ret r)) s)"

definition find_reservation :: "'db conn \<Rightarrow> string \<Rightarrow> ('db, reservation) prog" where
  "find_reservation q i =
     bnd (q (SelHandoff i)) (\<lambda>rows.
     case rows of
       [[source, target, cp, digest, consumed]] \<Rightarrow>
         bnd (lookup q source) (\<lambda>(x, _, _).
         ret \<lparr>rID = i, rSource = sOrigin x, rTarget = target, rCheckpointID = cp, rDigest = digest,
              rConsumedBy = consumed\<rparr>)
     | _ \<Rightarrow> throw Unknown)"

definition Handoff :: "'db conn \<Rightarrow> string \<Rightarrow> 'db store \<Rightarrow> reservation res \<times> 'db store" where
  "Handoff q i = on_store (find_reservation q i)"

definition InvalidateSlot :: "'db conn \<Rightarrow> string \<Rightarrow> 'db store \<Rightarrow> unit res \<times> 'db store" where
  "InvalidateSlot q slot s =
     (if \<not> slot_valid slot then (Inl Conflict, s)
      else on_store (transaction q (query_all q [BlockSlot slot, DelPendingSlot slot])) s)"

definition FindHandoff :: "'db conn \<Rightarrow> origin \<Rightarrow> string \<Rightarrow> 'db store \<Rightarrow> reservation option res \<times> 'db store" where
  "FindHandoff q source checkpointID =
     on_store (if \<not> validOrigin source \<or> \<not> aff_valid checkpointID then throw Conflict
       else bnd (q (SelHandoffOf (Session source) checkpointID)) (\<lambda>rows.
         case rows of
           [] \<Rightarrow> ret None
         | [[i]] \<Rightarrow> bnd (find_reservation q i) (\<lambda>r.
             if rSource r \<noteq> source then throw Conflict else ret (Some r))
         | _ \<Rightarrow> throw Conflict))"

definition CheckpointReserved :: "'db conn \<Rightarrow> string \<Rightarrow> string \<Rightarrow> 'db store \<Rightarrow> bool res \<times> 'db store" where
  "CheckpointReserved q source checkpointID =
     on_store (bnd (q (SelHandoffOf source checkpointID)) (\<lambda>rows. ret (rows \<noteq> [])))"

definition cancel_body :: "'db conn \<Rightarrow> string \<Rightarrow> origin \<Rightarrow> ('db, unit) prog" where
  "cancel_body q i source =
     bnd (find_reservation q i) (\<lambda>r.
     if rSource r \<noteq> source \<or> rConsumedBy r \<noteq> [] then throw Conflict
     else bnd (q (DelHandoff i)) (\<lambda>_. ret ()))"

definition CancelHandoff :: "'db conn \<Rightarrow> string \<Rightarrow> origin \<Rightarrow> 'db store \<Rightarrow> unit res \<times> 'db store" where
  "CancelHandoff q i source = on_store (transaction q (cancel_body q i source))"

definition bind_body :: "'db conn \<Rightarrow> string \<Rightarrow> origin \<Rightarrow> time \<Rightarrow> ('db, hsession) prog" where
  "bind_body q i o1 now =
     bnd (find_reservation q i) (\<lambda>r.
     if rConsumedBy r \<noteq> [] \<or> Session o1 = Session (rSource r) \<or> Project o1 \<noteq> Project (rSource r)
        \<or> Worktree o1 \<noteq> Worktree (rSource r) \<or> Branch o1 \<noteq> Branch (rSource r) then throw Conflict
     else bnd (lookup q (Session (rSource r))) (\<lambda>(_, st, _).
       if st \<noteq> ''ready'' then throw Blocked
       else bnd (q (SelSessionId (Session o1))) (\<lambda>rows.
         if rows \<noteq> [] then throw Conflict
         else bnd (q (InsSession (Session o1) (Project o1) (Worktree o1) (Branch o1) (rTarget r) (stamp now))) (\<lambda>_.
           bnd (q (UpdConsumed (Session o1) i)) (\<lambda>_.
           ret \<lparr>sOrigin = o1, Account = rTarget r, Wiki = []\<rparr>)))))"

definition BindHandoff :: "'db conn \<Rightarrow> string \<Rightarrow> origin \<Rightarrow> bool \<Rightarrow> time \<Rightarrow> 'db store \<Rightarrow> hsession res \<times> 'db store" where
  "BindHandoff q i o1 userInput now s =
     (if \<not> userInput then (Inl (EHandoff HandInputRequired), s)
      else if \<not> validOrigin o1 then (Inl Conflict, s)
      else on_store (transaction q (bind_body q i o1 now)) s)"

end
