(* ===== verification/Affinity_Refine.thy ===== *)
theory Affinity_Refine
  imports Affinity
begin

text \<open>
  Every operation of the affinity store over any connection that keeps the laws of \<open>sql_engine\<close>
  behaves like the same operation over the reference connection, or reports the storage error
  and leaves the tables as they were. The proof is compositional: \<open>follows\<close> relates a program to
  its reference, and each combinator has one rule.
\<close>

named_theorems follow_rules \<open>compositional rules for following programs\<close>

section \<open>Operations as events\<close>

datatype aff_event =
  ERegister origin string time
| ELookup string
| EReady origin
| EBegin origin "string list" "string list" string time
| EFinish lease "string list" bool time
| EGC time
| EPrepare string origin string string string bool time
| EHandoffOf string
| EInvalidate string
| EFind origin string
| EReserved string string
| ECancel string origin
| EBind string origin bool time

datatype aff_value =
  VUnit | VSession hsession | VLease lease | VReservation reservation
| VFound "reservation option" | VBool bool

definition val :: "('a \<Rightarrow> aff_value) \<Rightarrow> 'a res \<times> 'db store \<Rightarrow> aff_value res \<times> 'db store" where
  "val f = map_prod (map_sum (\<lambda>e. e) f) (\<lambda>s. s)"

fun aff_exec :: "'db conn \<Rightarrow> aff_event \<Rightarrow> 'db store \<Rightarrow> aff_value res \<times> 'db store" where
  "aff_exec q (ERegister o1 sl now) s = val VSession (Register q o1 sl now s)"
| "aff_exec q (ELookup i) s = val VSession (Lookup q i s)"
| "aff_exec q (EReady o1) s = val (\<lambda>_. VUnit) (Ready q o1 s)"
| "aff_exec q (EBegin o1 refs inputs rnd now) s = val VLease (BeginWithInputs q o1 refs inputs rnd now s)"
| "aff_exec q (EFinish l ids ok now) s = val (\<lambda>_. VUnit) (Finish q l ids ok now s)"
| "aff_exec q (EGC now) s = val (\<lambda>_. VUnit) (GC q now s)"
| "aff_exec q (EPrepare rnd src tg cp dg b now) s =
     val VReservation (PrepareHandoff q rnd src tg cp dg b now s)"
| "aff_exec q (EHandoffOf i) s = val VReservation (Handoff q i s)"
| "aff_exec q (EInvalidate sl) s = val (\<lambda>_. VUnit) (InvalidateSlot q sl s)"
| "aff_exec q (EFind src cp) s = val VFound (FindHandoff q src cp s)"
| "aff_exec q (EReserved src cp) s = val VBool (CheckpointReserved q src cp s)"
| "aff_exec q (ECancel i src) s = val (\<lambda>_. VUnit) (CancelHandoff q i src s)"
| "aff_exec q (EBind i o1 u now) s = val VSession (BindHandoff q i o1 u now s)"

section \<open>Following\<close>

text \<open>\<open>tidy\<close>: a reference program keeps the start of the open transaction, and outside a
  transaction a read-only one (\<open>ro\<close>) changes nothing.\<close>

definition tidy :: "bool \<Rightarrow> (pure_db, 'a) prog \<Rightarrow> bool" where
  "tidy ro m \<longleftrightarrow> (\<forall>t t0. snd (snd (m (t, Some t0))) = Some t0) \<and>
     (ro \<longrightarrow> (\<forall>t. snd (m (t, None)) = (t, None)))"

text \<open>The program agrees with its reference, or fails with the storage error and rolling back gives
  what rolling back gave before.\<close>

definition follows :: "('db \<Rightarrow> pure_db) \<Rightarrow> bool \<Rightarrow> ('db, 'a) prog \<Rightarrow> (pure_db, 'a) prog \<Rightarrow> bool" where
  "follows view ro m m0 \<longleftrightarrow> tidy ro m0 \<and> (\<forall>db. (snd (view db) \<noteq> None \<or> ro) \<longrightarrow>
     (fst (m db) = fst (m0 (view db)) \<and> view (snd (m db)) = snd (m0 (view db))) \<or>
     (fst (m db) = Inl storage \<and> undo (view (snd (m db))) = undo (view db) \<and>
      (snd (view db) = None \<longrightarrow> snd (view (snd (m db))) = None)))"

text \<open>Between operations no transaction is open.\<close>

definition follows_top :: "('db \<Rightarrow> pure_db) \<Rightarrow> ('db, 'a) prog \<Rightarrow> (pure_db, 'a) prog \<Rightarrow> bool" where
  "follows_top view m m0 \<longleftrightarrow> (\<forall>t. snd (snd (m0 (t, None))) = None) \<and>
     (\<forall>db. snd (view db) = None \<longrightarrow>
       (fst (m db) = fst (m0 (view db)) \<and> view (snd (m db)) = snd (m0 (view db))) \<or>
       (fst (m db) = Inl storage \<and> view (snd (m db)) = view db))"

text \<open>The outcome of an operation on an open store, as a value of an event, compared with the
  reference outcome.\<close>

definition agrees :: "('db \<Rightarrow> pure_db) \<Rightarrow> ('a \<Rightarrow> aff_value) \<Rightarrow> 'db \<Rightarrow> 'a res \<times> 'db store \<Rightarrow>
    'a res \<times> pure_db store \<Rightarrow> bool" where
  "agrees view f db x x0 \<longleftrightarrow> (\<exists>db'. snd (val f x) = Some db' \<and> snd (view db') = None \<and>
     (val f x0 = (fst (val f x), Some (view db')) \<or> (fst (val f x) = Inl storage \<and> view db' = view db)))"

lemma undo_idem [simp]: "undo (undo p) = undo p"
  by (auto simp: undo_def split: option.splits)

lemma undo_closed [simp]: "snd p = None \<Longrightarrow> undo p = p" "snd (undo p) = None"
  by (auto simp: undo_def split: option.splits)

lemma undo_open: "snd p = Some t0 \<Longrightarrow> undo p = (t0, None)"
  by (simp add: undo_def)

lemma bnd_simps [simp]:
  "m db = (Inl e, db1) \<Longrightarrow> bnd m f db = (Inl e, db1)"
  "m db = (Inr x, db1) \<Longrightarrow> bnd m f db = f x db1"
  by (simp_all add: bnd_def)

lemma bnd_ret: "bnd m (\<lambda>x. ret (g x)) db = (map_sum (\<lambda>e. e) g (fst (m db)), snd (m db))"
  by (cases "m db"; cases "fst (m db)") (auto simp: ret_def)

lemma tidy_bnd:
  assumes m: "tidy ro m" and f: "\<And>x. tidy ro (f x)"
  shows "tidy ro (bnd m f)"
  unfolding tidy_def
proof (intro conjI allI impI)
  fix t t0
  obtain r t1 where "m (t, Some t0) = (r, t1, Some t0)"
    using m by (metis tidy_def prod.collapse)
  then show "snd (snd (bnd m f (t, Some t0))) = Some t0"
    using f by (cases r) (simp_all add: tidy_def)
next
  fix t assume ro
  with m obtain r where "m (t, None) = (r, t, None)"
    by (metis tidy_def prod.collapse)
  with \<open>ro\<close> show "snd (bnd m f (t, None)) = (t, None)"
    using f by (cases r) (simp_all add: tidy_def)
qed

lemma tidy_undo:
  assumes "tidy ro m" and "snd p \<noteq> None \<or> ro"
  shows "undo (snd (m p)) = undo p" and "snd (snd (m p)) = snd p"
proof -
  have "undo (snd (m p)) = undo p \<and> snd (snd (m p)) = snd p"
    using assms by (cases p; cases "snd p") (auto simp: tidy_def undo_open)
  then show "undo (snd (m p)) = undo p" "snd (snd (m p)) = snd p" by auto
qed

lemma follows_step:
  "follows view ro m m0 \<Longrightarrow> snd (view db) \<noteq> None \<or> ro \<Longrightarrow>
     (fst (m db) = fst (m0 (view db)) \<and> view (snd (m db)) = snd (m0 (view db))) \<or>
     (fst (m db) = Inl storage \<and> undo (view (snd (m db))) = undo (view db) \<and>
      (snd (view db) = None \<longrightarrow> snd (view (snd (m db))) = None))"
  unfolding follows_def by blast

lemma follows_ret [follow_rules]: "follows view ro (ret x) (ret x)"
  by (simp add: follows_def tidy_def ret_def)

lemma follows_throw [follow_rules]: "follows view ro (throw e) (throw e)"
  by (simp add: follows_def tidy_def throw_def)

lemma follows_bnd [follow_rules]:
  assumes m: "follows view ro m m0" and f: "\<And>x. follows view ro (f x) (f0 x)"
  shows "follows view ro (bnd m f) (bnd m0 f0)"
proof -
  have tidy: "tidy ro m0" "\<And>x. tidy ro (f0 x)"
    using m f by (simp_all add: follows_def)
  have "(fst (bnd m f db) = fst (bnd m0 f0 (view db)) \<and> view (snd (bnd m f db)) = snd (bnd m0 f0 (view db))) \<or>
     (fst (bnd m f db) = Inl storage \<and> undo (view (snd (bnd m f db))) = undo (view db) \<and>
      (snd (view db) = None \<longrightarrow> snd (view (snd (bnd m f db))) = None))"
    if ok: "snd (view db) \<noteq> None \<or> ro" for db
  proof -
    obtain r db1 where md: "m db = (r, db1)" by (cases "m db")
    obtain r0 p1 where m0d: "m0 (view db) = (r0, p1)" by (cases "m0 (view db)")
    have p1: "undo p1 = undo (view db)" "snd p1 = snd (view db)"
      using tidy_undo [OF tidy(1) ok] m0d by simp_all
    consider "r = r0" "view db1 = p1" | "r = Inl storage" "undo (view db1) = undo (view db)"
      "snd (view db) = None \<longrightarrow> snd (view db1) = None"
      using follows_step [OF m ok] md m0d by auto
    then show ?thesis
    proof cases
      case 1
      then show ?thesis
        using follows_step [OF f, of db1] ok p1 md m0d by (cases r0) auto
    qed (use md in simp)
  qed
  then show ?thesis using tidy by (simp add: follows_def tidy_bnd)
qed

lemma follows_if [follow_rules]:
  "(b \<Longrightarrow> follows view ro m m0) \<Longrightarrow> (\<not> b \<Longrightarrow> follows view ro n n0) \<Longrightarrow>
    follows view ro (if b then m else n) (if b then m0 else n0)"
  by simp

lemma follows_list [follow_rules]:
  "follows view ro m m0 \<Longrightarrow> (\<And>x xs. follows view ro (f x xs) (f0 x xs)) \<Longrightarrow>
    follows view ro (case ys of [] \<Rightarrow> m | x # xs \<Rightarrow> f x xs) (case ys of [] \<Rightarrow> m0 | x # xs \<Rightarrow> f0 x xs)"
  by (simp split: list.split)

lemma follows_prod [follow_rules]:
  "(\<And>a b. follows view ro (f a b) (f0 a b)) \<Longrightarrow>
    follows view ro (case p of (a, b) \<Rightarrow> f a b) (case p of (a, b) \<Rightarrow> f0 a b)"
  by (simp split: prod.split)

text \<open>Statements that only read, and statements that leave the transaction alone.\<close>

fun reads :: "stmt \<Rightarrow> bool" where
  "reads (SelSessionId _) = True"
| "reads (SelSession _) = True"
| "reads (SelPending _) = True"
| "reads (SelResponse _) = True"
| "reads (SelHandoff _) = True"
| "reads (SelHandoffOf _ _) = True"
| "reads _ = False"

definition in_tx :: "stmt \<Rightarrow> bool" where
  "in_tx st \<longleftrightarrow> st \<noteq> BeginImmediate \<and> st \<noteq> Commit \<and> st \<noteq> Rollback"

lemma bind_args_kind [simp]:
  "bind_args st = BeginImmediate \<longleftrightarrow> st = BeginImmediate"
  "bind_args st = Commit \<longleftrightarrow> st = Commit"
  "bind_args st = Rollback \<longleftrightarrow> st = Rollback"
  by (cases st; simp)+

lemma pure_query_in_tx:
  "in_tx st \<Longrightarrow> pure_query st (t, sv) =
     (case sql_sem (bind_args st) t of None \<Rightarrow> (Inl storage, t, sv) | Some (rs, t') \<Rightarrow> (Inr rs, t', sv))"
  by (simp add: pure_query_def pure_exec_def in_tx_def)

lemma reads_in_tx: "reads st \<Longrightarrow> in_tx st"
  by (cases st) (simp_all add: in_tx_def)

lemma reads_sem: "reads st \<Longrightarrow> sql_sem (bind_args st) t = Some (rs, t') \<Longrightarrow> t' = t"
  by (cases st) simp_all

lemma tidy_query: "in_tx st \<Longrightarrow> reads st \<or> \<not> ro \<Longrightarrow> tidy ro (pure_query st)"
  by (auto simp: tidy_def pure_query_in_tx dest: reads_sem split: option.split prod.split)

lemma pure_control:
  "pure_query BeginImmediate (t, None) = (Inr [], t, Some t)"
  "pure_query Commit (t, Some t0) = (Inr [], t, None)"
  by (simp_all add: pure_query_def pure_exec_def)

text \<open>A transaction on the reference connection: all of the body or nothing.\<close>

lemma transaction_pure:
  assumes "tidy False f"
  shows "transaction pure_query f (t, None) =
    (case f (t, Some t) of (Inl e, _) \<Rightarrow> (Inl e, t, None) | (Inr x, p) \<Rightarrow> (Inr x, fst p, None))"
proof -
  obtain r t1 where f: "f (t, Some t) = (r, t1, Some t)"
    using assms by (metis tidy_def prod.collapse)
  then show ?thesis
  proof (cases r)
    case (Inl e)
    with f show ?thesis
      by (simp add: transaction_def pure_control pure_query_rollback undo_open)
  next
    case (Inr x)
    with f show ?thesis
      by (simp add: transaction_def pure_control pure_query_rollback ret_def)
  qed
qed

context sql_engine
begin

lemma rollback_view: "view (snd (query Rollback db)) = undo (view db)"
  by (rule rollback_ends) (rule surjective_pairing)

text \<open>Whatever the connection does, a transaction is atomic.\<close>

lemma follows_transaction:
  assumes f: "follows view False f f0"
  shows "follows_top view (transaction query f) (transaction pure_query f0)"
  unfolding follows_top_def
proof (intro conjI allI impI)
  have tidy: "tidy False f0" using f by (simp add: follows_def)
  then show "snd (snd (transaction pure_query f0 (t, None))) = None" for t
    by (simp add: transaction_pure split: prod.split sum.split)
  fix db assume "snd (view db) = None"
  then obtain t where v: "view db = (t, None)" by (cases "view db") simp
  obtain r1 db1 where b: "query BeginImmediate db = (r1, db1)" by (cases "query BeginImmediate db")
  show "(fst (transaction query f db) = fst (transaction pure_query f0 (view db)) \<and>
         view (snd (transaction query f db)) = snd (transaction pure_query f0 (view db))) \<or>
        (fst (transaction query f db) = Inl storage \<and> view (snd (transaction query f db)) = view db)"
  proof (cases r1)
    case (Inl e)
    with b query_fail [of BeginImmediate db e db1] v show ?thesis
      by (auto simp: transaction_def)
  next
    case (Inr rs)
    with b query_ok [of BeginImmediate db rs db1] v have v1: "view db1 = (t, Some t)"
      by (simp add: pure_control)
    obtain r db2 where fd: "f db1 = (r, db2)" by (cases "f db1")
    obtain r0 t2 where f0d: "f0 (t, Some t) = (r0, t2, Some t)"
      using tidy by (metis tidy_def prod.collapse)
    consider "r = r0" "view db2 = (t2, Some t)" | "r = Inl storage" "undo (view db2) = (t, None)"
      using follows_step [OF f, of db1] v1 fd f0d by (auto simp: undo_def)
    moreover have pt: "transaction pure_query f0 (view db) =
        (case r0 of Inl e \<Rightarrow> (Inl e, t, None) | Inr x \<Rightarrow> (Inr x, t2, None))"
      using v f0d by (simp add: transaction_pure [OF tidy] split: sum.split)
    ultimately show ?thesis
    proof cases
      case 2
      with b Inr fd v show ?thesis by (simp add: transaction_def rollback_view)
    next
      case 1
      show ?thesis
      proof (cases r0)
        case (Inl e)
        with 1 b Inr fd show ?thesis
          unfolding pt by (simp add: transaction_def rollback_view undo_open)
      next
        case (Inr x)
        obtain r3 db3 where c: "query Commit db2 = (r3, db3)" by (cases "query Commit db2")
        show ?thesis
        proof (cases r3)
          case (Inl e)
          with c query_fail [of Commit db2 e db3] 1
          have "e = storage" and "undo (view db3) = (t, None)" by (auto simp: undo_open)
          with Inl c Inr 1 b \<open>r1 = Inr rs\<close> fd v show ?thesis
            by (simp add: transaction_def rollback_view)
        next
          case (Inr rs3)
          with c query_ok [of Commit db2 rs3 db3] 1 have "view db3 = (t2, None)"
            by (simp add: pure_control)
          with Inr c \<open>r0 = Inr x\<close> 1 b \<open>r1 = Inr rs\<close> fd show ?thesis
            unfolding pt by (simp add: transaction_def rollback_view ret_def)
        qed
      qed
    qed
  qed
qed

lemma follows_top_read: "follows view True m m0 \<Longrightarrow> follows_top view m m0"
  using follows_step [of view True m m0] unfolding follows_top_def follows_def tidy_def
  by (metis undo_closed(1) snd_conv)

lemma follows_top_map:
  assumes "follows_top view m m0"
  shows "follows_top view (bnd m (\<lambda>x. ret (g x))) (bnd m0 (\<lambda>x. ret (g x)))"
  using assms unfolding follows_top_def bnd_ret by (metis fst_conv snd_conv map_sum.simps(1))

lemma follows_query:
  assumes "in_tx st" and "reads st \<or> \<not> ro"
  shows "follows view ro (query st) (pure_query st)"
proof -
  have "(fst (query st db) = fst (pure_query st (view db)) \<and> view (snd (query st db)) = snd (pure_query st (view db))) \<or>
     (fst (query st db) = Inl storage \<and> undo (view (snd (query st db))) = undo (view db) \<and>
      (snd (view db) = None \<longrightarrow> snd (view (snd (query st db))) = None))" for db
  proof (cases "query st db")
    case (Pair r db1)
    then show ?thesis
    proof (cases r)
      case (Inl e)
      with query_fail [of st db e db1] Pair have "e = storage" "view db1 = view db \<or> view db1 = undo (view db)"
        by auto
      with Inl Pair show ?thesis by auto
    next
      case (Inr rs)
      with query_ok [of st db rs db1] Pair show ?thesis by simp
    qed
  qed
  then show ?thesis using assms by (simp add: follows_def tidy_query)
qed

lemma follows_all: "list_all in_tx sts \<Longrightarrow> follows view False (query_all query sts) (query_all pure_query sts)"
  by (induction sts) (auto intro!: follow_rules follows_query)

lemma follows_lookup: "follows view ro (lookup query i) (lookup pure_query i)"
  unfolding lookup_def by (intro follow_rules follows_query) (simp_all add: in_tx_def)

lemma follows_ready: "follows view ro (ready_body query o1) (ready_body pure_query o1)"
  unfolding ready_body_def by (intro follow_rules follows_lookup follows_query) (simp_all add: in_tx_def)

lemma follows_register:
  "follows view False (register_body query o1 sl now) (register_body pure_query o1 sl now)"
  unfolding register_body_def by (intro follow_rules follows_query) (simp_all add: in_tx_def)

lemma follows_refs: "follows view False (check_refs query s ids) (check_refs pure_query s ids)"
proof (induction ids)
  case (Cons i ids)
  then show ?case
    unfolding check_refs.simps by (intro follow_rules follows_query) (simp_all add: in_tx_def)
qed (simp add: follows_ret)

lemma follows_claim: "follows view False (claim_ids query sc e s ids) (claim_ids pure_query sc e s ids)"
proof (induction ids)
  case (Cons i ids)
  then show ?case
    unfolding claim_ids.simps by (intro follow_rules follows_query) (simp_all add: in_tx_def)
qed (simp add: follows_ret)

lemma follows_begin:
  "follows view False (begin_body query o1 refs inputs rnd now) (begin_body pure_query o1 refs inputs rnd now)"
  unfolding begin_body_def
  by (intro follow_rules follows_ready follows_refs follows_claim follows_query) (simp_all add: in_tx_def)

lemma follows_finish:
  "follows view False (finish_body query l ids ok now) (finish_body pure_query l ids ok now)"
  unfolding finish_body_def Let_def
  by (intro follow_rules follows_lookup follows_claim follows_query) (simp_all add: in_tx_def)

lemma follows_prepare: "follows view False (prepare_body query r now) (prepare_body pure_query r now)"
  unfolding prepare_body_def
  by (intro follow_rules follows_lookup follows_query) (simp_all add: in_tx_def)

lemma follows_reservation: "follows view ro (find_reservation query i) (find_reservation pure_query i)"
  unfolding find_reservation_def
  by (intro follow_rules follows_lookup follows_query) (simp_all add: in_tx_def)

lemma follows_cancel: "follows view False (cancel_body query i src) (cancel_body pure_query i src)"
  unfolding cancel_body_def
  by (intro follow_rules follows_reservation follows_query) (simp_all add: in_tx_def)

lemma follows_bind: "follows view False (bind_body query i o1 now) (bind_body pure_query i o1 now)"
  unfolding bind_body_def
  by (intro follow_rules follows_reservation follows_lookup follows_query) (simp_all add: in_tx_def)

text \<open>An operation on an open store.\<close>

lemma follows_on_store:
  assumes "follows_top view m m0" and "snd (view db) = None"
  shows "agrees view f db (on_store m (Some db)) (on_store m0 (Some (view db)))"
proof -
  obtain r db1 where "m db = (r, db1)" by (cases "m db")
  moreover obtain r0 p where "m0 (view db) = (r0, p)" by (cases "m0 (view db)")
  moreover have "snd p = None"
    using assms calculation(2) unfolding follows_top_def by (metis prod.collapse snd_conv)
  moreover have "(r = r0 \<and> view db1 = p) \<or> (r = Inl storage \<and> view db1 = view db)"
    using assms calculation(1,2) unfolding follows_top_def by (metis fst_conv snd_conv)
  ultimately show ?thesis
    using assms(2) by (auto simp: val_def agrees_def on_store_def)
qed

lemma agrees_same: "snd (view db) = None \<Longrightarrow> agrees view f db (r, Some db) (r, Some (view db))"
  by (simp add: agrees_def val_def)

lemmas follows_ops = follows_lookup follows_ready follows_register follows_begin follows_finish
  follows_prepare follows_reservation follows_cancel follows_bind

lemma aff_exec_agrees:
  assumes "snd (view db) = None"
  shows "\<exists>db'. snd (aff_exec query ev (Some db)) = Some db' \<and> snd (view db') = None \<and>
    (aff_exec pure_query ev (Some (view db)) = (fst (aff_exec query ev (Some db)), Some (view db')) \<or>
     (fst (aff_exec query ev (Some db)) = Inl storage \<and> view db' = view db))"
proof (cases ev)
  case (ERegister o1 sl now)
  have "agrees view VSession db (Register query o1 sl now (Some db)) (Register pure_query o1 sl now (Some (view db)))"
    unfolding Register_def
    by (simp add: assms agrees_same follows_on_store follows_top_map follows_transaction follows_ops)
  with ERegister show ?thesis by (simp add: agrees_def)
next
  case (ELookup i)
  have "agrees view VSession db (Lookup query i (Some db)) (Lookup pure_query i (Some (view db)))"
    unfolding Lookup_def split_def
    by (intro follows_on_store follows_top_map follows_top_read follows_ops assms)
  with ELookup show ?thesis by (simp add: agrees_def)
next
  case (EReady o1)
  have "agrees view (\<lambda>_. VUnit) db (Ready query o1 (Some db)) (Ready pure_query o1 (Some (view db)))"
    unfolding Ready_def by (intro follows_on_store follows_top_map follows_top_read follows_ops assms)
  with EReady show ?thesis by (simp add: agrees_def)
next
  case (EBegin o1 refs inputs rnd now)
  have "agrees view VLease db (BeginWithInputs query o1 refs inputs rnd now (Some db))
      (BeginWithInputs pure_query o1 refs inputs rnd now (Some (view db)))"
    unfolding BeginWithInputs_def by (intro follows_on_store follows_transaction follows_ops assms)
  with EBegin show ?thesis by (simp add: agrees_def)
next
  case (EFinish l ids ok now)
  have "agrees view (\<lambda>_. VUnit) db (Finish query l ids ok now (Some db))
      (Finish pure_query l ids ok now (Some (view db)))"
    unfolding Finish_def by (intro follows_on_store follows_transaction follows_ops assms)
  with EFinish show ?thesis by (simp add: agrees_def)
next
  case (EGC now)
  have "agrees view (\<lambda>_. VUnit) db (GC query now (Some db)) (GC pure_query now (Some (view db)))"
    unfolding GC_def
    by (intro follows_on_store follows_transaction follow_rules follows_query assms) (simp_all add: in_tx_def)
  with EGC show ?thesis by (simp add: agrees_def)
next
  case (EPrepare rnd src tg cp dg b now)
  have "agrees view VReservation db (PrepareHandoff query rnd src tg cp dg b now (Some db))
      (PrepareHandoff pure_query rnd src tg cp dg b now (Some (view db)))"
    unfolding PrepareHandoff_def Let_def
    by (simp add: assms agrees_same follows_on_store follows_top_map follows_transaction follows_ops)
  with EPrepare show ?thesis by (simp add: agrees_def)
next
  case (EHandoffOf i)
  have "agrees view VReservation db (Handoff query i (Some db)) (Handoff pure_query i (Some (view db)))"
    unfolding Handoff_def by (intro follows_on_store follows_top_read follows_ops assms)
  with EHandoffOf show ?thesis by (simp add: agrees_def)
next
  case (EInvalidate sl)
  have "agrees view (\<lambda>_. VUnit) db (InvalidateSlot query sl (Some db)) (InvalidateSlot pure_query sl (Some (view db)))"
    unfolding InvalidateSlot_def
    by (simp add: assms agrees_same follows_on_store follows_transaction follows_all in_tx_def del: query_all.simps)
  with EInvalidate show ?thesis by (simp add: agrees_def)
next
  case (EFind src cp)
  have "agrees view VFound db (FindHandoff query src cp (Some db)) (FindHandoff pure_query src cp (Some (view db)))"
    unfolding FindHandoff_def
    by (intro follows_on_store follows_top_read follow_rules follows_query follows_ops assms)
      (simp_all add: in_tx_def)
  with EFind show ?thesis by (simp add: agrees_def)
next
  case (EReserved src cp)
  have "agrees view VBool db (CheckpointReserved query src cp (Some db))
      (CheckpointReserved pure_query src cp (Some (view db)))"
    unfolding CheckpointReserved_def
    by (intro follows_on_store follows_top_read follow_rules follows_query assms) (simp_all add: in_tx_def)
  with EReserved show ?thesis by (simp add: agrees_def)
next
  case (ECancel i src)
  have "agrees view (\<lambda>_. VUnit) db (CancelHandoff query i src (Some db)) (CancelHandoff pure_query i src (Some (view db)))"
    unfolding CancelHandoff_def by (intro follows_on_store follows_transaction follows_ops assms)
  with ECancel show ?thesis by (simp add: agrees_def)
next
  case (EBind i o1 u now)
  have "agrees view VSession db (BindHandoff query i o1 u now (Some db)) (BindHandoff pure_query i o1 u now (Some (view db)))"
    unfolding BindHandoff_def
    by (simp add: assms agrees_same follows_on_store follows_transaction follows_ops)
  with EBind show ?thesis by (simp add: agrees_def)
qed

end

section \<open>The refinement theorem\<close>

text \<open>C1: For every SQL connection that keeps the documented laws (a successful call means what the
  reference tables say, a failing call changes nothing or rolls the transaction back), every
  operation of the affinity store started with no transaction open ends with none open, and either
  returns exactly the result of the reference tables and leaves exactly their new contents, or
  reports the storage error and leaves every table as it was. No failure of the database, at
  whichever statement of whichever operation, leaves a half-done operation behind.\<close>

theorem affinity_atomic:
  assumes "sql_engine query view" and "snd (view db) = None"
  shows "\<exists>db'. snd (aff_exec query ev (Some db)) = Some db' \<and> snd (view db') = None \<and>
    (aff_exec pure_query ev (Some (view db)) = (fst (aff_exec query ev (Some db)), Some (view db')) \<or>
     (fst (aff_exec query ev (Some db)) = Inl storage \<and> view db' = view db))"
  using sql_engine.aff_exec_agrees [OF assms] .

end
