(* ===== verification/Affinity_Inv.thy ===== *)
theory Affinity_Inv
  imports Affinity_Refine
begin

text \<open>
  The abstract specification of the affinity store: \<open>aff_effect\<close> lists the only ways the tables
  ever change. On the reference connection every operation has such an effect or none, and every
  effect keeps the table invariant \<open>aff_inv\<close>.
\<close>

section \<open>The specification\<close>

definition ids_of :: "tables \<Rightarrow> string set" where
  "ids_of t = r_id ` set (session_rows t)"

text \<open>Newly claimed response identifiers: all owned by one session, none known before.\<close>

definition fresh_responses :: "tables \<Rightarrow> string \<Rightarrow> response_row list \<Rightarrow> bool" where
  "fresh_responses t s new \<longleftrightarrow> (\<forall>x\<in>set new. p_session x = s) \<and>
     distinct (map p_id (response_rows t @ new))"

definition add_responses :: "response_row list \<Rightarrow> tables \<Rightarrow> tables" where
  "add_responses new t = t\<lparr>response_rows := response_rows t @ new\<rparr>"

definition add_session :: "session_row \<Rightarrow> tables \<Rightarrow> tables" where
  "add_session r t = t\<lparr>session_rows := session_rows t @ [r]\<rparr>"

definition set_state :: "string \<Rightarrow> string \<Rightarrow> string \<Rightarrow> int \<Rightarrow> tables \<Rightarrow> tables" where
  "set_state i st rq n = update_sessions (\<lambda>r. r_id r = i)
     (\<lambda>r. r\<lparr>r_state := st, r_request := rq, r_last_seen := n\<rparr>)"

definition block_slot :: "string \<Rightarrow> tables \<Rightarrow> tables" where
  "block_slot sl = update_sessions (\<lambda>r. r_slot r = sl) (\<lambda>r. r\<lparr>r_state := ''blocked'', r_request := []\<rparr>)"

definition drop_handoffs :: "(handoff_row \<Rightarrow> bool) \<Rightarrow> tables \<Rightarrow> tables" where
  "drop_handoffs p t = t\<lparr>handoff_rows := filter (\<lambda>h. \<not> p h) (handoff_rows t)\<rparr>"

definition consume :: "string \<Rightarrow> string \<Rightarrow> tables \<Rightarrow> tables" where
  "consume i s t = t\<lparr>handoff_rows := map (\<lambda>h. if h_id h = i \<and> h_consumed_by h = []
     then h\<lparr>h_consumed_by := s\<rparr> else h) (handoff_rows t)\<rparr>"

definition touches_slot :: "string \<Rightarrow> tables \<Rightarrow> handoff_row \<Rightarrow> bool" where
  "touches_slot sl t h \<longleftrightarrow> h_consumed_by h = [] \<and>
     (h_target h = sl \<or> (\<exists>r\<in>set (session_rows t). r_slot r = sl \<and> r_id r = h_source h))"

inductive aff_effect :: "aff_event \<Rightarrow> tables \<Rightarrow> tables \<Rightarrow> bool" where
  register: "r_id r = Session o1 \<Longrightarrow> r_id r \<notin> ids_of t \<Longrightarrow> c_string (r_id r) = r_id r \<Longrightarrow>
    r_slot r \<in> set slot_all \<Longrightarrow> r_state r = ''ready'' \<Longrightarrow> r_request r = [] \<Longrightarrow>
    aff_effect (ERegister o1 sl now) t (add_session r t)"
| claim: "r \<in> set (session_rows t) \<Longrightarrow> r_id r = c_string (Session o1) \<Longrightarrow> r_state r = ''ready'' \<Longrightarrow>
    r_id r \<notin> set (pending_sources (handoff_rows t)) \<Longrightarrow> fresh_responses t (r_id r) new \<Longrightarrow>
    aff_effect (EBegin o1 refs inputs rnd now) t
      (set_state (r_id r) ''inflight'' (c_string rnd) (stamp now) (add_responses new t))"
| finish: "r \<in> set (session_rows t) \<Longrightarrow> r_id r = c_string (Session (sOrigin (lSession l))) \<Longrightarrow>
    r_state r = ''inflight'' \<Longrightarrow> r_request r = lRequest l \<Longrightarrow>
    (if ok then fresh_responses t (r_id r) new else new = []) \<Longrightarrow>
    aff_effect (EFinish l ids ok now) t
      (set_state (r_id r) (if ok then ''ready'' else ''blocked'') [] (stamp now) (add_responses new t))"
| gc: "aff_effect (EGC now) t
    (delete_sessions (\<lambda>r. r_state r \<noteq> ''inflight'' \<and> r_last_seen r < stamp (now - Retention)) t)"
| prepare: "r \<in> set (session_rows t) \<Longrightarrow> r_state r = ''ready'' \<Longrightarrow> r_slot r \<noteq> h_target h \<Longrightarrow>
    h_source h = r_id r \<Longrightarrow> h_target h \<in> set slot_all \<Longrightarrow> h_consumed_by h = [] \<Longrightarrow> h_id h = c_string rnd \<Longrightarrow>
    r_id r \<notin> set (pending_sources (handoff_rows t)) \<Longrightarrow> h_id h \<notin> h_id ` set (handoff_rows t) \<Longrightarrow>
    aff_effect (EPrepare rnd src tg cp dg b now) t (t\<lparr>handoff_rows := handoff_rows t @ [h]\<rparr>)"
| invalidate: "aff_effect (EInvalidate sl) t (drop_handoffs (touches_slot sl t) (block_slot sl t))"
| cancel: "h \<in> set (handoff_rows t) \<Longrightarrow> h_id h = c_string i \<Longrightarrow> h_consumed_by h = [] \<Longrightarrow>
    aff_effect (ECancel i o1) t (drop_handoffs (\<lambda>x. h_id x = h_id h) t)"
| bind: "h \<in> set (handoff_rows t) \<Longrightarrow> h_id h = c_string i \<Longrightarrow> h_consumed_by h = [] \<Longrightarrow>
    src \<in> set (session_rows t) \<Longrightarrow> r_id src = h_source h \<Longrightarrow> r_state src = ''ready'' \<Longrightarrow> r_id r = Session o1 \<Longrightarrow>
    r_id r \<notin> ids_of t \<Longrightarrow> c_string (r_id r) = r_id r \<Longrightarrow> r_id r \<noteq> [] \<Longrightarrow> r_slot r = h_target h \<Longrightarrow>
    r_state r = ''ready'' \<Longrightarrow> r_request r = [] \<Longrightarrow>
    aff_effect (EBind i o1 u now) t (consume (h_id h) (r_id r) (add_session r t))"

section \<open>The table invariant\<close>

text \<open>Keys are unique and without NUL, references resolve, slots and states are in their lists, only an inflight
  session carries a request, at most one handoff of a source is pending, and a handoff always
  leads to another slot than its source's.\<close>

definition sessions_ok :: "session_row list \<Rightarrow> bool" where
  "sessions_ok rs \<longleftrightarrow> distinct (map r_id rs) \<and>
     (\<forall>r\<in>set rs. c_string (r_id r) = r_id r \<and> r_slot r \<in> set slot_all \<and> r_state r \<in> set session_states \<and>
        (r_state r \<noteq> ''inflight'' \<longrightarrow> r_request r = []))"

definition handoffs_ok :: "session_row list \<Rightarrow> handoff_row list \<Rightarrow> bool" where
  "handoffs_ok rs hs \<longleftrightarrow> distinct (map h_id hs) \<and> distinct (pending_sources hs) \<and>
     (\<forall>h\<in>set hs. h_target h \<in> set slot_all \<and> (\<exists>r\<in>set rs. r_id r = h_source h \<and> r_slot r \<noteq> h_target h))"

definition aff_inv :: "tables \<Rightarrow> bool" where
  "aff_inv t \<longleftrightarrow> session_check t = slot_all \<and> handoff_check t = slot_all \<and>
     sessions_ok (session_rows t) \<and> handoffs_ok (session_rows t) (handoff_rows t) \<and>
     distinct (map p_id (response_rows t)) \<and> (\<forall>x\<in>set (response_rows t). p_session x \<in> ids_of t)"

lemma empty_tables_inv: "aff_inv empty_tables"
  by (simp add: aff_inv_def empty_tables_def sessions_ok_def handoffs_ok_def pending_sources_def)

lemma map_update_id:
  "(\<And>r. g (f r) = g r) \<Longrightarrow> map g (map (\<lambda>r. if p r then f r else r) rs) = map g rs"
  by (induction rs) auto

lemma distinct_map_filter_sub: "distinct (map f xs) \<Longrightarrow> distinct (map f (filter p xs))"
  by (induction xs) auto

lemma pending_sources_filter:
  "distinct (pending_sources hs) \<Longrightarrow> distinct (pending_sources (filter p hs))"
  by (induction hs) (auto simp: pending_sources_def)

text \<open>An update that keeps key and slot keeps everything that depends on them.\<close>

lemma handoffs_ok_update:
  assumes "handoffs_ok rs hs" and "\<And>r. r_id (f r) = r_id r" "\<And>r. r_slot (f r) = r_slot r"
  shows "handoffs_ok (map (\<lambda>r. if p r then f r else r) rs) hs"
  unfolding handoffs_ok_def
proof (intro conjI ballI)
  fix h assume "h \<in> set hs"
  then obtain r where "r \<in> set rs" "r_id r = h_source h" "r_slot r \<noteq> h_target h"
    using assms(1) by (auto simp: handoffs_ok_def)
  then show "\<exists>r\<in>set (map (\<lambda>r. if p r then f r else r) rs). r_id r = h_source h \<and> r_slot r \<noteq> h_target h"
    using assms(2,3) by (intro bexI [of _ "if p r then f r else r"]) auto
qed (use assms(1) in \<open>auto simp: handoffs_ok_def\<close>)

lemma handoffs_ok_filter: "handoffs_ok rs hs \<Longrightarrow> handoffs_ok rs (filter p hs)"
  by (auto simp: handoffs_ok_def distinct_map_filter_sub pending_sources_filter)

lemma sessions_ok_update:
  assumes "sessions_ok rs" and "\<And>r. r_id (f r) = r_id r" "\<And>r. r_slot (f r) = r_slot r"
    and "\<And>r. r_state (f r) \<in> set session_states" "\<And>r. r_state (f r) \<noteq> ''inflight'' \<Longrightarrow> r_request (f r) = []"
  shows "sessions_ok (map (\<lambda>r. if p r then f r else r) rs)"
  using assms unfolding sessions_ok_def by (auto simp: map_update_id simp del: map_map)

lemma ids_of_update:
  assumes "\<And>r. r_id (f r) = r_id r"
  shows "ids_of (update_sessions p f t) = ids_of t"
proof -
  have "set (map r_id (session_rows (update_sessions p f t))) = set (map r_id (session_rows t))"
    unfolding update_sessions_def using map_update_id [of r_id f p "session_rows t", OF assms]
    by (simp del: map_map set_map)
  then show ?thesis by (simp add: ids_of_def)
qed

lemma pending_consume:
  "distinct (pending_sources hs) \<Longrightarrow> s \<noteq> [] \<Longrightarrow>
    distinct (pending_sources (map (\<lambda>h. if h_id h = i \<and> h_consumed_by h = []
      then h\<lparr>h_consumed_by := s\<rparr> else h) hs))"
  by (induction hs) (auto simp: pending_sources_def)

lemma session_record:
  "session_rows (t\<lparr>session_rows := rs\<rparr>) = rs" "session_rows (t\<lparr>response_rows := xs\<rparr>) = session_rows t"
  by simp_all

lemma ids_ofI: "r \<in> set (session_rows t) \<Longrightarrow> r_id r \<in> ids_of t"
  by (simp add: ids_of_def)

lemma effect_update_inv:
  assumes "aff_inv t" and "fresh_responses t i new" and "i \<in> ids_of t"
    and "st \<in> set session_states" "st \<noteq> ''inflight'' \<Longrightarrow> rq = []"
  shows "aff_inv (set_state i st rq n (add_responses new t))"
proof -
  have "ids_of (set_state i st rq n (add_responses new t)) = ids_of t"
    unfolding set_state_def by (subst ids_of_update) (auto simp: ids_of_def add_responses_def)
  moreover have "sessions_ok (session_rows (set_state i st rq n (add_responses new t)))"
    unfolding set_state_def update_sessions_def add_responses_def session_record
    by (rule sessions_ok_update) (use assms in \<open>auto simp: aff_inv_def\<close>)
  moreover have "handoffs_ok (session_rows (set_state i st rq n (add_responses new t))) (handoff_rows t)"
    unfolding set_state_def update_sessions_def add_responses_def session_record
    by (rule handoffs_ok_update) (use assms in \<open>auto simp: aff_inv_def\<close>)
  ultimately show ?thesis
    using assms(1-3) unfolding aff_inv_def fresh_responses_def
    by (auto simp: set_state_def update_sessions_def add_responses_def)
qed

lemma fresh_responses_Nil: "aff_inv t \<Longrightarrow> fresh_responses t i []"
  by (simp add: fresh_responses_def aff_inv_def)

lemma gc_inv:
  assumes "aff_inv t"
  shows "aff_inv (delete_sessions p t)"
proof -
  let ?kept = "filter (\<lambda>r. \<not> p r) (session_rows t)" and ?gone = "map r_id (filter p (session_rows t))"
  have "handoffs_ok ?kept (filter (\<lambda>h. h_source h \<notin> set ?gone) (handoff_rows t))"
    unfolding handoffs_ok_def
  proof (intro conjI ballI)
    fix h assume h: "h \<in> set (filter (\<lambda>h. h_source h \<notin> set ?gone) (handoff_rows t))"
    then obtain r where "r \<in> set (session_rows t)" "r_id r = h_source h" "r_slot r \<noteq> h_target h"
      using assms by (auto simp: aff_inv_def handoffs_ok_def)
    with h show "\<exists>r\<in>set ?kept. r_id r = h_source h \<and> r_slot r \<noteq> h_target h"
      by (intro bexI [of _ r]) force+
  qed (use assms in \<open>auto simp: aff_inv_def handoffs_ok_def distinct_map_filter_sub pending_sources_filter\<close>)
  moreover have "sessions_ok ?kept"
    using assms by (auto simp: aff_inv_def sessions_ok_def distinct_map_filter_sub)
  ultimately show ?thesis
    using assms by (force simp: aff_inv_def delete_sessions_def ids_of_def distinct_map_filter_sub)
qed

lemma add_session_inv:
  assumes "aff_inv t" and "r_id r \<notin> ids_of t" "c_string (r_id r) = r_id r" "r_slot r \<in> set slot_all" "r_state r = ''ready''" "r_request r = []"
  shows "aff_inv (add_session r t)"
  using assms by (auto simp: aff_inv_def add_session_def sessions_ok_def handoffs_ok_def ids_of_def session_states_def)

lemma aff_effect_inv: "aff_effect ev t t' \<Longrightarrow> aff_inv t \<Longrightarrow> aff_inv t'"
proof (induction rule: aff_effect.induct)
  case (claim r t o1 new refs inputs rnd now)
  then show ?case by (intro effect_update_inv ids_ofI) (simp_all add: session_states_def)
next
  case (finish r t l ok new ids now)
  then show ?case
    by (intro effect_update_inv ids_ofI) (auto simp: session_states_def fresh_responses_Nil split: if_splits)
next
  case (prepare r t h rnd src tg cp dg b now)
  then show ?case
    by (auto simp: aff_inv_def handoffs_ok_def ids_of_def pending_sources_def)
next
  case (invalidate sl t)
  then have "aff_inv (block_slot sl t)"
    unfolding block_slot_def aff_inv_def
    by (subst ids_of_update)
      (auto simp: update_sessions_def sessions_ok_update handoffs_ok_update session_states_def)
  then show ?case by (simp add: aff_inv_def drop_handoffs_def handoffs_ok_filter ids_of_def)
next
  case (cancel h t i o1)
  then show ?case by (simp add: aff_inv_def drop_handoffs_def handoffs_ok_filter ids_of_def)
next
  case (bind h t i src r o1 u now)
  then have "aff_inv (add_session r t)"
    by (intro add_session_inv) (auto simp: aff_inv_def handoffs_ok_def)
  with bind(10) show ?case
    by (auto simp: aff_inv_def consume_def handoffs_ok_def pending_consume ids_of_def map_update_id
        simp del: map_map)
qed (auto intro: gc_inv add_session_inv)

end
