(* ===== verification/Affinity_Spec.thy ===== *)
theory Affinity_Spec
  imports Affinity_Inv
begin

text \<open>
  Every operation on the reference connection changes the tables as \<open>aff_effect\<close> allows, and the
  same holds over any connection for any sequence of operations (\<open>aff_run\<close>).
\<close>

section \<open>What a successful body has seen and done\<close>

lemma bnd_Inr: "bnd m f db = (Inr y, db2) \<longleftrightarrow> (\<exists>x db1. m db = (Inr x, db1) \<and> f x db1 = (Inr y, db2))"
  by (cases "m db"; cases "fst (m db)") auto

lemma ret_Inr [simp]: "ret x db = (Inr y, db1) \<longleftrightarrow> x = y \<and> db1 = db"
  by (auto simp: ret_def)

lemma throw_Inr [simp]: "throw e db = (Inr y, db1) \<longleftrightarrow> False"
  by (simp add: throw_def)

lemma pure_data_Inr:
  "in_tx st \<Longrightarrow> pure_query st (t, sv) = (Inr rs, p) \<longleftrightarrow>
    (\<exists>t'. sql_sem (bind_args st) t = Some (rs, t') \<and> p = (t', sv))"
  by (auto simp: pure_query_in_tx split: option.splits)

lemma in_tx_simps [simp]:
  "in_tx (SelSessionId i)" "in_tx (InsSession i p w b sl n)" "in_tx (SelSession i)" "in_tx (SelPending i)"
  "in_tx (SelResponse i)" "in_tx (InsResponse i s)" "in_tx (UpdInflight q n i)" "in_tx (UpdState st n i)"
  "in_tx (DelIdleBefore n)" "in_tx (InsHandoff i s tg c d n)" "in_tx (SelHandoff i)" "in_tx (BlockSlot sl)"
  "in_tx (DelPendingSlot sl)" "in_tx (SelHandoffOf s c)" "in_tx (DelHandoff i)" "in_tx (UpdConsumed s i)"
  by (simp_all add: in_tx_def)

lemma filter_single: "map f (filter p xs) = [y] \<Longrightarrow> \<exists>x\<in>set xs. p x \<and> f x = y"
proof -
  assume "map f (filter p xs) = [y]"
  then obtain x where "filter p xs = [x]" "f x = y" by (auto simp: map_eq_Cons_conv)
  then have "x \<in> set (filter p xs)" by simp
  with \<open>f x = y\<close> show ?thesis by auto
qed

definition session_at :: "string \<Rightarrow> session_row \<Rightarrow> hsession" where
  "session_at i r = \<lparr>sOrigin = \<lparr>Project = r_project r, Worktree = r_worktree r, Branch = r_branch r, Session = i\<rparr>,
     Account = r_slot r, Wiki = []\<rparr>"

lemma lookup_ok:
  assumes "lookup pure_query i (t, sv) = (Inr (x, st, rq), p)"
  shows "p = (t, sv)" and "\<exists>r\<in>set (session_rows t). r_id r = c_string i \<and> x = session_at i r \<and>
    st = r_state r \<and> rq = r_request r"
proof -
  from assms obtain a b c d e f where rows: "map (\<lambda>r. [r_project r, r_worktree r, r_branch r, r_slot r, r_state r, r_request r])
      (filter (\<lambda>r. r_id r = c_string i) (session_rows t)) = [[a, b, c, d, e, f]]"
    and x: "x = \<lparr>sOrigin = \<lparr>Project = a, Worktree = b, Branch = c, Session = i\<rparr>, Account = d, Wiki = []\<rparr>"
      "st = e" "rq = f" and p: "p = (t, sv)"
    by (auto simp: lookup_def bnd_Inr pure_data_Inr split: list.splits)
  then show "p = (t, sv)" by simp
  from filter_single [OF rows] x show "\<exists>r\<in>set (session_rows t). r_id r = c_string i \<and> x = session_at i r \<and>
    st = r_state r \<and> rq = r_request r"
    by (auto simp: session_at_def)
qed

lemma pending_select:
  "map f (filter (\<lambda>h. h_source h = i \<and> h_consumed_by h = []) hs) = [] \<longleftrightarrow> i \<notin> set (pending_sources hs)"
  by (auto simp: pending_sources_def filter_empty_conv)

lemma ready_ok:
  assumes "ready_body pure_query o1 (t, sv) = (Inr x, p)"
  shows "p = (t, sv)" and "\<exists>r\<in>set (session_rows t). r_id r = c_string (Session o1) \<and> r_state r = ''ready'' \<and>
    x = session_at (Session o1) r \<and> sOrigin x = o1 \<and> r_id r \<notin> set (pending_sources (handoff_rows t))"
proof -
  from assms obtain x' st rq p' where l: "lookup pure_query (Session o1) (t, sv) = (Inr (x', st, rq), p')"
    and g: "sOrigin x' = o1" "st = ''ready''"
    and s: "bnd (pure_query (SelPending (Session o1))) (\<lambda>rows. if rows \<noteq> [] then throw Blocked else ret x') p' = (Inr x, p)"
    by (auto simp: ready_body_def bnd_Inr split: if_splits)
  note l' = lookup_ok [OF l]
  from s l'(1) have "x = x'" "p = (t, sv)" "c_string (Session o1) \<notin> set (pending_sources (handoff_rows t))"
    using pending_select [of "\<lambda>h. [h_id h]" "c_string (Session o1)" "handoff_rows t"]
    by (auto simp: bnd_Inr pure_data_Inr split: if_splits)
  with l'(2) g show "p = (t, sv)" "\<exists>r\<in>set (session_rows t). r_id r = c_string (Session o1) \<and> r_state r = ''ready'' \<and>
    x = session_at (Session o1) r \<and> sOrigin x = o1 \<and> r_id r \<notin> set (pending_sources (handoff_rows t))"
    by auto
qed

lemma check_refs_ok:
  assumes "check_refs pure_query s ids (t, sv) = (Inr u, p)"
  shows "p = (t, sv) \<and> (\<forall>i\<in>set ids. \<exists>x\<in>set (response_rows t). p_id x = c_string (historyScope i s) \<and> p_session x = s)"
  using assms
proof (induction ids)
  case (Cons i ids)
  then have "map (\<lambda>x. [p_session x]) (filter (\<lambda>x. p_id x = c_string (historyScope i s)) (response_rows t)) = [[s]]"
    and "check_refs pure_query s ids (t, sv) = (Inr u, p)"
    by (auto simp: bnd_Inr pure_data_Inr split: if_splits list.splits)
  with Cons.IH filter_single [OF this(1)] show ?case by auto
qed simp

lemma claim_ids_ok:
  assumes "claim_ids pure_query sc e s ids (t, sv) = (Inr u, p)" and "distinct (map p_id (response_rows t))"
  shows "\<exists>new. p = (add_responses new t, sv) \<and> fresh_responses t (c_string s) new"
  using assms
proof (induction ids arbitrary: t)
  case Nil
  then show ?case by (intro exI [of _ "[]"]) (simp add: add_responses_def fresh_responses_def)
next
  case (Cons i ids)
  let ?x = "\<lparr>p_id = c_string (sc i), p_session = c_string s\<rparr>"
  from Cons.prems consider "claim_ids pure_query sc e s ids (t, sv) = (Inr u, p)"
    | "claim_ids pure_query sc e s ids (add_responses [?x] t, sv) = (Inr u, p)" "p_id ?x \<notin> p_id ` set (response_rows t)"
    by (auto simp: bnd_Inr pure_data_Inr add_responses_def split: if_splits list.splits)
  then show ?case
  proof cases
    case 1
    with Cons show ?thesis by blast
  next
    case 2
    with Cons.prems(2) have "distinct (map p_id (response_rows (add_responses [?x] t)))"
      by (simp add: add_responses_def)
    with Cons.IH 2 obtain new where "p = (add_responses new (add_responses [?x] t), sv)"
      "fresh_responses (add_responses [?x] t) (c_string s) new" by blast
    then show ?thesis
      by (intro exI [of _ "?x # new"]) (simp add: add_responses_def fresh_responses_def)
  qed
qed

lemma reservation_ok:
  assumes "find_reservation pure_query i (t, sv) = (Inr r, p)"
  shows "p = (t, sv)" and "\<exists>h\<in>set (handoff_rows t). \<exists>x\<in>set (session_rows t). h_id h = c_string i \<and>
    r_id x = c_string (h_source h) \<and>
    r = \<lparr>rID = i, rSource = sOrigin (session_at (h_source h) x), rTarget = h_target h,
         rCheckpointID = h_checkpoint h, rDigest = h_digest h, rConsumedBy = h_consumed_by h\<rparr>"
proof -
  from assms obtain a b c d e x st rq p' where rows:
    "map (\<lambda>h. [h_source h, h_target h, h_checkpoint h, h_digest h, h_consumed_by h])
      (filter (\<lambda>h. h_id h = c_string i) (handoff_rows t)) = [[a, b, c, d, e]]"
    and l: "lookup pure_query a (t, sv) = (Inr (x, st, rq), p)"
    and r: "r = \<lparr>rID = i, rSource = sOrigin x, rTarget = b, rCheckpointID = c, rDigest = d, rConsumedBy = e\<rparr>"
    by (auto simp: find_reservation_def bnd_Inr pure_data_Inr split: list.splits)
  from lookup_ok(1) [OF l] show "p = (t, sv)" .
  from filter_single [OF rows] lookup_ok(2) [OF l] r
  show "\<exists>h\<in>set (handoff_rows t). \<exists>x\<in>set (session_rows t). h_id h = c_string i \<and> r_id x = c_string (h_source h) \<and>
    r = \<lparr>rID = i, rSource = sOrigin (session_at (h_source h) x), rTarget = h_target h,
         rCheckpointID = h_checkpoint h, rDigest = h_digest h, rConsumedBy = h_consumed_by h\<rparr>"
    by auto
qed

section \<open>Effects of the operations\<close>

lemma same_session:
  "aff_inv t \<Longrightarrow> r \<in> set (session_rows t) \<Longrightarrow> r' \<in> set (session_rows t) \<Longrightarrow> r_id r = r_id r' \<Longrightarrow> r = r'"
  by (auto simp: aff_inv_def sessions_ok_def distinct_map dest: inj_onD)

lemma c_string_valid [simp]: "aff_valid v \<Longrightarrow> c_string v = v"
  by (auto simp: aff_valid_def c_string_def takeWhile_eq_all_conv)

lemma c_string_slot [simp]: "slot_valid v \<Longrightarrow> c_string v = v"
  by (drule slot_valid_cases) (auto simp: c_string_def)

lemma c_string_idem [simp]: "c_string (c_string v) = c_string v"
  by (simp add: c_string_def)

lemma begin_effect:
  assumes "begin_body pure_query o1 refs inputs rnd now (t, sv) = (Inr l, p)"
    and "distinct (map p_id (response_rows t))"
  shows "\<exists>r\<in>set (session_rows t). \<exists>new. r_id r = c_string (Session o1) \<and> r_state r = ''ready'' \<and>
    r_id r \<notin> set (pending_sources (handoff_rows t)) \<and> fresh_responses t (r_id r) new \<and>
    l = \<lparr>lSession = session_at (Session o1) r, lRequest = rnd\<rparr> \<and> sOrigin (lSession l) = o1 \<and>
    (\<forall>i\<in>set refs. \<exists>x\<in>set (response_rows t). p_id x = c_string (historyScope i (Session o1)) \<and> p_session x = Session o1) \<and>
    p = (set_state (r_id r) ''inflight'' (c_string rnd) (stamp now) (add_responses new t), sv)"
proof -
  from assms(1) obtain x p1 p2 p3 u v where
    a: "ready_body pure_query o1 (t, sv) = (Inr x, p1)" and
    b: "check_refs pure_query (Session o1) refs p1 = (Inr u, p2)" and
    c: "claim_ids pure_query (\<lambda>i. i) Unknown (Session o1) inputs p2 = (Inr v, p3)" and
    d: "bnd (pure_query (UpdInflight rnd (stamp now) (Session o1))) (\<lambda>_. ret \<lparr>lSession = x, lRequest = rnd\<rparr>) p3 = (Inr l, p)"
    by (auto simp: begin_body_def bnd_Inr)
  note a' = ready_ok [OF a]
  note b' = check_refs_ok [OF b [unfolded a'(1)]]
  then obtain new where "p3 = (add_responses new t, sv)" "fresh_responses t (c_string (Session o1)) new"
    using claim_ids_ok c assms(2) by blast
  moreover from this d have "p = (set_state (c_string (Session o1)) ''inflight'' (c_string rnd) (stamp now) (add_responses new t), sv)"
    "l = \<lparr>lSession = x, lRequest = rnd\<rparr>"
    by (auto simp: bnd_Inr pure_data_Inr set_state_def)
  moreover from a'(2) obtain r where "r \<in> set (session_rows t)" "r_id r = c_string (Session o1)" "r_state r = ''ready''"
    "x = session_at (Session o1) r" "sOrigin x = o1" "r_id r \<notin> set (pending_sources (handoff_rows t))" by blast
  ultimately show ?thesis using b' by (intro bexI [of _ r] exI [of _ new]) auto
qed

lemma finish_effect:
  assumes "finish_body pure_query l ids ok now (t, sv) = (Inr u, p)"
    and "distinct (map p_id (response_rows t))"
  shows "\<exists>r\<in>set (session_rows t). \<exists>new. r_id r = c_string (Session (sOrigin (lSession l))) \<and>
    r_state r = ''inflight'' \<and> r_request r = lRequest l \<and>
    session_at (Session (sOrigin (lSession l))) r = lSession l \<and>
    (if ok then fresh_responses t (r_id r) new else new = []) \<and>
    p = (set_state (r_id r) (if ok then ''ready'' else ''blocked'') [] (stamp now) (add_responses new t), sv)"
proof -
  let ?i = "Session (sOrigin (lSession l))"
  from assms(1) obtain x st rq p1 p2 v where
    a: "lookup pure_query ?i (t, sv) = (Inr (x, st, rq), p1)" and
    g: "st = ''inflight''" "rq = lRequest l" "x = lSession l" and
    c: "(if ok then claim_ids pure_query (\<lambda>i. historyScope i ?i) Conflict ?i ids else ret ()) p1 = (Inr v, p2)" and
    d: "bnd (pure_query (UpdState (if ok then ''ready'' else ''blocked'') (stamp now) ?i)) (\<lambda>_. ret ()) p2 = (Inr u, p)"
    by (auto simp: finish_body_def bnd_Inr Let_def split: if_splits)
  note a' = lookup_ok [OF a]
  from c a'(1) have "\<exists>new. p2 = (add_responses new t, sv) \<and> (if ok then fresh_responses t (c_string ?i) new else new = [])"
    using claim_ids_ok [OF _ assms(2)] by (cases ok) (auto simp: add_responses_def)
  then obtain new where "p2 = (add_responses new t, sv)" "if ok then fresh_responses t (c_string ?i) new else new = []"
    by blast
  moreover from this d have "p = (set_state (c_string ?i) (if ok then ''ready'' else ''blocked'') [] (stamp now) (add_responses new t), sv)"
    by (auto simp: bnd_Inr pure_data_Inr set_state_def c_string_def split: if_splits)
  moreover from a'(2) obtain r where "r \<in> set (session_rows t)" "r_id r = c_string ?i" "st = r_state r"
    "x = session_at ?i r" "rq = r_request r" by blast
  ultimately show ?thesis using g by (intro bexI [of _ r] exI [of _ new]) auto
qed

lemma register_effect:
  assumes "register_body pure_query o1 sl now (t, sv) = (Inr u, p)" and "validOrigin o1" "slot_valid sl"
  shows "Session o1 \<notin> ids_of t \<and> p = (add_session \<lparr>r_id = Session o1, r_project = Project o1,
    r_worktree = Worktree o1, r_branch = Branch o1, r_slot = sl, r_last_seen = stamp now,
    r_state = ''ready'', r_request = []\<rparr> t, sv)"
  using assms
  by (auto simp: register_body_def bnd_Inr pure_data_Inr validOrigin_def ids_of_def add_session_def split: if_splits)

lemma prepare_effect:
  assumes "prepare_body pure_query r now (t, sv) = (Inr u, p)"
    and "validOrigin (rSource r)" "slot_valid (rTarget r)"
  shows "\<exists>x\<in>set (session_rows t). \<exists>h. r_id x = Session (rSource r) \<and> r_state x = ''ready'' \<and> r_slot x \<noteq> rTarget r \<and>
    h = \<lparr>h_id = c_string (rID r), h_source = r_id x, h_target = rTarget r, h_checkpoint = c_string (rCheckpointID r),
         h_digest = c_string (rDigest r), h_consumed_by = [], h_created = stamp now\<rparr> \<and>
    session_at (Session (rSource r)) x = \<lparr>sOrigin = rSource r, Account = r_slot x, Wiki = []\<rparr> \<and>
    r_id x \<notin> set (pending_sources (handoff_rows t)) \<and> h_id h \<notin> h_id ` set (handoff_rows t) \<and>
    p = (t\<lparr>handoff_rows := handoff_rows t @ [h]\<rparr>, sv)"
proof -
  let ?i = "Session (rSource r)"
  have [simp]: "c_string ?i = ?i" "c_string (rTarget r) = rTarget r"
    using assms(2,3) by (simp_all add: validOrigin_def)
  from assms(1) obtain x st rq p1 where
    a: "lookup pure_query ?i (t, sv) = (Inr (x, st, rq), p1)" and
    g: "st = ''ready''" "sOrigin x = rSource r" "Account x \<noteq> rTarget r" and
    c: "bnd (pure_query (SelPending ?i)) (\<lambda>rows. if rows \<noteq> [] then throw Conflict
       else bnd (pure_query (InsHandoff (rID r) ?i (rTarget r) (rCheckpointID r) (rDigest r) (stamp now))) (\<lambda>_. ret ())) p1
       = (Inr u, p)"
    by (auto simp: prepare_body_def bnd_Inr split: if_splits)
  note a' = lookup_ok [OF a]
  from c a'(1) have "?i \<notin> set (pending_sources (handoff_rows t))" and "c_string (rID r) \<notin> h_id ` set (handoff_rows t)"
    and "p = (t\<lparr>handoff_rows := handoff_rows t @ [\<lparr>h_id = c_string (rID r), h_source = ?i, h_target = rTarget r,
      h_checkpoint = c_string (rCheckpointID r), h_digest = c_string (rDigest r), h_consumed_by = [], h_created = stamp now\<rparr>]\<rparr>, sv)"
    using pending_select [of "\<lambda>h. [h_id h]" ?i "handoff_rows t"]
    by (auto simp: bnd_Inr pure_data_Inr handoffs_admissible_def Let_def split: if_splits)
  with a'(2) g show ?thesis by (auto simp: session_at_def)
qed

lemma ex_update:
  "(\<And>r. k (f r) = k r) \<Longrightarrow>
    (\<exists>r\<in>set (map (\<lambda>r. if p r then f r else r) rs). P (k r)) \<longleftrightarrow> (\<exists>r\<in>set rs. P (k r))"
  by (induction rs) auto

lemma touches_block_slot: "touches_slot sl (block_slot sl t) = touches_slot sl t"
proof -
  have "(\<exists>r\<in>set (session_rows (block_slot sl t)). r_slot r = sl \<and> r_id r = i) \<longleftrightarrow>
      (\<exists>r\<in>set (session_rows t). r_slot r = sl \<and> r_id r = i)" for i
    unfolding block_slot_def update_sessions_def session_record
    using ex_update [of "\<lambda>r. (r_slot r, r_id r)" "\<lambda>r. r\<lparr>r_state := ''blocked'', r_request := []\<rparr>"
        "\<lambda>r. r_slot r = sl" "session_rows t" "\<lambda>x. x = (sl, i)"] by simp
  then show ?thesis by (simp add: touches_slot_def fun_eq_iff)
qed

lemma del_pending_sem: "sql_sem (DelPendingSlot sl) t = Some ([], drop_handoffs (touches_slot sl t) t)"
proof -
  have "(\<lambda>h. \<not> (h_consumed_by h = [] \<and> (h_target h = sl \<or>
      h_source h \<in> set (map r_id (filter (\<lambda>r. r_slot r = sl) (session_rows t)))))) = (\<lambda>h. \<not> touches_slot sl t h)"
    by (intro ext) (force simp add: touches_slot_def image_iff)
  then show ?thesis by (simp only: sql_sem.simps drop_handoffs_def)
qed

lemma invalidate_effect:
  assumes "slot_valid sl" and "query_all pure_query [BlockSlot sl, DelPendingSlot sl] (t, sv) = (Inr u, p)"
  shows "p = (drop_handoffs (touches_slot sl t) (block_slot sl t), sv)"
proof -
  have "sql_sem (BlockSlot sl) t = Some ([], block_slot sl t)" by (simp add: block_slot_def)
  with assms have "p = (drop_handoffs (touches_slot sl (block_slot sl t)) (block_slot sl t), sv)"
    by (simp add: bnd_Inr pure_data_Inr del_pending_sem del: sql_sem.simps)
  then show ?thesis by (simp add: touches_block_slot)
qed

lemma cancel_effect:
  assumes "cancel_body pure_query i src (t, sv) = (Inr u, p)"
  shows "\<exists>h\<in>set (handoff_rows t). h_id h = c_string i \<and> h_consumed_by h = [] \<and>
    p = (drop_handoffs (\<lambda>x. h_id x = h_id h) t, sv)"
proof -
  from assms obtain r p1 where a: "find_reservation pure_query i (t, sv) = (Inr r, p1)"
    and g: "rConsumedBy r = []" and d: "bnd (pure_query (DelHandoff i)) (\<lambda>_. ret ()) p1 = (Inr u, p)"
    by (auto simp: cancel_body_def bnd_Inr split: if_splits)
  from reservation_ok [OF a] g d show ?thesis
    by (auto simp: bnd_Inr pure_data_Inr drop_handoffs_def)
qed

lemma bind_effect:
  assumes "bind_body pure_query i o1 now (t, sv) = (Inr x, p)" and "validOrigin o1" and "aff_inv t"
  shows "\<exists>h\<in>set (handoff_rows t). \<exists>src\<in>set (session_rows t). \<exists>r. h_id h = c_string i \<and> h_consumed_by h = [] \<and>
    r_id src = h_source h \<and> r_state src = ''ready'' \<and> Session o1 \<notin> ids_of t \<and>
    r = \<lparr>r_id = Session o1, r_project = Project o1, r_worktree = Worktree o1, r_branch = Branch o1,
         r_slot = h_target h, r_last_seen = stamp now, r_state = ''ready'', r_request = []\<rparr> \<and>
    r_project src = Project o1 \<and> r_worktree src = Worktree o1 \<and> r_branch src = Branch o1 \<and>
    x = \<lparr>sOrigin = o1, Account = h_target h, Wiki = []\<rparr> \<and>
    p = (consume (h_id h) (Session o1) (add_session r t), sv)"
proof -
  have [simp]: "c_string (Session o1) = Session o1" "c_string (Project o1) = Project o1"
    "c_string (Worktree o1) = Worktree o1" "c_string (Branch o1) = Branch o1"
    using assms(2) by (simp_all add: validOrigin_def)
  from assms(1) obtain r p1 y st rq p2 where a: "find_reservation pure_query i (t, sv) = (Inr r, p1)"
    and g: "rConsumedBy r = []" "Session o1 \<noteq> Session (rSource r)" "Project o1 = Project (rSource r)"
      "Worktree o1 = Worktree (rSource r)" "Branch o1 = Branch (rSource r)"
    and b: "lookup pure_query (Session (rSource r)) p1 = (Inr (y, st, rq), p2)" and st: "st = ''ready''"
    and c: "bnd (pure_query (SelSessionId (Session o1))) (\<lambda>rows. if rows \<noteq> [] then throw Conflict
         else bnd (pure_query (InsSession (Session o1) (Project o1) (Worktree o1) (Branch o1) (rTarget r) (stamp now))) (\<lambda>_.
           bnd (pure_query (UpdConsumed (Session o1) i)) (\<lambda>_.
           ret \<lparr>sOrigin = o1, Account = rTarget r, Wiki = []\<rparr>))) p2 = (Inr x, p)"
    by (auto simp: bind_body_def bnd_Inr split: if_splits)
  note a' = reservation_ok [OF a]
  then obtain h src where h: "h \<in> set (handoff_rows t)" "src \<in> set (session_rows t)" "h_id h = c_string i"
    "r_id src = c_string (h_source h)" and r: "r = \<lparr>rID = i, rSource = sOrigin (session_at (h_source h) src),
      rTarget = h_target h, rCheckpointID = h_checkpoint h, rDigest = h_digest h, rConsumedBy = h_consumed_by h\<rparr>"
    by auto
  have hs: "c_string (h_source h) = h_source h"
    using assms(3) h(1) unfolding aff_inv_def handoffs_ok_def sessions_ok_def by metis
  note b' = lookup_ok [OF b [unfolded a'(1)]]
  from b'(2) r st obtain src' where "src' \<in> set (session_rows t)" "r_id src' = h_source h" "r_state src' = ''ready''"
    by (auto simp: session_at_def hs)
  moreover from this h(2,4) have "src' = src"
    by (intro same_session [OF assms(3)]) (simp_all add: hs)
  moreover have tg: "c_string (h_target h) = h_target h"
    using assms(3) h(1) by (auto simp: aff_inv_def handoffs_ok_def slot_valid_iff [symmetric])
  let ?r = "\<lparr>r_id = Session o1, r_project = Project o1, r_worktree = Worktree o1, r_branch = Branch o1,
         r_slot = h_target h, r_last_seen = stamp now, r_state = ''ready'', r_request = []\<rparr>"
  have "Session o1 \<notin> ids_of t \<and> x = \<lparr>sOrigin = o1, Account = h_target h, Wiki = []\<rparr> \<and>
      p = (consume (c_string i) (Session o1) (add_session ?r t), sv)"
    using c b'(1) r tg
    by (auto simp: bnd_Inr pure_data_Inr ids_of_def add_session_def consume_def Let_def split: if_splits)
  ultimately show ?thesis
    using h r g hs by (intro bexI [of _ h] bexI [of _ src]) (auto simp: session_at_def)
qed

section \<open>Steps and runs\<close>

text \<open>One operation on tables with no transaction open.\<close>

definition pure_step :: "aff_event \<Rightarrow> tables \<Rightarrow> aff_value res \<times> tables" where
  "pure_step ev t =
     (case aff_exec pure_query ev (Some (t, None)) of (r, s) \<Rightarrow> (r, case s of None \<Rightarrow> t | Some p \<Rightarrow> fst p))"

text \<open>A transaction in which the body succeeded.\<close>

lemma transaction_ok:
  assumes "follows (\<lambda>db. db) False f f"
  shows "(\<exists>e. transaction pure_query f (t, None) = (Inl e, t, None)) \<or>
    (\<exists>x t'. f (t, Some t) = (Inr x, t', Some t) \<and> transaction pure_query f (t, None) = (Inr x, t', None))"
proof -
  have "tidy False f" using assms by (simp add: follows_def)
  moreover obtain r t' where "f (t, Some t) = (r, t', Some t)"
    using calculation by (metis tidy_def prod.collapse)
  ultimately show ?thesis by (cases r) (simp_all add: transaction_pure)
qed

lemma read_ok:
  assumes "follows (\<lambda>db. db) True m m"
  shows "snd (m (t, None)) = (t, None)"
  using assms by (simp add: follows_def tidy_def)

lemmas pure_ops = pure.follows_ops

lemma step_register:
  assumes "Register pure_query o1 sl now (Some (t, None)) = (r, s)"
  shows "s = Some (t, None) \<and> isl r \<or> (\<exists>t'. s = Some (t', None) \<and>
    register_body pure_query o1 sl now (t, Some t) = (Inr (), t', Some t) \<and> validOrigin o1 \<and> slot_valid sl \<and>
    r = Inr \<lparr>sOrigin = o1, Account = sl, Wiki = []\<rparr>)"
  using assms transaction_ok [OF pure.follows_register, of o1 sl now t]
  by (auto simp: Register_def on_store_def ret_def split: if_splits)

lemma step_begin:
  assumes "BeginWithInputs pure_query o1 refs inputs rnd now (Some (t, None)) = (r, s)"
  shows "s = Some (t, None) \<and> isl r \<or> (\<exists>t' l. s = Some (t', None) \<and> r = Inr l \<and>
    begin_body pure_query o1 refs inputs rnd now (t, Some t) = (Inr l, t', Some t))"
  using assms transaction_ok [OF pure.follows_begin, of o1 refs inputs rnd now t]
  by (auto simp: BeginWithInputs_def on_store_def)

lemma step_finish:
  assumes "Finish pure_query l ids ok now (Some (t, None)) = (r, s)"
  shows "s = Some (t, None) \<and> isl r \<or> (\<exists>t'. s = Some (t', None) \<and> r = Inr () \<and>
    finish_body pure_query l ids ok now (t, Some t) = (Inr (), t', Some t))"
  using assms transaction_ok [OF pure.follows_finish, of l ids ok now t]
  by (auto simp: Finish_def on_store_def)

lemma step_gc:
  "GC pure_query now (Some (t, None)) = (Inr (), Some (delete_sessions
    (\<lambda>r. r_state r \<noteq> ''inflight'' \<and> r_last_seen r < stamp (now - Retention)) t, None))"
proof -
  have "follows (\<lambda>db. db) False (bnd (pure_query (DelIdleBefore n)) (\<lambda>_. ret ())) (bnd (pure_query (DelIdleBefore n)) (\<lambda>_. ret ()))" for n
    by (intro follow_rules pure.follows_query) simp_all
  then have "tidy False (bnd (pure_query (DelIdleBefore n)) (\<lambda>_. ret ()))" for n by (simp add: follows_def)
  then show ?thesis
    by (simp add: GC_def on_store_def transaction_pure pure_query_in_tx ret_def bnd_def)
qed

lemma step_prepare:
  assumes "PrepareHandoff pure_query rnd src tg cp dg b now (Some (t, None)) = (r, s)"
  shows "s = Some (t, None) \<and> isl r \<or> (\<exists>t' v. s = Some (t', None) \<and>
    v = \<lparr>rID = rnd, rSource = src, rTarget = tg, rCheckpointID = cp, rDigest = dg, rConsumedBy = []\<rparr> \<and>
    prepare_body pure_query v now (t, Some t) = (Inr (), t', Some t) \<and> validOrigin src \<and> slot_valid tg \<and>
    aff_valid cp \<and> validDigest dg \<and> r = Inr v)"
  using assms transaction_ok [OF pure.follows_prepare, of
      "\<lparr>rID = rnd, rSource = src, rTarget = tg, rCheckpointID = cp, rDigest = dg, rConsumedBy = []\<rparr>" now t]
  by (auto simp: PrepareHandoff_def on_store_def ret_def Let_def split: if_splits)

lemma step_invalidate:
  assumes "InvalidateSlot pure_query sl (Some (t, None)) = (r, s)"
  shows "s = Some (t, None) \<and> isl r \<or> (slot_valid sl \<and> r = Inr () \<and>
    s = Some (drop_handoffs (touches_slot sl t) (block_slot sl t), None))"
  using assms transaction_ok [OF pure.follows_all, of "[BlockSlot sl, DelPendingSlot sl]" t]
    invalidate_effect [of sl t "Some t"]
  by (auto simp: InvalidateSlot_def on_store_def simp del: query_all.simps split: if_splits)

lemma step_cancel:
  assumes "CancelHandoff pure_query i src (Some (t, None)) = (r, s)"
  shows "s = Some (t, None) \<and> isl r \<or> (\<exists>t'. s = Some (t', None) \<and> r = Inr () \<and>
    cancel_body pure_query i src (t, Some t) = (Inr (), t', Some t))"
  using assms transaction_ok [OF pure.follows_cancel, of i src t]
  by (auto simp: CancelHandoff_def on_store_def)

lemma step_bind:
  assumes "BindHandoff pure_query i o1 u now (Some (t, None)) = (r, s)"
  shows "s = Some (t, None) \<and> isl r \<or> (\<exists>t' x. s = Some (t', None) \<and> r = Inr x \<and> validOrigin o1 \<and>
    bind_body pure_query i o1 now (t, Some t) = (Inr x, t', Some t))"
  using assms transaction_ok [OF pure.follows_bind, of i o1 now t]
  by (auto simp: BindHandoff_def on_store_def split: if_splits)

lemma on_store_snd: "snd (on_store m (Some db)) = Some (snd (m db))"
  by (simp add: on_store_def split: prod.split)

lemma val_snd: "val f x = (r, s) \<Longrightarrow> s = snd x"
  by (cases x) (auto simp: val_def)

lemma step_reads:
  "snd (Lookup pure_query i (Some (t, None))) = Some (t, None)"
  "snd (Ready pure_query o1 (Some (t, None))) = Some (t, None)"
  "snd (Handoff pure_query i (Some (t, None))) = Some (t, None)"
  "snd (FindHandoff pure_query o1 cp (Some (t, None))) = Some (t, None)"
  "snd (CheckpointReserved pure_query i cp (Some (t, None))) = Some (t, None)"
proof -
  note rules = pure.follows_ops pure.follows_query follow_rules
  have "snd (bnd (lookup pure_query i) (\<lambda>(x, _, _). ret x) (t, None)) = (t, None)"
    by (intro read_ok rules)
  then show "snd (Lookup pure_query i (Some (t, None))) = Some (t, None)"
    by (simp add: Lookup_def on_store_snd)
  have "snd (bnd (ready_body pure_query o1) (\<lambda>_. ret ()) (t, None)) = (t, None)"
    by (intro read_ok rules)
  then show "snd (Ready pure_query o1 (Some (t, None))) = Some (t, None)"
    by (simp add: Ready_def on_store_snd)
  have "snd (find_reservation pure_query i (t, None)) = (t, None)"
    by (intro read_ok rules)
  then show "snd (Handoff pure_query i (Some (t, None))) = Some (t, None)"
    by (simp add: Handoff_def on_store_snd)
  have "snd ((if \<not> validOrigin o1 \<or> \<not> aff_valid cp then throw Conflict
       else bnd (pure_query (SelHandoffOf (Session o1) cp)) (\<lambda>rows. case rows of [] \<Rightarrow> ret None
         | [[i]] \<Rightarrow> bnd (find_reservation pure_query i) (\<lambda>r.
             if rSource r \<noteq> o1 then throw Conflict else ret (Some r))
         | _ \<Rightarrow> throw Conflict)) (t, None)) = (t, None)"
    by (intro read_ok rules) simp_all
  then show "snd (FindHandoff pure_query o1 cp (Some (t, None))) = Some (t, None)"
    by (simp add: FindHandoff_def on_store_snd)
  have "snd (bnd (pure_query (SelHandoffOf i cp)) (\<lambda>rows. ret (rows \<noteq> [])) (t, None)) = (t, None)"
    by (intro read_ok rules) simp_all
  then show "snd (CheckpointReserved pure_query i cp (Some (t, None))) = Some (t, None)"
    by (simp add: CheckpointReserved_def on_store_snd)
qed

lemma begin_spec:
  assumes "begin_body pure_query o1 refs inputs rnd now (t, sv) = (Inr l, t', sv')"
    and "distinct (map p_id (response_rows t))"
  shows "aff_effect (EBegin o1 refs inputs rnd now) t t'"
proof -
  from begin_effect [OF assms] obtain r new where "r \<in> set (session_rows t)" "r_id r = c_string (Session o1)"
    "r_state r = ''ready''" "r_id r \<notin> set (pending_sources (handoff_rows t))" "fresh_responses t (r_id r) new"
    and "t' = set_state (r_id r) ''inflight'' (c_string rnd) (stamp now) (add_responses new t)" by blast
  then show ?thesis using aff_effect.claim by simp
qed

lemma finish_spec:
  assumes "finish_body pure_query l ids ok now (t, sv) = (Inr u, t', sv')"
    and "distinct (map p_id (response_rows t))"
  shows "aff_effect (EFinish l ids ok now) t t'"
proof -
  from finish_effect [OF assms] obtain r new where "r \<in> set (session_rows t)"
    "r_id r = c_string (Session (sOrigin (lSession l)))" "r_state r = ''inflight''" "r_request r = lRequest l"
    "if ok then fresh_responses t (r_id r) new else new = []"
    and "t' = set_state (r_id r) (if ok then ''ready'' else ''blocked'') [] (stamp now) (add_responses new t)"
    by blast
  then show ?thesis using aff_effect.finish by metis
qed

lemma bind_spec:
  assumes "bind_body pure_query i o1 now (t, sv) = (Inr x, t', sv')" and "validOrigin o1" and "aff_inv t"
  shows "aff_effect (EBind i o1 u now) t t'"
proof -
  from bind_effect [OF assms] obtain h src where "h \<in> set (handoff_rows t)" "src \<in> set (session_rows t)"
    "h_id h = c_string i" "h_consumed_by h = []" "r_id src = h_source h" "r_state src = ''ready''"
    "Session o1 \<notin> ids_of t" and "t' = consume (h_id h) (Session o1) (add_session \<lparr>r_id = Session o1,
      r_project = Project o1, r_worktree = Worktree o1, r_branch = Branch o1, r_slot = h_target h,
      r_last_seen = stamp now, r_state = ''ready'', r_request = []\<rparr> t)" by blast
  moreover have "Session o1 \<noteq> []" "c_string (Session o1) = Session o1"
    using assms(2) by (simp_all add: validOrigin_def) (simp add: aff_valid_def)
  ultimately show ?thesis
    using aff_effect.bind [where h = h and t = t and i = i and src = src and u = u and now = now and
        r = "\<lparr>r_id = Session o1, r_project = Project o1, r_worktree = Worktree o1, r_branch = Branch o1,
          r_slot = h_target h, r_last_seen = stamp now, r_state = ''ready'', r_request = []\<rparr>" and ?o1.0 = o1]
    by simp
qed

text \<open>An operation on the reference connection fails and changes nothing, only reads, or has an
  effect of the specification.\<close>

lemma pure_exec_effect:
  assumes inv: "aff_inv t" and ex: "aff_exec pure_query ev (Some (t, None)) = (r, s)"
  shows "s = Some (t, None) \<or> (is_ok r \<and> (\<exists>t'. s = Some (t', None) \<and> aff_effect ev t t'))"
proof -
  have d: "distinct (map p_id (response_rows t))" using inv by (simp add: aff_inv_def)
  show ?thesis
  proof (cases ev)
    case (ERegister o1 sl now)
    with ex obtain v where "Register pure_query o1 sl now (Some (t, None)) = (v, s)" "r = map_sum (\<lambda>e. e) VSession v"
      by (cases "Register pure_query o1 sl now (Some (t, None))") (auto simp: val_def)
    with step_register [OF this(1)] show ?thesis
      by (auto simp: ERegister slot_valid_iff [symmetric] validOrigin_def dest!: register_effect
          intro!: aff_effect.register)
  next
    case (EBegin o1 refs inputs rnd now)
    with ex obtain v where "BeginWithInputs pure_query o1 refs inputs rnd now (Some (t, None)) = (v, s)"
      "r = map_sum (\<lambda>e. e) VLease v"
      by (cases "BeginWithInputs pure_query o1 refs inputs rnd now (Some (t, None))") (auto simp: val_def)
    with step_begin [OF this(1)] show ?thesis
      using begin_spec [OF _ d] by (auto simp: EBegin)
  next
    case (EFinish l ids ok now)
    with ex obtain v where "Finish pure_query l ids ok now (Some (t, None)) = (v, s)" "r = map_sum (\<lambda>e. e) (\<lambda>_. VUnit) v"
      by (cases "Finish pure_query l ids ok now (Some (t, None))") (auto simp: val_def)
    with step_finish [OF this(1)] show ?thesis
      using finish_spec [OF _ d] by (auto simp: EFinish)
  next
    case (EGC now)
    with ex show ?thesis by (auto simp: val_def step_gc intro: aff_effect.gc)
  next
    case (EPrepare rnd src tg cp dg b now)
    with ex obtain v where "PrepareHandoff pure_query rnd src tg cp dg b now (Some (t, None)) = (v, s)"
      "r = map_sum (\<lambda>e. e) VReservation v"
      by (cases "PrepareHandoff pure_query rnd src tg cp dg b now (Some (t, None))") (auto simp: val_def)
    with step_prepare [OF this(1)] show ?thesis
      by (auto simp: EPrepare slot_valid_iff [symmetric] dest!: prepare_effect intro!: aff_effect.prepare)
  next
    case (EInvalidate sl)
    with ex obtain v where "InvalidateSlot pure_query sl (Some (t, None)) = (v, s)" "r = map_sum (\<lambda>e. e) (\<lambda>_. VUnit) v"
      by (cases "InvalidateSlot pure_query sl (Some (t, None))") (auto simp: val_def)
    with step_invalidate [OF this(1)] show ?thesis
      by (auto simp: EInvalidate intro: aff_effect.invalidate)
  next
    case (ECancel i src)
    with ex obtain v where "CancelHandoff pure_query i src (Some (t, None)) = (v, s)" "r = map_sum (\<lambda>e. e) (\<lambda>_. VUnit) v"
      by (cases "CancelHandoff pure_query i src (Some (t, None))") (auto simp: val_def)
    with step_cancel [OF this(1)] show ?thesis
      by (auto simp: ECancel dest!: cancel_effect intro!: aff_effect.cancel)
  next
    case (EBind i o1 u now)
    with ex obtain v where "BindHandoff pure_query i o1 u now (Some (t, None)) = (v, s)" "r = map_sum (\<lambda>e. e) VSession v"
      by (cases "BindHandoff pure_query i o1 u now (Some (t, None))") (auto simp: val_def)
    with step_bind [OF this(1)] show ?thesis
      using bind_spec [OF _ _ inv] by (auto simp: EBind)
  qed (use ex in \<open>auto simp: step_reads dest!: val_snd\<close>)
qed

end
