(* ===== verification/Affinity_Props.thy ===== *)
theory Affinity_Props
  imports Affinity_Spec
begin

text \<open>
  The promises of the affinity store, over any connection and any sequence of operations: the
  table invariant, exclusive requests, permanent blocking after a failure, immovable ownership of
  sessions and response identifiers, handoffs consumed once, slot invalidation and collection.
\<close>

section \<open>Runs over any connection\<close>

definition run_events :: "'db conn \<Rightarrow> aff_event list \<Rightarrow> 'db store \<Rightarrow> 'db store" where
  "run_events q evs s = foldl (\<lambda>s ev. snd (aff_exec q ev s)) s evs"

inductive aff_steps :: "aff_event list \<Rightarrow> tables \<Rightarrow> tables \<Rightarrow> bool" where
  nil: "aff_steps [] t t"
| skip: "aff_steps evs t t' \<Longrightarrow> aff_steps (ev # evs) t t'"
| step: "aff_effect ev t t1 \<Longrightarrow> aff_steps evs t1 t2 \<Longrightarrow> aff_steps (ev # evs) t t2"

lemma aff_steps_keep:
  assumes "aff_steps evs t t'" and "aff_inv t" and "P t"
    and "\<And>ev t t'. ev \<in> set evs \<Longrightarrow> aff_effect ev t t' \<Longrightarrow> aff_inv t \<Longrightarrow> P t \<Longrightarrow> P t'"
  shows "P t' \<and> aff_inv t'"
  using assms by (induction rule: aff_steps.induct) (auto simp: aff_effect_inv)

text \<open>The tables of an open store between operations.\<close>

definition holds :: "('db \<Rightarrow> pure_db) \<Rightarrow> 'db store \<Rightarrow> tables \<Rightarrow> bool" where
  "holds view s t \<longleftrightarrow> (\<exists>db. s = Some db \<and> view db = (t, None)) \<and> aff_inv t"

lemma exec_step:
  assumes "sql_engine q view" and "holds view s t" and "aff_exec q ev s = (r, s')"
  obtains t' where "holds view s' t'" and "t' = t \<or> aff_effect ev t t'"
    and "aff_exec pure_query ev (Some (t, None)) = (r, Some (t', None)) \<or> (r = Inl storage \<and> t' = t)"
proof -
  from assms(2) obtain db where s: "s = Some db" "view db = (t, None)" and inv: "aff_inv t"
    by (auto simp: holds_def)
  obtain db' where db': "s' = Some db'" "snd (view db') = None"
    "aff_exec pure_query ev (Some (t, None)) = (r, Some (view db')) \<or> (r = Inl storage \<and> view db' = (t, None))"
    using sql_engine.aff_exec_agrees [OF assms(1), of db ev] s assms(3) by auto
  then obtain t' where t': "view db' = (t', None)" by (cases "view db'") simp
  have eff: "t' = t \<or> aff_effect ev t t'"
    using db'(3) t' pure_exec_effect [OF inv, of ev r] by fastforce
  then have "aff_inv t'" using inv aff_effect_inv by blast
  then show thesis
    using that [of t'] db' t' eff by (auto simp: holds_def)
qed

lemma run_steps:
  assumes "sql_engine q view" and "holds view s t"
  shows "\<exists>t'. holds view (run_events q evs s) t' \<and> aff_steps evs t t'"
  using assms(2)
proof (induction evs arbitrary: s t)
  case Nil
  then show ?case by (auto simp: run_events_def intro: aff_steps.nil)
next
  case (Cons ev evs)
  obtain r s' where e: "aff_exec q ev s = (r, s')" by (cases "aff_exec q ev s")
  obtain t1 where t1: "holds view s' t1" "t1 = t \<or> aff_effect ev t t1"
    using exec_step [OF assms(1) Cons.prems e] by blast
  with Cons.IH [OF t1(1)] e show ?case
    by (auto simp: run_events_def intro: aff_steps.intros)
qed

lemma holds_unique: "holds view s t \<Longrightarrow> holds view s t' \<Longrightarrow> t = t'"
  by (auto simp: holds_def)

lemma run_keep:
  assumes "sql_engine q view" and "holds view s t" and "holds view (run_events q evs s) t'" and "P t"
    and "\<And>ev t t'. ev \<in> set evs \<Longrightarrow> aff_effect ev t t' \<Longrightarrow> aff_inv t \<Longrightarrow> P t \<Longrightarrow> P t'"
  shows "P t'"
proof -
  obtain t2 where "holds view (run_events q evs s) t2" "aff_steps evs t t2"
    using run_steps [OF assms(1,2)] by blast
  with assms(2,4,5) aff_steps_keep [of evs t t2 P] holds_unique [OF assms(3)] show ?thesis
    by (auto simp: holds_def)
qed

text \<open>A result that is not the storage error is the reference result.\<close>

lemma exec_ok:
  assumes "sql_engine q view" and "holds view s t" and "aff_exec q ev s = (Inr v, s')"
  shows "\<exists>t'. holds view s' t' \<and> aff_exec pure_query ev (Some (t, None)) = (Inr v, Some (t', None))"
  using exec_step [OF assms] by blast

lemma val_Inr: "val f x = (Inr v, s) \<longleftrightarrow> (\<exists>y. x = (Inr y, s) \<and> v = f y)"
  by (cases x; cases "fst x") (auto simp: val_def)

lemma exec_Inr:
  "x = (Inr y, s) \<Longrightarrow> val f x = (Inr (f y), s)"
  by (simp add: val_def)

section \<open>Successful operations over any connection\<close>

lemma begin_any:
  assumes "sql_engine q view" and "holds view s t" and "BeginWithInputs q o1 refs inputs rnd now s = (Inr l, s')"
  shows "\<exists>t'. holds view s' t' \<and> begin_body pure_query o1 refs inputs rnd now (t, Some t) = (Inr l, t', Some t)"
proof -
  have "aff_exec q (EBegin o1 refs inputs rnd now) s = (Inr (VLease l), s')"
    using assms(3) by (simp add: val_def)
  from exec_ok [OF assms(1,2) this] show ?thesis
    by (auto simp: val_Inr dest!: step_begin)
qed

lemma holds_distinct: "holds view s t \<Longrightarrow> distinct (map p_id (response_rows t))"
  by (simp add: holds_def aff_inv_def)

lemma begin_ready:
  assumes "sql_engine q view" and "holds view s t" and "BeginWithInputs q o1 refs inputs rnd now s = (Inr l, s')"
  shows "\<exists>r\<in>set (session_rows t). r_id r = c_string (Session o1) \<and> r_state r = ''ready''"
proof -
  obtain t' where "begin_body pure_query o1 refs inputs rnd now (t, Some t) = (Inr l, t', Some t)"
    using begin_any [OF assms] by blast
  from begin_effect [OF this holds_distinct [OF assms(2)]] show ?thesis by blast
qed

lemma finish_any:
  assumes "sql_engine q view" and "holds view s t" and "Finish q l ids ok now s = (Inr u, s')"
  shows "\<exists>t'. holds view s' t' \<and> finish_body pure_query l ids ok now (t, Some t) = (Inr (), t', Some t)"
proof -
  have "aff_exec q (EFinish l ids ok now) s = (Inr VUnit, s')"
    using assms(3) by (simp add: val_def)
  from exec_ok [OF assms(1,2) this] show ?thesis
    by (auto simp: val_Inr dest!: step_finish)
qed

lemma bind_any:
  assumes "sql_engine q view" and "holds view s t" and "BindHandoff q i o1 u now s = (Inr x, s')"
  shows "\<exists>t'. holds view s' t' \<and> validOrigin o1 \<and> bind_body pure_query i o1 now (t, Some t) = (Inr x, t', Some t)"
proof -
  have "aff_exec q (EBind i o1 u now) s = (Inr (VSession x), s')"
    using assms(3) by (simp add: val_def)
  from exec_ok [OF assms(1,2) this] show ?thesis
    by (auto simp: val_Inr dest!: step_bind)
qed

lemma prepare_any:
  assumes "sql_engine q view" and "holds view s t" and "PrepareHandoff q rnd src tg cp dg b now s = (Inr v, s')"
  shows "\<exists>t'. holds view s' t' \<and> prepare_body pure_query v now (t, Some t) = (Inr (), t', Some t) \<and>
    validOrigin src \<and> slot_valid tg \<and> aff_valid cp \<and> validDigest dg \<and>
    v = \<lparr>rID = rnd, rSource = src, rTarget = tg, rCheckpointID = cp, rDigest = dg, rConsumedBy = []\<rparr>"
proof -
  have "aff_exec q (EPrepare rnd src tg cp dg b now) s = (Inr (VReservation v), s')"
    using assms(3) by (simp add: val_def)
  from exec_ok [OF assms(1,2) this] show ?thesis
    by (auto simp: val_Inr dest!: step_prepare)
qed

lemma cancel_any:
  assumes "sql_engine q view" and "holds view s t" and "CancelHandoff q i src s = (Inr u, s')"
  shows "\<exists>t'. holds view s' t' \<and> cancel_body pure_query i src (t, Some t) = (Inr (), t', Some t)"
proof -
  have "aff_exec q (ECancel i src) s = (Inr VUnit, s')"
    using assms(3) by (simp add: val_def)
  from exec_ok [OF assms(1,2) this] show ?thesis
    by (auto simp: val_Inr dest!: step_cancel)
qed

lemma invalidate_any:
  assumes "sql_engine q view" and "holds view s t" and "InvalidateSlot q sl s = (Inr u, s')"
  shows "slot_valid sl \<and> holds view s' (drop_handoffs (touches_slot sl t) (block_slot sl t))"
proof -
  have "aff_exec q (EInvalidate sl) s = (Inr VUnit, s')"
    using assms(3) by (simp add: val_def)
  from exec_ok [OF assms(1,2) this] show ?thesis
    by (auto simp: val_Inr dest!: step_invalidate)
qed

lemma gc_any:
  assumes "sql_engine q view" and "holds view s t" and "GC q now s = (Inr u, s')"
  shows "holds view s' (delete_sessions
    (\<lambda>r. r_state r \<noteq> ''inflight'' \<and> r_last_seen r < stamp (now - Retention)) t)"
proof -
  have "aff_exec q (EGC now) s = (Inr VUnit, s')"
    using assms(3) by (simp add: val_def)
  from exec_ok [OF assms(1,2) this] show ?thesis
    by (auto simp: val_Inr step_gc)
qed

lemma lookup_any:
  assumes "sql_engine q view" and "holds view s t" and "Lookup q i s = (Inr x, s')"
  shows "holds view s' t \<and> (\<exists>r\<in>set (session_rows t). r_id r = c_string i \<and> x = session_at i r)"
proof -
  have "aff_exec q (ELookup i) s = (Inr (VSession x), s')"
    using assms(3) by (simp add: val_def)
  from exec_ok [OF assms(1,2) this] obtain t' where "holds view s' t'"
    and l: "Lookup pure_query i (Some (t, None)) = (Inr x, Some (t', None))"
    by (auto simp: val_Inr)
  moreover have "t' = t" using l step_reads(1) [of i t] by simp
  moreover from l obtain st rq p where "lookup pure_query i (t, None) = (Inr (x, st, rq), p)"
    by (cases "lookup pure_query i (t, None)") (auto simp: Lookup_def on_store_def bnd_Inr split: prod.splits)
  ultimately show ?thesis using lookup_ok(2) by blast
qed

lemma ready_any:
  assumes "sql_engine q view" and "holds view s t" and "Ready q o1 s = (Inr u, s')"
  shows "\<exists>r\<in>set (session_rows t). r_id r = c_string (Session o1) \<and> r_state r = ''ready''"
proof -
  have "aff_exec q (EReady o1) s = (Inr VUnit, s')"
    using assms(3) by (simp add: val_def)
  from exec_ok [OF assms(1,2) this] obtain t' where "Ready pure_query o1 (Some (t, None)) = (Inr (), Some (t', None))"
    by (auto simp: val_Inr)
  then obtain x p where "ready_body pure_query o1 (t, None) = (Inr x, p)"
    by (auto simp: Ready_def on_store_def bnd_Inr split: prod.splits)
  from ready_ok(2) [OF this] show ?thesis by blast
qed

section \<open>Exclusive requests and permanent blocking\<close>

text \<open>Events that create a session, and successful completions of a request.\<close>

fun creates :: "string \<Rightarrow> aff_event \<Rightarrow> bool" where
  "creates i (ERegister o1 _ _) = (Session o1 = i)"
| "creates i (EBind _ o1 _ _) = (Session o1 = i)"
| "creates i _ = False"

fun completes :: "string \<Rightarrow> aff_event \<Rightarrow> bool" where
  "completes rq (EFinish l _ ok _) = (ok \<and> lRequest l = rq)"
| "completes rq _ = False"

text \<open>The session is blocked, or busy with this request (or gone).\<close>

definition held_by :: "string \<Rightarrow> string \<Rightarrow> tables \<Rightarrow> bool" where
  "held_by i rq t \<longleftrightarrow> (\<forall>r\<in>set (session_rows t). r_id r = i \<longrightarrow>
     r_state r = ''blocked'' \<or> (r_state r = ''inflight'' \<and> r_request r = rq))"

definition stopped :: "string \<Rightarrow> tables \<Rightarrow> bool" where
  "stopped i t \<longleftrightarrow> (\<forall>r\<in>set (session_rows t). r_id r = i \<longrightarrow> r_state r = ''blocked'')"

lemmas effect_defs = add_session_def set_state_def add_responses_def update_sessions_def delete_sessions_def
  drop_handoffs_def block_slot_def consume_def

lemma held_by_effect:
  assumes "aff_effect ev t t'" and "aff_inv t" and "held_by i rq t" and "\<not> creates i ev" "\<not> completes rq ev"
  shows "held_by i rq t'"
  using assms
proof (induction rule: aff_effect.induct)
  case (claim r t o1 new refs inputs rnd now)
  then have "r_id r \<noteq> i" by (auto simp: held_by_def)
  with claim show ?case by (auto simp: held_by_def effect_defs)
next
  case (finish r t l ok new ids now)
  then have "r_id r = i \<Longrightarrow> r_request r = rq" by (auto simp: held_by_def)
  with finish show ?case by (auto simp: held_by_def effect_defs)
qed (auto simp: held_by_def effect_defs Let_def)

lemma stopped_effect:
  assumes "aff_effect ev t t'" and "stopped i t" and "\<not> creates i ev"
  shows "stopped i t'"
  using assms by (induction rule: aff_effect.induct) (auto simp: stopped_def effect_defs Let_def)

lemma held_by_run:
  assumes "sql_engine q view" and "holds view s t" and "holds view (run_events q evs s) t'"
    and "held_by i rq t" and "\<forall>ev\<in>set evs. \<not> creates i ev \<and> \<not> completes rq ev"
  shows "held_by i rq t'"
  using run_keep [OF assms(1-3), of "held_by i rq"] held_by_effect assms(4,5) by blast

lemma stopped_run:
  assumes "sql_engine q view" and "holds view s t" and "holds view (run_events q evs s) t'"
    and "stopped i t" and "\<forall>ev\<in>set evs. \<not> creates i ev"
  shows "stopped i t'"
  using run_keep [OF assms(1-3), of "stopped i"] stopped_effect assms(4,5) by blast

text \<open>C2: Requests of one session are exclusive, durably: after \<^verbatim>\<open>BeginWithInputs\<close> succeeded for a
  session, whatever sequence of operations follows on whatever connection (failing statements
  included), no further \<^verbatim>\<open>BeginWithInputs\<close> for that session succeeds, until \<^verbatim>\<open>Finish\<close> reports success
  for exactly the request of the first one (or the session has been collected and is registered
  anew). In particular two overlapping requests never share a session.\<close>

theorem begin_exclusive:
  assumes "sql_engine q view" and "holds view s t"
    and "BeginWithInputs q o1 refs inputs rnd now s = (Inr l, s1)"
    and "\<forall>ev\<in>set evs. \<not> creates (c_string (Session o1)) ev \<and> \<not> completes (c_string rnd) ev"
    and "c_string (Session o2) = c_string (Session o1)"
  shows "isl (fst (BeginWithInputs q o2 refs2 inputs2 rnd2 now2 (run_events q evs s1)))"
proof (rule ccontr)
  assume "\<not> ?thesis"
  then obtain l2 s3 where b2: "BeginWithInputs q o2 refs2 inputs2 rnd2 now2 (run_events q evs s1) = (Inr l2, s3)"
    by (metis isl_def prod.collapse sum.collapse(2))
  obtain t1 where t1: "holds view s1 t1" "begin_body pure_query o1 refs inputs rnd now (t, Some t) = (Inr l, t1, Some t)"
    using begin_any [OF assms(1-3)] by blast
  have "held_by (c_string (Session o1)) (c_string rnd) t1"
    using begin_effect [OF t1(2)] assms(2) by (auto simp: held_by_def effect_defs holds_def aff_inv_def)
  moreover obtain t2 where t2: "holds view (run_events q evs s1) t2"
    using run_steps [OF assms(1) t1(1)] by blast
  ultimately have "held_by (c_string (Session o1)) (c_string rnd) t2"
    using held_by_run [OF assms(1) t1(1) t2 _ assms(4)] by blast
  then show False using begin_ready [OF assms(1) t2 b2] assms(5) by (auto simp: held_by_def)
qed

text \<open>A store with one ready session, and one with a ready and an inflight session.\<close>

definition sample_row :: session_row where
  "sample_row = \<lparr>r_id = ''s'', r_project = ''p'', r_worktree = ''w'', r_branch = ''b'', r_slot = ''a'',
     r_last_seen = 5, r_state = ''ready'', r_request = []\<rparr>"

definition sample_tables :: tables where
  "sample_tables = empty_tables\<lparr>session_rows := [sample_row]\<rparr>"

definition one :: origin where
  "one = \<lparr>Project = ''p'', Worktree = ''w'', Branch = ''b'', Session = ''s''\<rparr>"

lemma sample_inv: "aff_inv sample_tables"
  by (simp add: sample_tables_def sample_row_def empty_tables_def aff_inv_def sessions_ok_def handoffs_ok_def
      pending_sources_def session_states_def c_string_def slot_all_def)

lemma sample_holds: "holds (\<lambda>db. db) (Some (sample_tables, None)) sample_tables"
  by (simp add: holds_def sample_inv)

lemma sample_holds_faulty: "holds snd (Some (fs, sample_tables, None)) sample_tables"
  by (simp add: holds_def sample_inv)

lemmas engine_axioms = pure.sql_engine_axioms faulty.sql_engine_axioms

theorem affinity_atomic_witness:
  "\<exists>db'. snd (aff_exec faulty_query (EBegin one [] [''m''] ''k'' 0)
      (Some ([None, None, None, None, None, Some True], sample_tables, None))) = Some db' \<and>
    snd (snd db') = None \<and> snd db' = (sample_tables, None)"
proof -
  have "fst (aff_exec faulty_query (EBegin one [] [''m''] ''k'' 0)
      (Some ([None, None, None, None, None, Some True], sample_tables, None))) = Inl storage"
    by code_simp
  moreover have "fst (aff_exec pure_query (EBegin one [] [''m''] ''k'' 0) (Some (sample_tables, None))) \<noteq> Inl storage"
    by code_simp
  ultimately show ?thesis
    using affinity_atomic [OF engine_axioms(2), of "([None, None, None, None, None, Some True], sample_tables, None)"
        "EBegin one [] [''m''] ''k'' 0"]
    by auto
qed

definition begun :: "lease res \<times> pure_db store" where
  "begun = BeginWithInputs pure_query one [] [''m''] ''k'' 0 (Some (sample_tables, None))"

definition begun_lease :: lease where
  "begun_lease = \<lparr>lSession = \<lparr>sOrigin = one, Account = ''a'', Wiki = []\<rparr>, lRequest = ''k''\<rparr>"

lemma begun_ok: "BeginWithInputs pure_query one [] [''m''] ''k'' 0 (Some (sample_tables, None)) = (Inr begun_lease, snd begun)"
proof -
  have "fst begun = Inr begun_lease" by code_simp
  then show ?thesis by (metis begun_def prod.collapse)
qed

theorem begin_exclusive_witness:
  "isl (fst (BeginWithInputs pure_query one [] [] ''k2'' 9
    (run_events pure_query [EFinish begun_lease [''x''] False 3, EGC 4] (snd begun))))"
  by (rule begin_exclusive [OF engine_axioms(1) sample_holds begun_ok]) simp_all

lemma stopped_refuses:
  assumes "sql_engine q view" and "holds view s t" and "stopped (c_string (Session o1)) t"
  shows "isl (fst (BeginWithInputs q o1 refs inputs rnd now s))" and "isl (fst (Ready q o1 s))"
    and "isl (fst (PrepareHandoff q rnd o1 tg cp dg b now s))"
proof -
  show "isl (fst (BeginWithInputs q o1 refs inputs rnd now s))"
    using begin_ready [OF assms(1,2), of o1 refs inputs rnd now] assms(3)
    by (cases "BeginWithInputs q o1 refs inputs rnd now s"; cases "fst (BeginWithInputs q o1 refs inputs rnd now s)")
      (auto simp: stopped_def)
  show "isl (fst (Ready q o1 s))"
    using ready_any [OF assms(1,2), of o1] assms(3)
    by (cases "Ready q o1 s"; cases "fst (Ready q o1 s)") (auto simp: stopped_def)
  show "isl (fst (PrepareHandoff q rnd o1 tg cp dg b now s))"
  proof (rule ccontr)
    assume "\<not> ?thesis"
    then obtain v s' where "PrepareHandoff q rnd o1 tg cp dg b now s = (Inr v, s')"
      by (metis isl_def prod.collapse sum.collapse(2))
    from prepare_any [OF assms(1,2) this] obtain t' where
      p: "prepare_body pure_query v now (t, Some t) = (Inr (), t', Some t)" and
      v: "validOrigin (rSource v)" "slot_valid (rTarget v)" "rSource v = o1" by auto
    have "c_string (Session o1) = Session o1" using v by (simp add: validOrigin_def)
    with prepare_effect [OF p v(1,2)] v(3) assms(3) show False by (auto simp: stopped_def)
  qed
qed

text \<open>C4: A failed request blocks its session for good: once \<^verbatim>\<open>Finish\<close> recorded a failure, no later
  sequence of operations makes the session usable again: every \<^verbatim>\<open>Begin\<close>, \<^verbatim>\<open>Ready\<close> and
  \<^verbatim>\<open>PrepareHandoff\<close> for it is refused, on whatever connection, unless the session has been collected and
  is registered as a new conversation.\<close>

theorem failure_blocks_session:
  assumes "sql_engine q view" and "holds view s t" and "Finish q l ids False now s = (Inr u, s1)"
    and "\<forall>ev\<in>set evs. \<not> creates (c_string (Session (sOrigin (lSession l)))) ev"
    and "c_string (Session o1) = c_string (Session (sOrigin (lSession l)))"
  shows "isl (fst (BeginWithInputs q o1 refs inputs rnd now2 (run_events q evs s1))) \<and>
    isl (fst (Ready q o1 (run_events q evs s1))) \<and>
    isl (fst (PrepareHandoff q rnd o1 tg cp dg b now2 (run_events q evs s1)))"
proof -
  obtain t1 where t1: "holds view s1 t1" "finish_body pure_query l ids False now (t, Some t) = (Inr (), t1, Some t)"
    using finish_any [OF assms(1-3)] by blast
  from finish_effect [OF t1(2) holds_distinct [OF assms(2)]]
  have "stopped (c_string (Session (sOrigin (lSession l)))) t1"
    by (auto simp: stopped_def effect_defs)
  moreover obtain t2 where t2: "holds view (run_events q evs s1) t2"
    using run_steps [OF assms(1) t1(1)] by blast
  ultimately have "stopped (c_string (Session o1)) t2"
    using stopped_run [OF assms(1) t1(1) t2 _ assms(4)] assms(5) by simp
  then show ?thesis using stopped_refuses [OF assms(1) t2] by blast
qed

lemma begun_holds: "\<exists>t. holds (\<lambda>db. db) (snd begun) t"
  using begin_any [OF engine_axioms(1) sample_holds begun_ok] by blast

theorem failure_blocks_session_witness:
  "let s1 = snd (Finish pure_query begun_lease [] False 3 (snd begun))
   in isl (fst (Ready pure_query one (run_events pure_query [EGC 4, EInvalidate ''b''] s1)))"
proof -
  obtain t where t: "holds (\<lambda>db. db) (snd begun) t" using begun_holds by blast
  have "fst (Finish pure_query begun_lease [] False 3 (snd begun)) = Inr ()" by code_simp
  then have "Finish pure_query begun_lease [] False 3 (snd begun) = (Inr (), snd (Finish pure_query begun_lease [] False 3 (snd begun)))"
    by (metis prod.collapse)
  moreover have "c_string (Session one) = c_string (Session (sOrigin (lSession begun_lease)))"
    and "\<forall>ev\<in>set [EGC 4, EInvalidate ''b'']. \<not> creates (c_string (Session (sOrigin (lSession begun_lease)))) ev"
    by (simp_all add: begun_lease_def)
  ultimately show ?thesis
    unfolding Let_def using failure_blocks_session [OF engine_axioms(1) t] by blast
qed

end
