(* ===== verification/Affinity_Ownership.thy ===== *)
theory Affinity_Ownership
  imports Affinity_Props
begin

text \<open>
  Ownership over any sequence of operations and any connection: a response identifier belongs to
  one session, a session stays on its account slot, a handoff is consumed by one conversation and
  delivers what was prepared, invalidating a slot stops everything on it, collection removes
  nothing that is busy or recent, and a request that is begun can be finished.
\<close>

section \<open>Response identifiers\<close>

fun collects :: "aff_event \<Rightarrow> bool" where
  "collects (EGC _) = True"
| "collects _ = False"

lemma claim_ids_owned:
  assumes "claim_ids pure_query sc e s ids (t, sv) = (Inr u, t', sv')" and "i \<in> set ids"
  shows "\<exists>x\<in>set (response_rows t'). p_id x = c_string (sc i) \<and> (p_session x = s \<or> p_session x = c_string s)"
  using assms
proof (induction ids arbitrary: t)
  case (Cons j ids)
  let ?x = "\<lparr>p_id = c_string (sc j), p_session = c_string s\<rparr>"
  have grow: "set (response_rows a) \<subseteq> set (response_rows t')"
    if "claim_ids pure_query sc e s ids (a, sv) = (Inr u, t', sv')" for a
    using that
    by (induction ids arbitrary: a)
      (auto simp: bnd_Inr pure_data_Inr split: if_splits list.splits, force+)
  from Cons.prems(1) consider
    (old) "claim_ids pure_query sc e s ids (t, sv) = (Inr u, t', sv')"
      "\<exists>rest. map (\<lambda>x. [p_session x]) (filter (\<lambda>x. p_id x = c_string (sc j)) (response_rows t)) = [s] # rest"
  | (new) "claim_ids pure_query sc e s ids (add_responses [?x] t, sv) = (Inr u, t', sv')"
    by (auto simp: bnd_Inr pure_data_Inr add_responses_def split: if_splits list.splits)
  then show ?case
  proof cases
    case old
    then obtain x where "x \<in> set (response_rows t)" "p_id x = c_string (sc j)" "p_session x = s"
      by (auto simp: map_eq_Cons_conv filter_eq_Cons_iff)
    with Cons.IH [OF old(1)] Cons.prems(2) grow [OF old(1)] show ?thesis by auto
  next
    case new
    have "?x \<in> set (response_rows t')" using grow [OF new] by (auto simp: add_responses_def)
    with Cons.IH [OF new] Cons.prems(2) show ?thesis by force
  qed
qed simp

lemma responses_effect:
  "aff_effect ev t t' \<Longrightarrow> \<not> collects ev \<Longrightarrow> x \<in> set (response_rows t) \<Longrightarrow> x \<in> set (response_rows t')"
  by (induction rule: aff_effect.induct) (auto simp: effect_defs)

lemma responses_run:
  assumes "sql_engine q view" and "holds view s t" and "holds view (run_events q evs s) t'"
    and "x \<in> set (response_rows t)" and "\<forall>ev\<in>set evs. \<not> collects ev"
  shows "x \<in> set (response_rows t')"
  using run_keep [OF assms(1-3), of "\<lambda>t. x \<in> set (response_rows t)"] responses_effect assms(4,5) by blast

lemma same_response:
  "aff_inv t \<Longrightarrow> x \<in> set (response_rows t) \<Longrightarrow> y \<in> set (response_rows t) \<Longrightarrow> p_id x = p_id y \<Longrightarrow> x = y"
  by (auto simp: aff_inv_def distinct_map dest: inj_onD)

lemma same_handoff:
  "aff_inv t \<Longrightarrow> h \<in> set (handoff_rows t) \<Longrightarrow> h' \<in> set (handoff_rows t) \<Longrightarrow> h_id h = h_id h' \<Longrightarrow> h = h'"
  by (auto simp: aff_inv_def handoffs_ok_def distinct_map dest: inj_onD)

lemma finish_owned:
  assumes "finish_body pure_query l ids True now (t, sv) = (Inr u, t', sv')" and "i \<in> set ids" and "aff_inv t'"
  shows "\<exists>x\<in>set (response_rows t'). p_id x = c_string (historyScope i (Session (sOrigin (lSession l)))) \<and>
    p_session x = c_string (Session (sOrigin (lSession l)))"
proof -
  let ?i = "Session (sOrigin (lSession l))"
  from assms(1) obtain x st rq p1 t2 v sv2 where
    a: "lookup pure_query ?i (t, sv) = (Inr (x, st, rq), p1)" and
    c: "claim_ids pure_query (\<lambda>i. historyScope i ?i) Conflict ?i ids p1 = (Inr v, t2, sv2)" and
    d: "bnd (pure_query (UpdState ''ready'' (stamp now) ?i)) (\<lambda>_. ret ()) (t2, sv2) = (Inr u, t', sv')"
    by (auto simp: finish_body_def bnd_Inr Let_def split: if_splits)
  from d have rows: "response_rows t' = response_rows t2"
    by (auto simp: bnd_Inr pure_data_Inr update_sessions_def split: if_splits)
  from claim_ids_owned [OF c [unfolded lookup_ok(1) [OF a]] assms(2)] rows
  obtain y where y: "y \<in> set (response_rows t')" "p_id y = c_string (historyScope i ?i)"
    "p_session y = ?i \<or> p_session y = c_string ?i" by auto
  moreover have "c_string (p_session y) = p_session y"
    using assms(3) y(1) by (auto simp: aff_inv_def ids_of_def sessions_ok_def)
  ultimately show ?thesis by auto
qed

text \<open>C3: A response identifier belongs to one session: once \<^verbatim>\<open>Finish\<close> has recorded it for the session
  of a lease, a request that refers to it is only ever accepted for that very session, whatever
  operations (short of collection) and whatever database failures happened in between. No
  conversation can continue from another one's response.\<close>

theorem response_owner_exclusive:
  assumes "sql_engine q view" and "holds view s t" and "Finish q l ids True now s = (Inr u, s1)"
    and "i \<in> set ids" and "\<not> has_prefix ''history:'' i" and "\<forall>ev\<in>set evs. \<not> collects ev"
    and "BeginWithInputs q o2 refs inputs rnd now2 (run_events q evs s1) = (Inr l2, s2)" and "i \<in> set refs"
  shows "Session o2 = c_string (Session (sOrigin (lSession l)))"
proof -
  obtain t1 where t1: "holds view s1 t1" "finish_body pure_query l ids True now (t, Some t) = (Inr (), t1, Some t)"
    using finish_any [OF assms(1-3)] by blast
  then obtain x where x: "x \<in> set (response_rows t1)" "p_id x = c_string i"
    "p_session x = c_string (Session (sOrigin (lSession l)))"
    using finish_owned [OF t1(2) assms(4)] assms(5) by (auto simp: holds_def historyScope_def)
  obtain t2 where t2: "holds view (run_events q evs s1) t2"
    using run_steps [OF assms(1) t1(1)] by blast
  then have x2: "x \<in> set (response_rows t2)"
    using responses_run [OF assms(1) t1(1) t2 x(1) assms(6)] by blast
  obtain t3 where "begin_body pure_query o2 refs inputs rnd now2 (t2, Some t2) = (Inr l2, t3, Some t2)"
    using begin_any [OF assms(1) t2 assms(7)] by blast
  from begin_effect [OF this holds_distinct [OF t2]] assms(8,5)
  obtain y where "y \<in> set (response_rows t2)" "p_id y = c_string i" "p_session y = Session o2"
    by (auto simp: historyScope_def)
  with x x2 same_response [of t2 x y] t2 show ?thesis by (simp add: holds_def)
qed

section \<open>Sessions stay on their slot\<close>

lemma update_sessions_ex:
  assumes "\<exists>r\<in>set (session_rows t). r_id r = i \<and> session_at j r = x"
    and "\<And>r. r_id (f r) = r_id r" "\<And>r. session_at j (f r) = session_at j r"
  shows "\<exists>r\<in>set (session_rows (update_sessions p f t)). r_id r = i \<and> session_at j r = x"
  using assms ex_update [of "\<lambda>r. (r_id r, session_at j r)" f p "session_rows t" "\<lambda>v. v = (i, x)"]
  by (simp add: update_sessions_def del: set_map)

lemma session_effect:
  assumes "aff_effect ev t t'" and "\<not> collects ev" and "\<exists>r\<in>set (session_rows t). r_id r = i \<and> session_at j r = x"
  shows "\<exists>r\<in>set (session_rows t'). r_id r = i \<and> session_at j r = x"
  using assms
proof (induction rule: aff_effect.induct)
  case (claim r t o1 new refs inputs rnd now)
  then show ?case
    unfolding set_state_def by (intro update_sessions_ex) (auto simp: add_responses_def session_at_def)
next
  case (finish r t l ok new ids now)
  then show ?case
    unfolding set_state_def by (intro update_sessions_ex) (auto simp: add_responses_def session_at_def)
next
  case (invalidate sl t)
  then have "\<exists>r\<in>set (session_rows (block_slot sl t)). r_id r = i \<and> session_at j r = x"
    unfolding block_slot_def by (intro update_sessions_ex) (auto simp: session_at_def)
  then show ?case by (simp add: drop_handoffs_def)
qed (auto simp: add_session_def consume_def drop_handoffs_def)

text \<open>A conversation never changes account: two lookups of the same session, with any sequence of
  operations short of collection in between and on any connection, return the same project,
  worktree, branch and account slot. Neither handoffs nor slot invalidation nor failures move it.\<close>

theorem session_never_moves:
  assumes "sql_engine q view" and "holds view s t" and "Lookup q i s = (Inr x, s1)"
    and "\<forall>ev\<in>set evs. \<not> collects ev" and "Lookup q i (run_events q evs s1) = (Inr y, s2)"
  shows "y = x"
proof -
  from lookup_any [OF assms(1-3)] have h: "holds view s1 t"
    and x: "\<exists>r\<in>set (session_rows t). r_id r = c_string i \<and> session_at i r = x" by auto
  obtain t2 where t2: "holds view (run_events q evs s1) t2"
    using run_steps [OF assms(1) h] by blast
  have "\<exists>r\<in>set (session_rows t2). r_id r = c_string i \<and> session_at i r = x"
    using run_keep [OF assms(1) h t2, of "\<lambda>t. \<exists>r\<in>set (session_rows t). r_id r = c_string i \<and> session_at i r = x"]
      x assms(4) session_effect by blast
  moreover from lookup_any [OF assms(1) t2 assms(5)]
  obtain r where "r \<in> set (session_rows t2)" "r_id r = c_string i" "y = session_at i r" by blast
  ultimately show ?thesis using same_session [of t2] t2 by (metis holds_def)
qed

section \<open>Handoffs\<close>

fun prepares :: "string \<Rightarrow> aff_event \<Rightarrow> bool" where
  "prepares i (EPrepare rnd _ _ _ _ _ _) = (c_string rnd = i)"
| "prepares i _ = False"

text \<open>No pending handoff has this identifier.\<close>

definition spent :: "string \<Rightarrow> tables \<Rightarrow> bool" where
  "spent i t \<longleftrightarrow> (\<forall>h\<in>set (handoff_rows t). h_id h = i \<longrightarrow> h_consumed_by h \<noteq> [])"

lemma spent_effect: "aff_effect ev t t' \<Longrightarrow> \<not> prepares i ev \<Longrightarrow> spent i t \<Longrightarrow> spent i t'"
  by (induction rule: aff_effect.induct) (auto simp: spent_def effect_defs Let_def)

lemma spent_run:
  assumes "sql_engine q view" and "holds view s t" and "holds view (run_events q evs s) t'"
    and "spent i t" and "\<forall>ev\<in>set evs. \<not> prepares i ev"
  shows "spent i t'"
  using run_keep [OF assms(1-3), of "spent i"] spent_effect assms(4,5) by blast

lemma spent_refuses:
  assumes "sql_engine q view" and "holds view s t" and "spent (c_string i) t"
  shows "isl (fst (BindHandoff q i o1 u now s))" and "isl (fst (CancelHandoff q i src s))"
proof -
  have inv: "aff_inv t" using assms(2) by (simp add: holds_def)
  show "isl (fst (BindHandoff q i o1 u now s))"
  proof (rule ccontr)
    assume "\<not> ?thesis"
    then obtain x s' where "BindHandoff q i o1 u now s = (Inr x, s')"
      by (metis isl_def prod.collapse sum.collapse(2))
    from bind_any [OF assms(1,2) this] obtain t' where "validOrigin o1"
      "bind_body pure_query i o1 now (t, Some t) = (Inr x, t', Some t)" by blast
    from bind_effect [OF this(2,1) inv] assms(3) show False by (auto simp: spent_def)
  qed
  show "isl (fst (CancelHandoff q i src s))"
  proof (rule ccontr)
    assume "\<not> ?thesis"
    then obtain x s' where "CancelHandoff q i src s = (Inr x, s')"
      by (metis isl_def prod.collapse sum.collapse(2))
    from cancel_any [OF assms(1,2) this] obtain t' where
      "cancel_body pure_query i src (t, Some t) = (Inr (), t', Some t)" by blast
    from cancel_effect [OF this] assms(3) show False by (auto simp: spent_def)
  qed
qed

text \<open>C7: A handoff is consumed by one conversation: after \<^verbatim>\<open>BindHandoff\<close> succeeded, every later
  \<^verbatim>\<open>BindHandoff\<close> of the same reservation is refused and \<^verbatim>\<open>CancelHandoff\<close> cannot take it back, over
  any sequence of operations that does not draw the same random identifier again and on any
  connection.\<close>

theorem handoff_consumed_once:
  assumes "sql_engine q view" and "holds view s t" and "BindHandoff q i o1 u now s = (Inr x, s1)"
    and "\<forall>ev\<in>set evs. \<not> prepares (c_string i) ev"
  shows "isl (fst (BindHandoff q i o2 u2 now2 (run_events q evs s1))) \<and>
    isl (fst (CancelHandoff q i src (run_events q evs s1)))"
proof -
  have inv: "aff_inv t" using assms(2) by (simp add: holds_def)
  obtain t1 where t1: "holds view s1 t1" "validOrigin o1" "bind_body pure_query i o1 now (t, Some t) = (Inr x, t1, Some t)"
    using bind_any [OF assms(1-3)] by blast
  then have "Session o1 \<noteq> []" by (simp add: validOrigin_def aff_valid_def)
  with bind_effect [OF t1(3,2) inv] have "spent (c_string i) t1"
    by (auto simp: spent_def consume_def)
  moreover obtain t2 where t2: "holds view (run_events q evs s1) t2"
    using run_steps [OF assms(1) t1(1)] by blast
  ultimately have "spent (c_string i) t2"
    using spent_run [OF assms(1) t1(1) t2 _ assms(4)] by blast
  then show ?thesis using spent_refuses [OF assms(1) t2] by blast
qed

text \<open>What a pending or consumed handoff with this identifier says, while it exists.\<close>

definition carries :: "string \<Rightarrow> origin \<Rightarrow> string \<Rightarrow> tables \<Rightarrow> bool" where
  "carries i src tg t \<longleftrightarrow> (\<forall>h\<in>set (handoff_rows t). h_id h = i \<longrightarrow> h_target h = tg \<and> h_source h = Session src \<and>
     (\<exists>r\<in>set (session_rows t). r_id r = Session src \<and> sOrigin (session_at (Session src) r) = src))"

lemma update_sessions_origin:
  assumes "\<And>r. r_id (f r) = r_id r" "\<And>r. session_at j (f r) = session_at j r"
  shows "(\<exists>r\<in>set (session_rows (update_sessions p f t)). r_id r = i \<and> sOrigin (session_at j r) = x) \<longleftrightarrow>
    (\<exists>r\<in>set (session_rows t). r_id r = i \<and> sOrigin (session_at j r) = x)"
  using ex_update [of "\<lambda>r. (r_id r, session_at j r)" f p "session_rows t" "\<lambda>v. fst v = i \<and> sOrigin (snd v) = x"] assms
  by (simp add: update_sessions_def del: set_map)

lemma session_at_origin:
  "sOrigin (session_at j r) = src \<Longrightarrow>
    Project src = r_project r \<and> Worktree src = r_worktree r \<and> Branch src = r_branch r \<and> Session src = j"
  by (auto simp: session_at_def)

lemma carries_effect:
  "aff_effect ev t t' \<Longrightarrow> \<not> prepares i ev \<Longrightarrow> carries i src tg t \<Longrightarrow> carries i src tg t'"
proof (induction rule: aff_effect.induct)
  case (claim r t o1 new refs inputs rnd now)
  have "handoff_rows (set_state (r_id r) ''inflight'' (c_string rnd) (stamp now) (add_responses new t)) = handoff_rows t"
    by (simp add: effect_defs)
  with claim show ?case
    unfolding carries_def set_state_def
    by (subst update_sessions_origin) (auto simp: session_at_def add_responses_def)
next
  case (finish r t l ok new ids now)
  have "handoff_rows (set_state (r_id r) (if ok then ''ready'' else ''blocked'') [] (stamp now) (add_responses new t)) = handoff_rows t"
    by (simp add: effect_defs)
  with finish show ?case
    unfolding carries_def set_state_def
    by (subst update_sessions_origin) (auto simp: session_at_def add_responses_def)
next
  case (invalidate sl t)
  have "(\<exists>r\<in>set (session_rows (block_slot sl t)). r_id r = Session src \<and> sOrigin (session_at (Session src) r) = src) \<longleftrightarrow>
    (\<exists>r\<in>set (session_rows t). r_id r = Session src \<and> sOrigin (session_at (Session src) r) = src)"
    unfolding block_slot_def by (rule update_sessions_origin) (simp_all add: session_at_def)
  moreover have "handoff_rows (block_slot sl t) = handoff_rows t" by (simp add: effect_defs)
  ultimately show ?case using invalidate by (auto simp: carries_def drop_handoffs_def)
next
  case (gc now t)
  then show ?case by (auto simp: carries_def delete_sessions_def Let_def) force
qed (auto simp: carries_def add_session_def consume_def drop_handoffs_def)

lemma bound_as_prepared:
  assumes "sql_engine q view" and "holds view s t"
    and "PrepareHandoff q rnd src tg cp dg b now s = (Inr v, s1)"
    and "\<forall>ev\<in>set evs. \<not> prepares (c_string rnd) ev"
    and "BindHandoff q (rID v) o1 u now2 (run_events q evs s1) = (Inr x, s2)"
  shows "x = \<lparr>sOrigin = o1, Account = tg, Wiki = []\<rparr> \<and> Project o1 = Project src \<and> Worktree o1 = Worktree src \<and>
    Branch o1 = Branch src \<and> Session o1 \<noteq> Session src"
proof -
  from prepare_any [OF assms(1-3)] obtain t1 where t1: "holds view s1 t1"
    "prepare_body pure_query v now (t, Some t) = (Inr (), t1, Some t)" and
    v: "v = \<lparr>rID = rnd, rSource = src, rTarget = tg, rCheckpointID = cp, rDigest = dg, rConsumedBy = []\<rparr>"
    "validOrigin (rSource v)" "slot_valid (rTarget v)" by auto
  from prepare_effect [OF t1(2) v(2,3)] have "carries (c_string rnd) src tg t1"
    by (auto simp: carries_def v(1) image_iff) metis+
  moreover obtain t2 where t2: "holds view (run_events q evs s1) t2"
    using run_steps [OF assms(1) t1(1)] by blast
  ultimately have c: "carries (c_string rnd) src tg t2"
    using run_keep [OF assms(1) t1(1) t2, of "carries (c_string rnd) src tg"] carries_effect assms(4) by blast
  have inv: "aff_inv t2" using t2 by (simp add: holds_def)
  obtain t3 where "validOrigin o1" "bind_body pure_query rnd o1 now2 (t2, Some t2) = (Inr x, t3, Some t2)"
    using bind_any [OF assms(1) t2 assms(5)] v(1) by auto
  from bind_effect [OF this(2,1) inv] obtain h r where h: "h \<in> set (handoff_rows t2)" "r \<in> set (session_rows t2)"
    "h_id h = c_string rnd" "r_id r = h_source h" "Session o1 \<notin> ids_of t2"
    "r_project r = Project o1" "r_worktree r = Worktree o1" "r_branch r = Branch o1"
    "x = \<lparr>sOrigin = o1, Account = h_target h, Wiki = []\<rparr>" by blast
  from c h(1,3) obtain r' where "h_target h = tg" "h_source h = Session src" and
    r': "r' \<in> set (session_rows t2)" "r_id r' = Session src" "sOrigin (session_at (Session src) r') = src"
    by (auto simp: carries_def)
  moreover from this h(2,4) have "r' = r" using same_session [OF inv] by simp
  moreover from this have "Project src = Project o1" "Worktree src = Worktree o1" "Branch src = Branch o1"
    using session_at_origin [OF r'(3)] h(6-8) by simp_all
  moreover have "Session o1 \<noteq> Session src"
    using h(5) r'(2) ids_ofI [OF r'(1)] by auto
  ultimately show ?thesis using h(9) by simp
qed

text \<open>A handoff delivers what was prepared: if \<^verbatim>\<open>PrepareHandoff\<close> reserved a move of a source
  conversation to a target slot, and after any sequence of operations on any connection
  \<^verbatim>\<open>BindHandoff\<close> binds that reservation to a conversation, then the conversation is a new one (not
  the source), in the same project, worktree and branch, and it runs on the reserved target slot.\<close>

theorem handoff_delivers:
  assumes "sql_engine q view" and "holds view s t"
    and "PrepareHandoff q rnd src tg cp dg b now s = (Inr v, s1)"
    and "\<forall>ev\<in>set evs. \<not> prepares (c_string rnd) ev"
    and "BindHandoff q (rID v) o1 u now2 (run_events q evs s1) = (Inr x, s2)"
  shows "x = \<lparr>sOrigin = o1, Account = tg, Wiki = []\<rparr> \<and> Project o1 = Project src \<and> Worktree o1 = Worktree src \<and>
    Branch o1 = Branch src \<and> Session o1 \<noteq> Session src"
  by (rule bound_as_prepared [OF assms])

section \<open>Slot invalidation\<close>

lemma invalidated_sessions:
  assumes "sql_engine q view" and "holds view s t" and "InvalidateSlot q sl s = (Inr u, s1)"
    and "r \<in> set (session_rows t)" and "r_slot r = sl"
  shows "stopped (r_id r) (drop_handoffs (touches_slot sl t) (block_slot sl t))"
proof -
  have "session_rows (drop_handoffs (touches_slot sl t) (block_slot sl t)) =
      map (\<lambda>r. if r_slot r = sl then r\<lparr>r_state := ''blocked'', r_request := []\<rparr> else r) (session_rows t)"
    by (simp add: effect_defs)
  then show ?thesis
    using same_session [of t _ r] assms(2,4,5) unfolding stopped_def by (force simp: holds_def)
qed


section \<open>Collection\<close>

text \<open>C22: Collection removes exactly the idle sessions: a session that is inflight or was seen within
  the fourteen days of retention keeps its row, its response identifiers and its handoffs; every
  other session disappears together with all of its response identifiers and handoffs. This holds
  on any connection whenever \<^verbatim>\<open>GC\<close> reports success.\<close>

theorem gc_exact:
  assumes "sql_engine q view" and "holds view s t" and "GC q now s = (Inr u, s1)" and "r \<in> set (session_rows t)"
  shows "\<exists>t1. holds view s1 t1 \<and>
    (if r_state r = ''inflight'' \<or> stamp (now - Retention) \<le> r_last_seen r
     then r \<in> set (session_rows t1) \<and>
       (\<forall>x\<in>set (response_rows t). p_session x = r_id r \<longrightarrow> x \<in> set (response_rows t1)) \<and>
       (\<forall>h\<in>set (handoff_rows t). h_source h = r_id r \<longrightarrow> h \<in> set (handoff_rows t1))
     else r_id r \<notin> ids_of t1 \<and> (\<forall>x\<in>set (response_rows t1). p_session x \<noteq> r_id r) \<and>
       (\<forall>h\<in>set (handoff_rows t1). h_source h \<noteq> r_id r))"
proof -
  have inv: "aff_inv t" using assms(2) by (simp add: holds_def)
  define p where "p = (\<lambda>r :: session_row. r_state r \<noteq> ''inflight'' \<and> r_last_seen r < stamp (now - Retention))"
  have gone: "r_id r \<in> set (map r_id (filter p (session_rows t))) \<longleftrightarrow> p r"
    using same_session [OF inv _ assms(4)] assms(4) by force
  have kept: "r_id r \<in> ids_of (delete_sessions p t) \<longleftrightarrow> \<not> p r"
    using same_session [OF inv _ assms(4)] assms(4) by (force simp: ids_of_def delete_sessions_def Let_def)
  have h: "holds view s1 (delete_sessions p t)"
    unfolding p_def by (rule gc_any [OF assms(1-3)])
  show ?thesis
  proof (cases "p r")
    case True
    then show ?thesis
      using h gone kept by (intro exI [of _ "delete_sessions p t"]) (auto simp: p_def delete_sessions_def Let_def)
  next
    case False
    then have "r \<in> set (session_rows (delete_sessions p t))"
      using assms(4) by (simp add: delete_sessions_def Let_def)
    moreover have "\<forall>x\<in>set (response_rows t). p_session x = r_id r \<longrightarrow> x \<in> set (response_rows (delete_sessions p t))"
      "\<forall>h\<in>set (handoff_rows t). h_source h = r_id r \<longrightarrow> h \<in> set (handoff_rows (delete_sessions p t))"
      using gone False by (simp_all add: delete_sessions_def Let_def del: set_map)
    ultimately show ?thesis
      using h False by (intro exI [of _ "delete_sessions p t"]) (auto simp: p_def)
  qed
qed

section \<open>A request can be begun and finished\<close>

text \<open>Claiming succeeds when every identifier is valid and not owned by another session.\<close>

definition claimable :: "(string \<Rightarrow> string) \<Rightarrow> string \<Rightarrow> tables \<Rightarrow> string \<Rightarrow> bool" where
  "claimable sc s t i \<longleftrightarrow> aff_valid i \<and> (\<forall>x\<in>set (response_rows t). p_id x = c_string (sc i) \<longrightarrow> p_session x = s)"

lemma claim_ids_complete:
  assumes "\<forall>i\<in>set ids. claimable sc s t i" and "c_string s = s" and "s \<in> ids_of t"
  shows "\<exists>t'. claim_ids pure_query sc e s ids (t, sv) = (Inr (), t', sv)"
  using assms
proof (induction ids arbitrary: t)
  case (Cons i ids)
  let ?rows = "map (\<lambda>x. [p_session x]) (filter (\<lambda>x. p_id x = c_string (sc i)) (response_rows t))"
  have sel: "pure_query (SelResponse (sc i)) (t, sv) = (Inr ?rows, t, sv)"
    by (simp add: pure_query_in_tx)
  have v: "aff_valid i" using Cons.prems(1) by (simp add: claimable_def)
  show ?case
  proof (cases ?rows)
    case Nil
    let ?t = "add_responses [\<lparr>p_id = c_string (sc i), p_session = c_string s\<rparr>] t"
    have "c_string (sc i) \<notin> set (map p_id (response_rows t))"
      using Nil by (auto simp: filter_empty_conv)
    moreover have "s \<in> set (map r_id (session_rows t))" using Cons.prems(3) by (simp add: ids_of_def)
    ultimately have "pure_query (InsResponse (sc i) s) (t, sv) = (Inr [], ?t, sv)"
      using Cons.prems(2) by (simp add: pure_query_in_tx add_responses_def)
    moreover have "\<forall>j\<in>set ids. claimable sc s ?t j" "s \<in> ids_of ?t"
      using Cons.prems by (auto simp: claimable_def add_responses_def ids_of_def)
    with Cons.IH [of ?t] Cons.prems(2) obtain t' where "claim_ids pure_query sc e s ids (?t, sv) = (Inr (), t', sv)"
      by blast
    ultimately show ?thesis using Nil sel v by simp
  next
    case (Cons row rest)
    then obtain x where "x \<in> set (response_rows t)" "p_id x = c_string (sc i)" "row = [p_session x]"
      by (auto simp: map_eq_Cons_conv filter_eq_Cons_iff)
    with Cons.prems(1) have "row = [s]" by (simp add: claimable_def)
    moreover obtain t' where "claim_ids pure_query sc e s ids (t, sv) = (Inr (), t', sv)"
      using Cons.IH [of t] Cons.prems by auto
    ultimately show ?thesis using Cons sel v by simp
  qed
qed (simp add: ret_def)

lemma filter_unique:
  "distinct (map k xs) \<Longrightarrow> x \<in> set xs \<Longrightarrow> filter (\<lambda>y. k y = k x) xs = [x]"
proof (induction xs)
  case (Cons a xs)
  show ?case
  proof (cases "x = a")
    case True
    with Cons.prems show ?thesis by (auto simp: filter_empty_conv image_iff)
  next
    case False
    with Cons have "k a \<noteq> k x" by force
    with False Cons show ?thesis by simp
  qed
qed simp

lemma lookup_row:
  assumes "aff_inv t" and "r \<in> set (session_rows t)" and "c_string i = r_id r"
  shows "lookup pure_query i (t, sv) = (Inr (session_at i r, r_state r, r_request r), t, sv)"
proof -
  have "filter (\<lambda>x. r_id x = r_id r) (session_rows t) = [r]"
    using assms(1,2) by (intro filter_unique) (simp_all add: aff_inv_def sessions_ok_def)
  then show ?thesis
    using assms(3) by (simp add: lookup_def bnd_def pure_query_in_tx ret_def session_at_def)
qed

lemma check_refs_complete:
  assumes "aff_inv t" and "\<forall>i\<in>set ids. aff_valid i \<and>
    (\<exists>x\<in>set (response_rows t). p_id x = c_string (historyScope i s) \<and> p_session x = s)"
  shows "check_refs pure_query s ids (t, sv) = (Inr (), t, sv)"
  using assms(2)
proof (induction ids)
  case (Cons i ids)
  then obtain x where "x \<in> set (response_rows t)" "p_id x = c_string (historyScope i s)" "p_session x = s" by auto
  then have "map (\<lambda>x. [p_session x]) (filter (\<lambda>x. p_id x = c_string (historyScope i s)) (response_rows t)) = [[s]]"
    using filter_unique [of p_id "response_rows t" x] assms(1) by (simp add: aff_inv_def)
  then have "pure_query (SelResponse (historyScope i s)) (t, sv) = (Inr [[s]], t, sv)"
    by (simp add: pure_query_in_tx)
  with Cons show ?case by simp
qed (simp add: ret_def)

lemma c_string_ready: "c_string ''ready'' = ''ready''"
  by (simp add: c_string_def)

lemma set_state_row:
  assumes "r \<in> set (session_rows t)"
  shows "r\<lparr>r_state := st, r_request := rq, r_last_seen := n\<rparr> \<in> set (session_rows (set_state (r_id r) st rq n t))"
  using imageI [OF assms, of "\<lambda>x. if r_id x = r_id r then x\<lparr>r_state := st, r_request := rq, r_last_seen := n\<rparr> else x"]
  by (simp add: set_state_def update_sessions_def)

lemma tx_succeeds:
  "follows (\<lambda>db. db) False f f \<Longrightarrow> f (t, Some t) = (Inr x, t', Some t) \<Longrightarrow>
    transaction pure_query f (t, None) = (Inr x, t', None)"
  by (simp add: follows_def transaction_pure)

lemma ready_row:
  assumes "aff_inv t" and "r \<in> set (session_rows t)" and "r_state r = ''ready''"
    and "r_id r \<notin> set (pending_sources (handoff_rows t))"
    and "c_string (Session o1) = r_id r" "sOrigin (session_at (Session o1) r) = o1"
  shows "ready_body pure_query o1 (t, sv) = (Inr (session_at (Session o1) r), t, sv)"
proof -
  have "pure_query (SelPending (Session o1)) (t, sv) = (Inr [], t, sv)"
    using assms(4,5) pending_select [of "\<lambda>h. [h_id h]" "r_id r" "handoff_rows t"]
    by (simp add: pure_query_in_tx)
  with lookup_row [OF assms(1,2,5)] assms(3,6) show ?thesis
    by (simp add: ready_body_def bnd_def ret_def)
qed

lemma begin_complete:
  assumes "aff_inv t" and r: "r \<in> set (session_rows t)" "r_state r = ''ready''"
      "r_id r \<notin> set (pending_sources (handoff_rows t))" "o1 = sOrigin (session_at (r_id r) r)"
    and refs: "\<forall>i\<in>set refs. aff_valid i \<and>
      (\<exists>x\<in>set (response_rows t). p_id x = c_string (historyScope i (r_id r)) \<and> p_session x = r_id r)"
    and inputs: "\<forall>i\<in>set inputs. claimable (\<lambda>i. i) (r_id r) t i"
  shows "\<exists>t1. BeginWithInputs pure_query o1 refs inputs rnd now (Some (t, None)) =
      (Inr \<lparr>lSession = session_at (r_id r) r, lRequest = rnd\<rparr>, Some (t1, None)) \<and>
    begin_body pure_query o1 refs inputs rnd now (t, Some t) =
      (Inr \<lparr>lSession = session_at (r_id r) r, lRequest = rnd\<rparr>, t1, Some t)"
proof -
  have o1: "Session o1 = r_id r" "sOrigin (session_at (Session o1) r) = o1"
    using r(4) by (simp_all add: session_at_def)
  have c: "c_string (r_id r) = r_id r" using assms(1) r(1) by (simp add: aff_inv_def sessions_ok_def)
  obtain t2 where "claim_ids pure_query (\<lambda>i. i) Unknown (r_id r) inputs (t, Some t) = (Inr (), t2, Some t)"
    using claim_ids_complete [OF inputs c ids_ofI [OF r(1)]] by blast
  moreover have "ready_body pure_query o1 (t, Some t) = (Inr (session_at (r_id r) r), t, Some t)"
    using ready_row [OF assms(1) r(1-3), of o1] o1 c by simp
  moreover obtain t1 where "pure_query (UpdInflight rnd (stamp now) (r_id r)) (t2, Some t) = (Inr [], t1, Some t)"
    by (simp add: pure_query_in_tx)
  ultimately have b: "begin_body pure_query o1 refs inputs rnd now (t, Some t) =
      (Inr \<lparr>lSession = session_at (r_id r) r, lRequest = rnd\<rparr>, t1, Some t)"
    using check_refs_complete [OF assms(1) refs] o1 by (simp add: begin_body_def ret_def)
  then show ?thesis
    using tx_succeeds [OF pure.follows_begin b] by (auto simp: BeginWithInputs_def on_store_def)
qed

text \<open>C23: The store never gets stuck on a healthy database: for a ready session without pending
  handoff, a request whose references the session owns and whose new inputs no other session owns
  is admitted; finishing it successfully with identifiers no other session owns succeeds too, and
  afterwards the session is ready for the next request.\<close>

theorem request_completes:
  assumes "aff_inv t" and "r \<in> set (session_rows t)" and "r_state r = ''ready''"
    and "r_id r \<notin> set (pending_sources (handoff_rows t))" and "o1 = sOrigin (session_at (r_id r) r)"
    and "\<forall>i\<in>set refs. aff_valid i \<and>
      (\<exists>x\<in>set (response_rows t). p_id x = c_string (historyScope i (r_id r)) \<and> p_session x = r_id r)"
    and "\<forall>i\<in>set inputs. claimable (\<lambda>i. i) (r_id r) t i"
    and "\<forall>i\<in>set ids. claimable (\<lambda>i. historyScope i (r_id r)) (r_id r) t i" and "c_string rnd = rnd"
  shows "\<exists>l s1 s2. BeginWithInputs pure_query o1 refs inputs rnd now (Some (t, None)) = (Inr l, s1) \<and>
    Finish pure_query l ids True now2 s1 = (Inr (), s2) \<and> fst (Ready pure_query o1 s2) = Inr ()"
proof -
  define l where "l = \<lparr>lSession = session_at (r_id r) r, lRequest = rnd\<rparr>"
  obtain t1 where b: "BeginWithInputs pure_query o1 refs inputs rnd now (Some (t, None)) = (Inr l, Some (t1, None))"
    and body: "begin_body pure_query o1 refs inputs rnd now (t, Some t) = (Inr l, t1, Some t)"
    using begin_complete [OF assms(1-7)] unfolding l_def by blast
  have inv1: "aff_inv t1"
    using aff_effect_inv [OF begin_spec [OF body]] assms(1) by (simp add: aff_inv_def)
  have o1: "Session o1 = r_id r" "sOrigin (session_at (r_id r) r) = o1" and me: "Session (sOrigin (lSession l)) = r_id r"
    using assms(5) by (simp_all add: session_at_def l_def)
  have c: "c_string (r_id r) = r_id r" using assms(1,2) by (simp add: aff_inv_def sessions_ok_def)
  from begin_effect [OF body] assms(1) o1(1) c obtain r0 new where
    r0: "r0 \<in> set (session_rows t)" "r_id r0 = r_id r" and fr: "fresh_responses t (r_id r) new" and
    t1: "t1 = set_state (r_id r) ''inflight'' rnd (stamp now) (add_responses new t)"
    using assms(9) by (auto simp: aff_inv_def)
  let ?r1 = "r\<lparr>r_state := ''inflight'', r_request := rnd, r_last_seen := stamp now\<rparr>"
  have r1: "?r1 \<in> set (session_rows t1)"
    using assms(2) by (force simp: t1 effect_defs)
  have look: "lookup pure_query (r_id r) (t1, Some t1) = (Inr (session_at (r_id r) r, ''inflight'', rnd), t1, Some t1)"
    using lookup_row [OF inv1 r1, of "r_id r"] c by (simp add: session_at_def)
  have "\<forall>i\<in>set ids. claimable (\<lambda>i. historyScope i (r_id r)) (r_id r) t1 i"
    using assms(8) fr by (auto simp: claimable_def t1 effect_defs fresh_responses_def)
  from claim_ids_complete [OF this c] ids_ofI [OF r1] obtain t2 where
    cl: "claim_ids pure_query (\<lambda>i. historyScope i (r_id r)) Conflict (r_id r) ids (t1, Some t1) = (Inr (), t2, Some t1)"
    by fastforce
  obtain new2 where t2: "t2 = add_responses new2 t1" "fresh_responses t1 (r_id r) new2"
    using claim_ids_ok [OF cl] inv1 c by (auto simp: aff_inv_def)
  let ?t3 = "set_state (r_id r) ''ready'' [] (stamp now2) t2"
  have "pure_query (UpdState ''ready'' (stamp now2) (r_id r)) (t2, Some t1) = (Inr [], ?t3, Some t1)"
    using c c_string_ready by (simp add: pure_query_in_tx set_state_def session_states_def)
  with look cl have fin: "finish_body pure_query l ids True now2 (t1, Some t1) = (Inr (), ?t3, Some t1)"
    using me by (simp add: finish_body_def l_def ret_def Let_def)
  have f: "Finish pure_query l ids True now2 (Some (t1, None)) = (Inr (), Some (?t3, None))"
    using tx_succeeds [OF pure.follows_finish fin] by (simp add: Finish_def on_store_def)
  have inv3: "aff_inv ?t3"
    using aff_effect_inv [OF finish_spec [OF fin]] inv1 by (simp add: aff_inv_def)
  let ?r3 = "?r1\<lparr>r_state := ''ready'', r_request := [], r_last_seen := stamp now2\<rparr>"
  have "?r3 \<in> set (session_rows ?t3)"
    using set_state_row [of ?r1 t2 "stamp now2" "[]" "''ready''"] r1 by (simp add: t2 add_responses_def)
  moreover have "handoff_rows ?t3 = handoff_rows t" by (simp add: t1 t2 effect_defs)
  ultimately have "ready_body pure_query o1 (?t3, None) = (Inr (session_at (Session o1) ?r3), ?t3, None)"
    using assms(4) o1 c by (intro ready_row [OF inv3]) (simp_all add: session_at_def)
  then have "fst (Ready pure_query o1 (Some (?t3, None))) = Inr ()"
    by (simp add: Ready_def on_store_def ret_def)
  with b f show ?thesis by blast
qed

section \<open>Concrete runs\<close>

text \<open>One conversation is begun and finished; a second one is registered; a handoff of the first
  to slot b is prepared and bound.\<close>

definition two :: origin where
  "two = \<lparr>Project = ''p'', Worktree = ''w'', Branch = ''b'', Session = ''n''\<rparr>"

definition digest0 :: string where
  "digest0 = replicate 64 (CHR ''0'')"

definition finished :: "unit res \<times> pure_db store" where
  "finished = Finish pure_query begun_lease [''resp''] True 3 (snd begun)"

definition prepared :: "reservation res \<times> pure_db store" where
  "prepared = PrepareHandoff pure_query ''h'' one ''b'' ''cp'' digest0 True 4 (snd finished)"

definition prepared_reservation :: reservation where
  "prepared_reservation = \<lparr>rID = ''h'', rSource = one, rTarget = ''b'', rCheckpointID = ''cp'',
     rDigest = digest0, rConsumedBy = []\<rparr>"

definition bound :: "hsession res \<times> pure_db store" where
  "bound = BindHandoff pure_query ''h'' two True 5 (snd prepared)"

lemma run_holds:
  assumes "holds (\<lambda>db. db) s t"
  shows "\<exists>t'. holds (\<lambda>db. db) (snd (aff_exec pure_query ev s)) t'"
  using run_steps [OF engine_axioms(1) assms, of "[ev]"] by (auto simp: run_events_def)

lemma finished_ok: "Finish pure_query begun_lease [''resp''] True 3 (snd begun) = (Inr (), snd finished)"
proof -
  have "fst finished = Inr ()" by code_simp
  then show ?thesis by (metis finished_def prod.collapse)
qed

lemma prepared_ok:
  "PrepareHandoff pure_query ''h'' one ''b'' ''cp'' digest0 True 4 (snd finished) = (Inr prepared_reservation, snd prepared)"
proof -
  have "fst prepared = Inr prepared_reservation" by code_simp
  then show ?thesis by (metis prepared_def prod.collapse)
qed

lemma bound_ok:
  "BindHandoff pure_query ''h'' two True 5 (snd prepared) = (Inr \<lparr>sOrigin = two, Account = ''b'', Wiki = []\<rparr>, snd bound)"
proof -
  have "fst bound = Inr \<lparr>sOrigin = two, Account = ''b'', Wiki = []\<rparr>" by code_simp
  then show ?thesis by (metis bound_def prod.collapse)
qed

lemma finished_holds: "\<exists>t. holds (\<lambda>db. db) (snd finished) t"
  using begun_holds finish_any [OF engine_axioms(1) _ finished_ok] by blast

lemma prepared_holds: "\<exists>t. holds (\<lambda>db. db) (snd prepared) t"
  using finished_holds prepare_any [OF engine_axioms(1) _ prepared_ok] by blast

theorem response_owner_exclusive_witness:
  "let s = snd finished; evs = [ERegister two ''b'' 4]
   in is_ok (fst (BeginWithInputs pure_query one [''resp''] [] ''k3'' 6 (run_events pure_query evs s))) \<and>
      Session one = c_string (Session (sOrigin (lSession begun_lease)))"
proof -
  obtain t where t: "holds (\<lambda>db. db) (snd begun) t" using begun_holds by blast
  let ?b = "BeginWithInputs pure_query one [''resp''] [] ''k3'' 6 (run_events pure_query [ERegister two ''b'' 4] (snd finished))"
  have ok: "is_ok (fst ?b)" by code_simp
  then obtain l where "?b = (Inr l, snd ?b)" by (metis isl_def prod.collapse sum.collapse(2))
  moreover have "\<forall>ev\<in>set [ERegister two ''b'' 4]. \<not> collects ev" "\<not> has_prefix ''history:'' ''resp''"
    "''resp'' \<in> set [''resp'']" by simp_all
  ultimately have "Session one = c_string (Session (sOrigin (lSession begun_lease)))"
    using response_owner_exclusive [OF engine_axioms(1) t finished_ok] by blast
  with ok show ?thesis by simp
qed

theorem session_never_moves_witness:
  "fst (Lookup pure_query ''s'' (run_events pure_query [EInvalidate ''a''] (Some (sample_tables, None)))) =
   fst (Lookup pure_query ''s'' (Some (sample_tables, None)))"
proof -
  have a: "Lookup pure_query ''s'' (Some (sample_tables, None)) =
    (Inr \<lparr>sOrigin = one, Account = ''a'', Wiki = []\<rparr>, Some (sample_tables, None))" by code_simp
  let ?b = "Lookup pure_query ''s'' (run_events pure_query [EInvalidate ''a''] (Some (sample_tables, None)))"
  have "is_ok (fst ?b)" by code_simp
  then obtain y where "?b = (Inr y, snd ?b)" by (metis isl_def prod.collapse sum.collapse(2))
  moreover from this have "y = \<lparr>sOrigin = one, Account = ''a'', Wiki = []\<rparr>"
    by (rule session_never_moves [OF engine_axioms(1) sample_holds a, rotated]) simp
  ultimately show ?thesis using a by (metis fst_conv)
qed

theorem handoff_consumed_once_witness:
  "isl (fst (BindHandoff pure_query ''h'' one True 7 (run_events pure_query [EGC 6] (snd bound))))"
proof -
  obtain t where t: "holds (\<lambda>db. db) (snd prepared) t" using prepared_holds by blast
  have "\<forall>ev\<in>set [EGC 6]. \<not> prepares (c_string ''h'') ev" by simp
  then show ?thesis
    using handoff_consumed_once [OF engine_axioms(1) t bound_ok] by blast
qed

theorem handoff_delivers_witness:
  "fst (BindHandoff pure_query ''h'' two True 5 (snd prepared)) = Inr \<lparr>sOrigin = two, Account = ''b'', Wiki = []\<rparr> \<and>
   Session two \<noteq> Session one"
proof -
  obtain t where t: "holds (\<lambda>db. db) (snd finished) t" using finished_holds by blast
  have "BindHandoff pure_query (rID prepared_reservation) two True 5 (run_events pure_query [] (snd prepared)) =
      (Inr \<lparr>sOrigin = two, Account = ''b'', Wiki = []\<rparr>, snd bound)"
    using bound_ok by (simp add: run_events_def prepared_reservation_def)
  from handoff_delivers [OF engine_axioms(1) t prepared_ok _ this] show ?thesis
    using bound_ok by auto
qed

theorem gc_exact_witness:
  "\<exists>t1. holds (\<lambda>db. db) (snd (GC pure_query (hours 999999999) (Some (sample_tables, None)))) t1 \<and> ''s'' \<notin> ids_of t1"
proof -
  have "fst (GC pure_query (hours 999999999) (Some (sample_tables, None))) = Inr ()" by (simp add: step_gc)
  then have g: "GC pure_query (hours 999999999) (Some (sample_tables, None)) =
    (Inr (), snd (GC pure_query (hours 999999999) (Some (sample_tables, None))))" by (metis prod.collapse)
  have "sample_row \<in> set (session_rows sample_tables)" by (simp add: sample_tables_def)
  moreover have "\<not> (r_state sample_row = ''inflight'' \<or> stamp (hours 999999999 - Retention) \<le> r_last_seen sample_row)"
    by (simp add: sample_row_def stamp_def unix_seconds_def Retention_def hours_def minutes_def seconds_def)
  moreover have "r_id sample_row = ''s''" by (simp add: sample_row_def)
  ultimately show ?thesis
    using gc_exact [OF engine_axioms(1) sample_holds g, of sample_row] by auto
qed

theorem request_completes_witness:
  "\<exists>l s1 s2. BeginWithInputs pure_query one [] [''m''] ''k'' 1 (Some (sample_tables, None)) = (Inr l, s1) \<and>
    Finish pure_query l [''resp''] True 2 s1 = (Inr (), s2) \<and> fst (Ready pure_query one s2) = Inr ()"
  by (rule request_completes [OF sample_inv, of sample_row])
    (simp_all add: sample_tables_def empty_tables_def sample_row_def one_def session_at_def pending_sources_def
      claimable_def aff_valid_def c_string_def)

definition pending_row :: handoff_row where
  "pending_row = \<lparr>h_id = ''h'', h_source = ''s'', h_target = ''b'', h_checkpoint = ''cp'', h_digest = digest0,
     h_consumed_by = [], h_created = 0\<rparr>"

definition pending_tables :: tables where
  "pending_tables = sample_tables\<lparr>handoff_rows := [pending_row]\<rparr>"

lemma pending_holds: "holds (\<lambda>db. db) (Some (pending_tables, None)) pending_tables"
  using sample_inv
  by (simp add: holds_def aff_inv_def handoffs_ok_def pending_tables_def pending_row_def sample_tables_def
      sample_row_def pending_sources_def slot_all_def ids_of_def)


end
