(* ===== verification/Affinity_Live.thy ===== *)
theory Affinity_Live
  imports Affinity_Ownership
begin

text \<open>
  On a healthy database an admissible handoff can always be prepared and bound, and what the store
  returns is what it can be asked for again.
\<close>

lemma validDigest_c_string: "validDigest d \<Longrightarrow> c_string d = d"
  by (auto simp: validDigest_def hex_of_len_def c_string_def list_all_iff takeWhile_eq_all_conv lower_hex_def)

lemma prepare_complete:
  assumes "aff_inv t" and r: "r \<in> set (session_rows t)" "r_state r = ''ready''"
      "r_id r \<notin> set (pending_sources (handoff_rows t))" "src = sOrigin (session_at (r_id r) r)"
    and v: "validOrigin src" "slot_valid tg" "tg \<noteq> r_slot r" "aff_valid cp" "validDigest dg"
      "c_string rnd \<notin> h_id ` set (handoff_rows t)"
    and h: "h = \<lparr>h_id = c_string rnd, h_source = r_id r, h_target = tg, h_checkpoint = cp, h_digest = dg,
      h_consumed_by = [], h_created = stamp now\<rparr>"
  shows "PrepareHandoff pure_query rnd src tg cp dg True now (Some (t, None)) =
    (Inr \<lparr>rID = rnd, rSource = src, rTarget = tg, rCheckpointID = cp, rDigest = dg, rConsumedBy = []\<rparr>,
     Some (t\<lparr>handoff_rows := handoff_rows t @ [h]\<rparr>, None))"
proof -
  have s: "Session src = r_id r" "sOrigin (session_at (r_id r) r) = src" using r(4) by (simp_all add: session_at_def)
  have c: "c_string (r_id r) = r_id r" using assms(1) r(1) by (simp add: aff_inv_def sessions_ok_def)
  let ?v = "\<lparr>rID = rnd, rSource = src, rTarget = tg, rCheckpointID = cp, rDigest = dg, rConsumedBy = []\<rparr>"
  have look: "lookup pure_query (r_id r) (t, Some t) = (Inr (session_at (r_id r) r, ''ready'', r_request r), t, Some t)"
    using lookup_row [OF assms(1) r(1) c] r(2) by simp
  have pend: "pure_query (SelPending (r_id r)) (t, Some t) = (Inr [], t, Some t)"
    using r(3) c pending_select [of "\<lambda>h. [h_id h]" "r_id r" "handoff_rows t"] by (simp add: pure_query_in_tx)
  have "handoffs_admissible t (handoff_rows t @ [h])"
    using assms(1) v(2,6) r(3) unfolding h
    by (auto simp: handoffs_admissible_def aff_inv_def handoffs_ok_def pending_sources_def slot_valid_iff)
  moreover have "r_id r \<in> set (map r_id (session_rows t))" using r(1) by simp
  ultimately have ins: "pure_query (InsHandoff rnd (r_id r) tg cp dg (stamp now)) (t, Some t) =
      (Inr [], t\<lparr>handoff_rows := handoff_rows t @ [h]\<rparr>, Some t)"
    using c v(2,4,5) by (simp add: pure_query_in_tx h Let_def validDigest_c_string)
  have "prepare_body pure_query ?v now (t, Some t) = (Inr (), t\<lparr>handoff_rows := handoff_rows t @ [h]\<rparr>, Some t)"
    using look pend ins s v(3) by (simp add: prepare_body_def session_at_def ret_def)
  from tx_succeeds [OF pure.follows_prepare this] v show ?thesis
    by (simp add: PrepareHandoff_def on_store_def ret_def Let_def)
qed

lemma reservation_row:
  assumes "aff_inv t" and "h \<in> set (handoff_rows t)" and "c_string i = h_id h"
    and "r \<in> set (session_rows t)" and "r_id r = h_source h"
  shows "find_reservation pure_query i (t, sv) =
    (Inr \<lparr>rID = i, rSource = sOrigin (session_at (r_id r) r), rTarget = h_target h, rCheckpointID = h_checkpoint h,
      rDigest = h_digest h, rConsumedBy = h_consumed_by h\<rparr>, t, sv)"
proof -
  have "filter (\<lambda>x. h_id x = h_id h) (handoff_rows t) = [h]"
    using assms(1,2) by (intro filter_unique) (simp_all add: aff_inv_def handoffs_ok_def)
  then have "pure_query (SelHandoff i) (t, sv) =
      (Inr [[h_source h, h_target h, h_checkpoint h, h_digest h, h_consumed_by h]], t, sv)"
    using assms(3) by (simp add: pure_query_in_tx)
  moreover have "c_string (r_id r) = r_id r" using assms(1,4) by (simp add: aff_inv_def sessions_ok_def)
  ultimately show ?thesis
    using lookup_row [OF assms(1,4), of "h_source h"] assms(5) by (simp add: find_reservation_def ret_def)
qed

lemma bind_complete:
  assumes "aff_inv t" and h: "h \<in> set (handoff_rows t)" "c_string i = h_id h" "h_consumed_by h = []"
    and r: "r \<in> set (session_rows t)" "r_id r = h_source h" "r_state r = ''ready''"
    and o1: "validOrigin o1" "Session o1 \<notin> ids_of t" "Project o1 = r_project r" "Worktree o1 = r_worktree r"
      "Branch o1 = r_branch r"
  shows "\<exists>t'. BindHandoff pure_query i o1 True now (Some (t, None)) =
    (Inr \<lparr>sOrigin = o1, Account = h_target h, Wiki = []\<rparr>, Some (t', None))"
proof -
  let ?src = "sOrigin (session_at (r_id r) r)"
  have src: "Session ?src = r_id r" "Project ?src = r_project r" "Worktree ?src = r_worktree r" "Branch ?src = r_branch r"
    by (simp_all add: session_at_def)
  have res: "find_reservation pure_query i (t, Some t) = (Inr \<lparr>rID = i, rSource = ?src, rTarget = h_target h,
      rCheckpointID = h_checkpoint h, rDigest = h_digest h, rConsumedBy = []\<rparr>, t, Some t)"
    using reservation_row [OF assms(1) h(1,2) r(1,2)] h(3) by simp
  have c: "c_string (r_id r) = r_id r" using assms(1) r(1) by (simp add: aff_inv_def sessions_ok_def)
  have look: "lookup pure_query (r_id r) (t, Some t) = (Inr (session_at (r_id r) r, ''ready'', r_request r), t, Some t)"
    using lookup_row [OF assms(1) r(1) c] r(3) by simp
  have v: "c_string (Session o1) = Session o1" "c_string (Project o1) = Project o1"
    "c_string (Worktree o1) = Worktree o1" "c_string (Branch o1) = Branch o1" "Session o1 \<noteq> []"
    using o1(1) by (simp_all add: validOrigin_def) (simp add: aff_valid_def)
  have new: "Session o1 \<noteq> r_id r" using o1(2) ids_ofI [OF r(1)] by auto
  have sel: "pure_query (SelSessionId (Session o1)) (t, Some t) = (Inr [], t, Some t)"
    using o1(2) v(1) by (auto simp: pure_query_in_tx filter_empty_conv dest: ids_ofI)
  have tg: "h_target h \<in> set slot_all" using assms(1) h(1) by (simp add: aff_inv_def handoffs_ok_def)
  let ?n = "\<lparr>r_id = Session o1, r_project = Project o1, r_worktree = Worktree o1, r_branch = Branch o1,
    r_slot = h_target h, r_last_seen = stamp now, r_state = ''ready'', r_request = []\<rparr>"
  have ins: "pure_query (InsSession (Session o1) (Project o1) (Worktree o1) (Branch o1) (h_target h) (stamp now)) (t, Some t) =
      (Inr [], add_session ?n t, Some t)"
    using o1(2) v tg assms(1)
    by (simp add: pure_query_in_tx add_session_def ids_of_def aff_inv_def slot_valid_iff [symmetric])
  have "handoffs_admissible (add_session ?n t) (handoff_rows (consume (h_id h) (Session o1) (add_session ?n t)))"
    using assms(1) v(5)
    by (auto simp: handoffs_admissible_def aff_inv_def handoffs_ok_def consume_def add_session_def pending_consume map_update_id
        simp del: map_map)
  then have upd: "pure_query (UpdConsumed (Session o1) i) (add_session ?n t, Some t) =
      (Inr [], consume (h_id h) (Session o1) (add_session ?n t), Some t)"
    using v(1) h(2) by (simp add: pure_query_in_tx consume_def Let_def)
  have "bind_body pure_query i o1 now (t, Some t) =
      (Inr \<lparr>sOrigin = o1, Account = h_target h, Wiki = []\<rparr>, consume (h_id h) (Session o1) (add_session ?n t), Some t)"
    using res look sel ins upd new src o1(3-5) by (simp add: bind_body_def ret_def)
  from tx_succeeds [OF pure.follows_bind this] o1(1) show ?thesis
    by (simp add: BindHandoff_def on_store_def)
qed



end
