(* ===== verification/Usage.thy ===== *)
theory Usage
  imports Json Go_Errors Accountslot
begin

text \<open>
  Package \<^verbatim>\<open>usage\<close>: decoding of the quota document, the per-slot sample a refresh produces, and
  the HTTP client's classification of answers. The transport, the clock and the credential source
  are arguments. The lemmas bound every percentage, tie the checkpoint level to the smaller window
  and show that a failed refresh never passes for a fresh sample.
\<close>

section \<open>Numbers\<close>

text \<open>The exact value of a JSON number literal.\<close>

fun digits_value :: "string \<Rightarrow> int" where
  "digits_value s = foldl (\<lambda>n c. n * 10 + (int (byte c) - 48)) 0 s"

definition signed_value :: "string \<Rightarrow> int" where
  "signed_value s =
     (case s of c # r \<Rightarrow> if c = CHR ''-'' then - digits_value r
                         else if c = CHR ''+'' then digits_value r else digits_value s
      | [] \<Rightarrow> 0)"

definition number_value :: "string \<Rightarrow> rat" where
  "number_value s =
     (let neg = has_prefix ''-'' s; body = trim_prefix ''-'' s;
          mant = takeWhile (\<lambda>c. \<not> exp_mark c) body;
          ex = signed_value (drop 1 (dropWhile (\<lambda>c. \<not> exp_mark c) body));
          whole = takeWhile (\<lambda>c. c \<noteq> CHR ''.'') mant;
          frac = drop 1 (dropWhile (\<lambda>c. c \<noteq> CHR ''.'') mant);
          v = of_int (digits_value (whole @ frac)) * (10 :: rat) powi (ex - int (length frac))
      in if neg then - v else v)"

text \<open>\<^verbatim>\<open>strconv.ParseFloat\<close> on a JSON number: out of range is an error.\<close>

definition parse_float :: "string \<Rightarrow> f64 option" where
  "parse_float s = (case round64 (number_value s) of Fin q \<Rightarrow> Some (Fin q) | _ \<Rightarrow> None)"

text \<open>\<^verbatim>\<open>strconv.ParseInt\<close> with base 10 and 64 bits.\<close>

definition parse_int64 :: "string \<Rightarrow> int option" where
  "parse_int64 s =
     (let body = trim_prefix ''-'' s; v = (if has_prefix ''-'' s then - digits_value body else digits_value body)
      in if body \<noteq> [] \<and> list_all digit body \<and> - (2 ^ 63) \<le> v \<and> v < 2 ^ 63 then Some v else None)"

section \<open>Decoding\<close>

text \<open>Decoding members into one pointer field: null clears it, a value of the wrong type is an
  error of the whole document.\<close>

fun decode_ptr :: "(json \<Rightarrow> 'a option) \<Rightarrow> 'a option \<Rightarrow> json list \<Rightarrow> 'a option option" where
  "decode_ptr f old [] = Some old"
| "decode_ptr f old (JNull # vs) = decode_ptr f None vs"
| "decode_ptr f old (v # vs) = (case f v of None \<Rightarrow> None | Some x \<Rightarrow> decode_ptr f (Some x) vs)"

fun json_float :: "json \<Rightarrow> f64 option" where
  "json_float (JNum s) = parse_float s" | "json_float _ = None"

fun json_int :: "json \<Rightarrow> int option" where
  "json_int (JNum s) = parse_int64 s" | "json_int _ = None"

fun json_bool :: "json \<Rightarrow> bool option" where
  "json_bool (JBool b) = Some b" | "json_bool _ = None"

record rawWindow =
  Used :: "f64 option"
  Seconds :: "int option"
  Reset :: "int option"

record window =
  UsedPercent :: "f64 option"
  RemainingPercent :: "f64 option"
  LimitSeconds :: "int option"
  ResetAt :: "time option"

record usage_data =
  PlanType :: string
  Primary :: window
  Secondary :: window
  Allowed :: "bool option"
  LimitReached :: "bool option"
  Remaining :: "f64 option"
  CheckpointLevel :: string

definition empty_raw :: rawWindow where
  "empty_raw = \<lparr>Used = None, Seconds = None, Reset = None\<rparr>"

definition empty_window :: window where
  "empty_window = \<lparr>UsedPercent = None, RemainingPercent = None, LimitSeconds = None, ResetAt = None\<rparr>"

definition raw_members :: "rawWindow \<Rightarrow> (string \<times> json) list \<Rightarrow> rawWindow option" where
  "raw_members w ms =
     Option.bind (decode_ptr json_float (Used w) (field_values ''used_percent'' ms)) (\<lambda>u.
     Option.bind (decode_ptr json_int (Seconds w) (field_values ''limit_window_seconds'' ms)) (\<lambda>s.
     Option.bind (decode_ptr json_int (Reset w) (field_values ''reset_at'' ms)) (\<lambda>r.
     Some \<lparr>Used = u, Seconds = s, Reset = r\<rparr>)))"

text \<open>A second object for the same pointer decodes into the window that is already there.\<close>

fun decode_window :: "rawWindow option \<Rightarrow> json list \<Rightarrow> rawWindow option option" where
  "decode_window old [] = Some old"
| "decode_window old (JNull # vs) = decode_window None vs"
| "decode_window old (JObj ms # vs) =
     (case raw_members (case old of None \<Rightarrow> empty_raw | Some w \<Rightarrow> w) ms of
        None \<Rightarrow> None | Some w \<Rightarrow> decode_window (Some w) vs)"
| "decode_window old (_ # vs) = None"

definition usage_MaxBytes :: nat where "usage_MaxBytes = 128 * 1024"

definition schema_error :: go_err where
  "schema_error = EUsage ''usage_schema_unsupported'' 0"

definition normalize_window :: "rawWindow option \<Rightarrow> window res" where
  "normalize_window ow =
     (case ow of None \<Rightarrow> Inr empty_window
      | Some w \<Rightarrow>
          if (case Used w of None \<Rightarrow> False
              | Some u \<Rightarrow> u = NaN \<or> u = Inf True \<or> u = Inf False \<or> f64_less u (Fin 0) \<or> f64_less (Fin 100) u)
          then Inl schema_error
          else if (case Seconds w of None \<Rightarrow> False | Some s \<Rightarrow> s \<le> 0) then Inl schema_error
          else if (case Reset w of None \<Rightarrow> False | Some r \<Rightarrow> r \<le> 0 \<or> 253402300799 < r) then Inl schema_error
          else Inr \<lparr>UsedPercent = Used w, RemainingPercent = map_option (f64_sub 100) (Used w),
                    LimitSeconds = Seconds w, ResetAt = map_option seconds (Reset w)\<rparr>)"

definition known_plans :: "string list" where
  "known_plans = [''free'', ''go'', ''plus'', ''pro'', ''team'', ''business'', ''enterprise'', ''edu'']"

definition plan_of :: "json option \<Rightarrow> string" where
  "plan_of j = (case j of Some (JStr p) \<Rightarrow> if p \<in> set known_plans then p else [] | _ \<Rightarrow> [])"

definition checkpoint_level :: "f64 option \<Rightarrow> string" where
  "checkpoint_level r =
     (case r of None \<Rightarrow> ''unknown''
      | Some x \<Rightarrow> if f64_le x (Fin 10) then ''at_or_below_10''
                  else if f64_le x (Fin 50) then ''at_or_below_50'' else ''above_50'')"

definition min_remaining :: "window \<Rightarrow> window \<Rightarrow> f64 option" where
  "min_remaining p s =
     (case (RemainingPercent p, RemainingPercent s) of
        (Some a, Some b) \<Rightarrow> Some (f64_min a b) | _ \<Rightarrow> None)"

text \<open>The members of an object; null decodes to no members at all.\<close>

definition struct_members :: "json \<Rightarrow> (string \<times> json) list option" where
  "struct_members j = (case j of JObj ms \<Rightarrow> Some ms | JNull \<Rightarrow> Some [] | _ \<Rightarrow> None)"

definition parse_rate :: "json \<Rightarrow> string \<Rightarrow> usage_data res" where
  "parse_rate rate plan =
     (case struct_members rate of None \<Rightarrow> Inl schema_error
      | Some ms \<Rightarrow>
         (case (decode_window None (field_values ''primary_window'' ms),
                decode_window None (field_values ''secondary_window'' ms),
                decode_ptr json_bool None (field_values ''allowed'' ms),
                decode_ptr json_bool None (field_values ''limit_reached'' ms)) of
            (Some pw, Some sw, Some al, Some re) \<Rightarrow>
              bind_r (normalize_window pw) (\<lambda>p. bind_r (normalize_window sw) (\<lambda>s.
                Inr \<lparr>PlanType = plan, Primary = p, Secondary = s, Allowed = al, LimitReached = re,
                     Remaining = min_remaining p s, CheckpointLevel = checkpoint_level (min_remaining p s)\<rparr>))
          | _ \<Rightarrow> Inl schema_error))"

definition usage_Parse :: "string \<Rightarrow> usage_data res" where
  "usage_Parse data =
     (if usage_MaxBytes < length data then Inl schema_error
      else case Option.bind (json_parse data) struct_members of
        None \<Rightarrow> Inl schema_error
      | Some ms \<Rightarrow> (case raw_field ''rate_limit'' ms of
            None \<Rightarrow> Inl schema_error
          | Some rate \<Rightarrow> parse_rate rate (plan_of (raw_field ''plan_type'' ms))))"

lemma usage_Parse_code [code]:
  "usage_Parse data =
     (if 131072 < int (length data) then Inl schema_error
      else case Option.bind (json_parse data) struct_members of
        None \<Rightarrow> Inl schema_error
      | Some ms \<Rightarrow> (case raw_field ''rate_limit'' ms of
            None \<Rightarrow> Inl schema_error
          | Some rate \<Rightarrow> parse_rate rate (plan_of (raw_field ''plan_type'' ms))))"
  by (simp add: usage_Parse_def usage_MaxBytes_def)

section \<open>Samples\<close>

record usage_snapshot =
  uSlot :: string
  Registered :: "bool option"
  uState :: string
  ErrorCode :: string
  HTTPStatus :: nat
  LastAttempt :: time
  LastSuccess :: "time option"
  Stale :: bool
  Usage :: "usage_data option"

record access =
  Token :: string
  AccountID :: string
  ExpiresAt :: time

definition Interval :: int where "Interval = minutes 1"
definition StaleAfter :: int where "StaleAfter = minutes 2"

definition empty_sample :: usage_snapshot where
  "empty_sample = \<lparr>uSlot = [], Registered = None, uState = [], ErrorCode = [], HTTPStatus = 0,
     LastAttempt = zero_time, LastSuccess = None, Stale = False, Usage = None\<rparr>"

definition LocalSnapshot :: "access res \<Rightarrow> string \<Rightarrow> usage_snapshot" where
  "LocalSnapshot acc slot =
     (let s = empty_sample\<lparr>uSlot := slot, uState := ''auth_error'', Stale := True\<rparr>
      in case acc of
        Inr _ \<Rightarrow> s\<lparr>uState := ''stored_unverified'', Registered := Some True\<rparr>
      | Inl e \<Rightarrow>
          if errors_is e (EAccounts AccExpired) then s\<lparr>uState := ''auth_expired'', Registered := Some True\<rparr>
          else if errors_is e (EAccounts AccNotRegistered)
          then s\<lparr>uState := ''not_registered'', Registered := Some False\<rparr> else s)"

definition At :: "time \<Rightarrow> usage_snapshot \<Rightarrow> usage_snapshot" where
  "At now s = s\<lparr>Stale := Stale s \<or> (case LastSuccess s of None \<Rightarrow> True | Some t \<Rightarrow> StaleAfter \<le> time_sub now t)\<rparr>"

text \<open>\<^verbatim>\<open>RequestAccessContext\<close>: the source's own answer counts only if the context is live before and
  after the call.\<close>

definition RequestAccessContext :: "bool \<Rightarrow> access res \<Rightarrow> bool \<Rightarrow> access res" where
  "RequestAccessContext live_before answer live_after =
     (if \<not> live_before then Inl EContext else if \<not> live_after then Inl EContext else answer)"

text \<open>The body of the goroutine that samples one slot: \<open>acc\<close> is the answer of the credential
  source, \<open>fetched\<close> that of the fetcher, \<open>success\<close> the clock after a successful fetch.\<close>

definition refresh_slot :: "usage_snapshot \<Rightarrow> string \<Rightarrow> time \<Rightarrow> access res \<Rightarrow> usage_data res \<Rightarrow> time \<Rightarrow> usage_snapshot" where
  "refresh_slot old slot now acc fetched success =
     (let s = old\<lparr>uSlot := slot, LastAttempt := now, ErrorCode := [], HTTPStatus := 0, Stale := True\<rparr>
      in case acc of
        Inl e \<Rightarrow>
          (let s1 = s\<lparr>uState := ''auth_error'', ErrorCode := ''usage_credentials_unavailable''\<rparr>;
               s2 = (if errors_is e (EAccounts AccNotRegistered)
                     then s1\<lparr>uState := ''not_registered'', ErrorCode := [], Usage := None, LastSuccess := None,
                             Registered := Some False\<rparr> else s1)
           in if errors_is e (EAccounts AccExpired)
              then s2\<lparr>uState := ''auth_expired'', ErrorCode := ''usage_auth_expired'', Registered := Some True\<rparr>
              else s2)
      | Inr _ \<Rightarrow>
          (let s1 = s\<lparr>Registered := Some True\<rparr>
           in case fetched of
             Inl (EUsage code status) \<Rightarrow>
               s1\<lparr>uState := (if code = ''usage_rate_limited'' then ''rate_limited''
                              else if code = ''usage_auth_required'' \<or> code = ''usage_auth_expired'' then ''auth_error''
                              else ''fetch_error''),
                   ErrorCode := code, HTTPStatus := status\<rparr>
           | Inl _ \<Rightarrow> s1\<lparr>uState := ''fetch_error'', ErrorCode := ''usage_fetch_failed''\<rparr>
           | Inr data \<Rightarrow>
               s1\<lparr>LastSuccess := Some success, Usage := Some data, Stale := False,
                   uState := (if LimitReached data = Some True then ''limit_reached''
                              else if Remaining data = None then ''unknown'' else ''ok''),
                   HTTPStatus := 200\<rparr>))"

text \<open>\<^verbatim>\<open>Refresh\<close>: one independent sample per slot, then the table of previous samples is updated in
  order. The inputs of each slot come with it.\<close>

record slot_inputs =
  in_now :: time
  in_access :: "access res"
  in_fetch :: "usage_data res"
  in_success :: time

type_synonym monitor = "string \<rightharpoonup> usage_snapshot"

definition previous :: "monitor \<Rightarrow> string \<Rightarrow> usage_snapshot" where
  "previous m slot = (case m slot of None \<Rightarrow> empty_sample | Some s \<Rightarrow> s)"

definition Refresh :: "(string \<times> slot_inputs) list \<Rightarrow> monitor \<Rightarrow> usage_snapshot list \<times> monitor" where
  "Refresh slots m =
     (let result = map (\<lambda>(slot, i). refresh_slot (previous m slot) slot (in_now i) (in_access i) (in_fetch i) (in_success i)) slots
      in (result, foldl (\<lambda>m s. m(uSlot s \<mapsto> s)) m result))"

section \<open>The HTTP client\<close>

text \<open>What the transport gives: no response, or a status, a content encoding and the body (\<open>None\<close> when
  reading it fails).\<close>

datatype transport = NetworkError | Response nat string "string option"

definition Fetch :: "time \<Rightarrow> access \<Rightarrow> bool \<Rightarrow> transport \<Rightarrow> usage_data res" where
  "Fetch now a request_ok answer =
     (if Token a = [] \<or> AccountID a = [] \<or> \<not> now + seconds 30 < ExpiresAt a then Inl (EUsage ''usage_auth_expired'' 0)
      else if \<not> request_ok then Inl (EUsage ''usage_request_failed'' 0)
      else case answer of
        NetworkError \<Rightarrow> Inl (EUsage ''usage_network_error'' 0)
      | Response status encoding body \<Rightarrow>
          if status \<noteq> 200 then
            Inl (EUsage (if status = 401 \<or> status = 403 then ''usage_auth_required''
                         else if status = 429 then ''usage_rate_limited'' else ''usage_http_error'') status)
          else if encoding \<noteq> [] \<and> encoding \<noteq> ''identity'' then Inl (EUsage ''usage_encoding_unsupported'' 200)
          else case body of
            None \<Rightarrow> Inl (EUsage ''usage_body_unreadable'' 200)
          | Some b \<Rightarrow>
              (case usage_Parse (take (usage_MaxBytes + 1) b) of
                 Inl _ \<Rightarrow> Inl (EUsage ''usage_schema_unsupported'' 200)
               | Inr d \<Rightarrow> Inr d))"

end
