(* ===== verification/Routing.thy ===== *)
theory Routing
  imports Usage Affinity
begin

text \<open>
  Package \<^verbatim>\<open>routing\<close>: the choice of an account for a new conversation and the guarded handoff
  operations. The router owns either the in-memory handoff store or the durable affinity store
  (over a connection \<open>q\<close>); the credential source is the argument \<open>acc\<close>.
\<close>

record identity =
  iSession :: string
  iToken :: string
  iAccountID :: string
  iOrigin :: origin
  iSlot :: string

record 'db router =
  mem_sessions :: mem_store
  disk :: "'db store option"
  threshold :: f64
  samples :: "string \<rightharpoonup> usage_snapshot"

type_synonym access_source = "string \<Rightarrow> time \<Rightarrow> access res"

definition router_New :: "bool \<Rightarrow> f64 \<Rightarrow> 'db router res" where
  "router_New has_access th =
     (if \<not> has_access \<or> th = NaN \<or> f64_less th (Fin 80) \<or> f64_less (Fin 95) th then Inl (ERouting RtPolicy)
      else Inr \<lparr>mem_sessions = new_store, disk = None, threshold = th, samples = Map.empty\<rparr>)"

definition NewPersistent :: "bool \<Rightarrow> f64 \<Rightarrow> 'db store option \<Rightarrow> 'db router res" where
  "NewPersistent has_access th store =
     (case store of None \<Rightarrow> Inl (ERouting RtPolicy)
      | Some s \<Rightarrow> bind_r (router_New has_access th) (\<lambda>r. Inr (r\<lparr>disk := Some s\<rparr>)))"

text \<open>The copies \<^verbatim>\<open>Update\<close> makes protect against later mutation by the caller; values cannot be
  mutated here, so a copy is the value itself.\<close>

definition update_sample :: "(string \<rightharpoonup> usage_snapshot) \<Rightarrow> usage_snapshot \<Rightarrow> (string \<rightharpoonup> usage_snapshot)" where
  "update_sample m s =
     (if \<not> slot_valid (uSlot s) then m
      else case m (uSlot s) of
        Some old \<Rightarrow> if \<not> LastAttempt old < LastAttempt s then m else m(uSlot s \<mapsto> s)
      | None \<Rightarrow> m(uSlot s \<mapsto> s))"

definition router_Update :: "usage_snapshot list \<Rightarrow> 'db router \<Rightarrow> 'db router" where
  "router_Update ss r = r\<lparr>samples := foldl update_sample (samples r) ss\<rparr>"

text \<open>The loop over the two windows: \<open>None\<close> when the function returns early.\<close>

fun windows_remaining :: "time \<Rightarrow> f64 \<Rightarrow> window list \<Rightarrow> f64 option" where
  "windows_remaining now rem [] = Some rem"
| "windows_remaining now rem (w # ws) =
     (case UsedPercent w of
        None \<Rightarrow> None
      | Some u \<Rightarrow>
          if u = NaN \<or> f64_less u (Fin 0) \<or> f64_less (Fin 100) u then None
          else if (case ResetAt w of None \<Rightarrow> False | Some t \<Rightarrow> \<not> now < t) then None
          else windows_remaining now (f64_min rem (f64_sub 100 u)) ws)"

definition remaining :: "'db router \<Rightarrow> string \<Rightarrow> time \<Rightarrow> f64 \<times> bool" where
  "remaining r slot now =
     (case samples r slot of
        None \<Rightarrow> (Fin 0, False)
      | Some s \<Rightarrow>
          if Stale (At now s) \<or> uState s \<noteq> ''ok'' \<or> ErrorCode s \<noteq> []
             \<or> (case LastSuccess s of Some t \<Rightarrow> now < t | None \<Rightarrow> False) \<or> now < LastAttempt s
          then (Fin 0, False)
          else case Usage s of
            None \<Rightarrow> (Fin 0, False)
          | Some d \<Rightarrow>
              if Allowed d \<noteq> Some True \<or> LimitReached d \<noteq> Some False then (Fin 0, False)
              else case windows_remaining now (Fin 100) [Primary d, Secondary d] of
                None \<Rightarrow> (Fin 0, False)
              | Some rem \<Rightarrow> (rem, f64_less (Fin 0) rem))"

definition router_lookup :: "'db conn \<Rightarrow> string \<Rightarrow> 'db router \<Rightarrow> hsession res \<times> 'db router" where
  "router_lookup q i r =
     (case disk r of
        Some s \<Rightarrow> (case Lookup q i s of (x, s1) \<Rightarrow> (x, r\<lparr>disk := Some s1\<rparr>))
      | None \<Rightarrow> (case mem_Session i (mem_sessions r) of
            None \<Rightarrow> (Inl Unknown, r) | Some x \<Rightarrow> (Inr x, r)))"

text \<open>The selection loop: the slot chosen so far with its remaining percentage, and the two flags.\<close>

record choice =
  chosen :: string
  best :: f64
  usageUnavailable :: bool
  authUnavailable :: bool

definition sample_unusable :: "'db router \<Rightarrow> string \<Rightarrow> time \<Rightarrow> bool" where
  "sample_unusable r slot now =
     (case samples r slot of
        None \<Rightarrow> True
      | Some s \<Rightarrow> Stale (At now s) \<or> ErrorCode s \<noteq> []
          \<or> uState s \<noteq> ''not_registered'' \<and> uState s \<noteq> ''limit_reached'' \<and> uState s \<noteq> ''ok''
          \<or> uState s = ''ok'' \<and> (Usage s = None \<or> now < LastAttempt s))"

definition choose_step :: "access_source \<Rightarrow> 'db router \<Rightarrow> time \<Rightarrow> choice \<Rightarrow> string \<Rightarrow> choice" where
  "choose_step acc r now c slot =
     (case remaining r slot now of (left, ok) \<Rightarrow>
        if \<not> ok \<or> f64_le left (Fin 0) then
          (if sample_unusable r slot now then c\<lparr>usageUnavailable := True\<rparr> else c)
        else if isl (acc slot now) then c\<lparr>authUnavailable := True\<rparr>
        else if f64_less (best c) left then c\<lparr>chosen := slot, best := left\<rparr> else c)"

definition choose_slot :: "access_source \<Rightarrow> 'db router \<Rightarrow> time \<Rightarrow> choice" where
  "choose_slot acc r now =
     foldl (choose_step acc r now)
       \<lparr>chosen = [], best = Fin (- 1), usageUnavailable = False, authUnavailable = False\<rparr> slot_all"

definition mem_result :: "('a \<Rightarrow> 'b) \<Rightarrow> (handoff_err + 'a) \<Rightarrow> 'b res" where
  "mem_result f x = (case x of Inl e \<Rightarrow> Inl (EHandoff e) | Inr y \<Rightarrow> Inr (f y))"

definition router_Register :: "'db conn \<Rightarrow> access_source \<Rightarrow> origin \<Rightarrow> bool \<Rightarrow> time \<Rightarrow> 'db router \<Rightarrow>
    hsession res \<times> 'db router" where
  "router_Register q acc o1 userInput now r0 =
     (if \<not> userInput then (Inl (EHandoff HandInputRequired), r0)
      else case router_lookup q (Session o1) r0 of
        (Inr _, r) \<Rightarrow> (Inl (EHandoff HandConflict), r)
      | (Inl e, r) \<Rightarrow>
          if \<not> errors_is e Unknown then (Inl e, r)
          else let c = choose_slot acc r now in
            if chosen c = [] then
              (Inl (if authUnavailable c then EJoined (ERouting RtUnavailable) (ERouting RtCredentialsUnavailable)
                    else if usageUnavailable c then EJoined (ERouting RtUnavailable) (ERouting RtUsageUnavailable)
                    else ERouting RtUnavailable), r)
            else case disk r of
              Some s \<Rightarrow> (case Register q o1 (chosen c) now s of (x, s1) \<Rightarrow> (x, r\<lparr>disk := Some s1\<rparr>))
            | None \<Rightarrow>
                (case SetAccount (chosen c) True (mem_sessions r) of
                   (Some e, m) \<Rightarrow> (Inl (EHandoff e), r\<lparr>mem_sessions := m\<rparr>)
                 | (None, m) \<Rightarrow> (case mem_Register o1 (chosen c) m of
                       (x, m1) \<Rightarrow> (mem_result (\<lambda>y. y) x, r\<lparr>mem_sessions := m1\<rparr>))))"

definition Resolve :: "'db conn \<Rightarrow> access_source \<Rightarrow> origin \<Rightarrow> time \<Rightarrow> 'db router \<Rightarrow> identity res \<times> 'db router" where
  "Resolve q acc o1 now r0 =
     (case router_lookup q (Session o1) r0 of
        (Inl e, r) \<Rightarrow> (Inl (if errors_is e Unknown then ERouting RtIdentity else e), r)
      | (Inr s, r) \<Rightarrow>
          if sOrigin s \<noteq> o1 then (Inl (ERouting RtIdentity), r)
          else case (case disk r of None \<Rightarrow> (Inr (), r)
                     | Some d \<Rightarrow> (case Ready q o1 d of (x, d1) \<Rightarrow> (x, r\<lparr>disk := Some d1\<rparr>))) of
            (Inl e, r1) \<Rightarrow> (Inl e, r1)
          | (Inr _, r1) \<Rightarrow>
              if \<not> snd (remaining r1 (Account s) now) then (Inl (ERouting RtUnavailable), r1)
              else case acc (Account s) now of
                Inl _ \<Rightarrow> (Inl (ERouting RtUnavailable), r1)
              | Inr a \<Rightarrow> (Inr \<lparr>iSession = Session o1, iToken = Token a, iAccountID = AccountID a,
                              iOrigin = o1, iSlot = Account s\<rparr>, r1))"

definition router_Session :: "'db conn \<Rightarrow> string \<Rightarrow> 'db router \<Rightarrow> hsession option \<times> 'db router" where
  "router_Session q i r =
     (case router_lookup q i r of (Inl _, r1) \<Rightarrow> (None, r1) | (Inr x, r1) \<Rightarrow> (Some x, r1))"

section \<open>Handoffs\<close>

definition target :: "access_source \<Rightarrow> 'db router \<Rightarrow> string \<Rightarrow> time \<Rightarrow> bool" where
  "target acc r slot now =
     (if \<not> slot_valid slot then False
      else case remaining r slot now of (left, ok) \<Rightarrow>
        if \<not> ok \<or> f64_le left (f64_sub 100 (threshold r)) then False else is_ok (acc slot now))"

definition router_PrepareHandoff :: "'db conn \<Rightarrow> access_source \<Rightarrow> string \<Rightarrow> origin \<Rightarrow> string \<Rightarrow> snapshot \<Rightarrow> bool \<Rightarrow> time \<Rightarrow>
    'db router \<Rightarrow> reservation res \<times> 'db router" where
  "router_PrepareHandoff q acc rnd source tg sn boundary now r =
     (case disk r of
        None \<Rightarrow> (Inl (ERouting RtIdentity), r)
      | Some s \<Rightarrow>
          if Origin (Metadata sn) \<noteq> source then (Inl (ERouting RtIdentity), r)
          else case CheckBytes (Markdown sn) (Metadata sn) now of
            Inl _ \<Rightarrow> (Inl (ERouting RtIdentity), r)
          | Inr checked \<Rightarrow>
              if SHA256 checked \<noteq> SHA256 sn then (Inl (ERouting RtIdentity), r)
              else if \<not> target acc r tg now then (Inl (ERouting RtUnavailable), r)
              else case PrepareHandoff q rnd source tg (ID (Metadata sn)) (SHA256 sn) boundary now s of
                (x, s1) \<Rightarrow> (x, r\<lparr>disk := Some s1\<rparr>))"

definition router_BindHandoff :: "'db conn \<Rightarrow> access_source \<Rightarrow> string \<Rightarrow> origin \<Rightarrow> snapshot \<Rightarrow> bool \<Rightarrow> time \<Rightarrow>
    'db router \<Rightarrow> hsession res \<times> 'db router" where
  "router_BindHandoff q acc i o1 sn userInput now r =
     (if \<not> userInput then (Inl (EHandoff HandInputRequired), r)
      else case disk r of
        None \<Rightarrow> (Inl (ERouting RtIdentity), r)
      | Some s \<Rightarrow>
          (case Handoff q i s of
             (Inl e, s1) \<Rightarrow> (Inl e, r\<lparr>disk := Some s1\<rparr>)
           | (Inr v, s1) \<Rightarrow>
               (let r1 = r\<lparr>disk := Some s1\<rparr> in
                if rConsumedBy v \<noteq> [] \<or> Origin (Metadata sn) \<noteq> rSource v \<or> ID (Metadata sn) \<noteq> rCheckpointID v
                   \<or> SHA256 sn \<noteq> rDigest v then (Inl (ERouting RtIdentity), r1)
                else case CheckBytes (Markdown sn) (Metadata sn) now of
                  Inl _ \<Rightarrow> (Inl (ERouting RtIdentity), r1)
                | Inr checked \<Rightarrow>
                    if SHA256 checked \<noteq> rDigest v then (Inl (ERouting RtIdentity), r1)
                    else if \<not> target acc r1 (rTarget v) now then (Inl (ERouting RtUnavailable), r1)
                    else case BindHandoff q i o1 True now s1 of (x, s2) \<Rightarrow> (x, r\<lparr>disk := Some s2\<rparr>))))"

end
