(* ===== verification/Routing_Props.thy ===== *)
theory Routing_Props
  imports Routing Affinity_Live Checkpoint_Props
begin

text \<open>
  What the router promises: percentages stay in range, only fresh, successful and allowed samples
  count, a new conversation goes to a slot with the most remaining quota, older observations never
  overwrite newer ones, and handoffs only reach a slot below the threshold with exactly the
  checkpoint bytes that were prepared.
\<close>

section \<open>Rounding keeps percentages in range\<close>

lemma round_half_even_le: "q \<le> of_int n \<Longrightarrow> round_half_even q \<le> n"
proof -
  assume q: "q \<le> of_int n"
  then have f: "\<lfloor>q\<rfloor> \<le> n" by linarith
  show ?thesis
  proof (cases "\<lfloor>q\<rfloor> = n")
    case True
    with q have "q - of_int \<lfloor>q\<rfloor> \<le> 0" by simp
    then have "q - of_int \<lfloor>q\<rfloor> < 1 / 2" by linarith
    with True show ?thesis by (simp add: round_half_even_def Let_def)
  next
    case False
    with f have "\<lfloor>q\<rfloor> + 1 \<le> n" by simp
    with f show ?thesis by (auto simp: round_half_even_def Let_def)
  qed
qed

lemma round_half_even_nonneg: "0 \<le> q \<Longrightarrow> 0 \<le> round_half_even q"
  by (auto simp: round_half_even_def Let_def intro: order_trans [of 0 "\<lfloor>q\<rfloor>"])

lemma exponent_le_start: "exponent q e \<le> e"
proof (induction q e rule: exponent.induct)
  case (1 q e)
  then show ?case by (subst exponent.simps) fastforce
qed

lemma exponent_le:
  assumes "0 \<le> q" and "q < 2 powi (k + 1)" and "- 1022 \<le> k" and "k \<le> e"
  shows "exponent q e \<le> k"
  using assms
proof (induction q e rule: exponent.induct)
  case (1 q e)
  show ?case
  proof (cases "e = k")
    case True
    then show ?thesis using exponent_le_start by simp
  next
    case False
    with 1 have "k + 1 \<le> e" by simp
    then have "(2 :: rat) powi (k + 1) \<le> 2 powi e" by (intro power_int_increasing) auto
    with 1 False have "\<not> 2 powi e \<le> q" "\<not> e \<le> - 1022" "k \<le> e - 1" by auto
    with 1 show ?thesis by (subst exponent.simps) simp
  qed
qed

lemma round64_percent:
  assumes "0 \<le> q" and "q \<le> 100"
  shows "\<exists>v. round64 q = Fin v \<and> 0 \<le> v \<and> v \<le> 100"
proof -
  define x where "x = exponent \<bar>q\<bar> 1023"
  have "q < 2 powi (6 + 1)" using assms(2) by (simp add: power_int_def)
  then have x: "x \<le> 6" unfolding x_def using assms(1) by (intro exponent_le) auto
  define ulp :: rat where "ulp = 2 powi (x - 52)"
  have ulp: "0 < ulp" by (simp add: ulp_def)
  define n :: int where "n = 100 * 2 ^ nat (52 - x)"
  have "ulp * of_int n = 100 * (2 powi (x - 52) * 2 powi (52 - x))"
    using x by (simp add: ulp_def n_def power_int_def)
  also have "\<dots> = 100" by (simp flip: power_int_add)
  finally have n: "of_int n = 100 / ulp" using ulp by (simp add: field_simps)
  have "q / ulp \<le> of_int n" unfolding n using assms(2) ulp by (simp add: divide_right_mono)
  then have "round_half_even (q / ulp) \<le> n" by (rule round_half_even_le)
  then have "(of_int (round_half_even (q / ulp)) :: rat) \<le> of_int n" by (simp only: of_int_le_iff)
  then have "of_int (round_half_even (q / ulp)) * ulp \<le> (100 / ulp) * ulp"
    unfolding n using ulp by (intro mult_right_mono) auto
  then have hi: "of_int (round_half_even (q / ulp)) * ulp \<le> 100" using ulp by simp
  have lo: "0 \<le> of_int (round_half_even (q / ulp)) * ulp"
    using round_half_even_nonneg [of "q / ulp"] assms(1) ulp by simp
  have "(100 :: rat) < 2 powi 7" by (simp add: power_int_def)
  also have "\<dots> \<le> 2 powi 1024" by (intro power_int_increasing) auto
  finally have "\<not> 2 powi 1024 \<le> \<bar>of_int (round_half_even (q / ulp)) * ulp\<bar>"
    using hi lo by linarith
  then have "round64 q = Fin (of_int (round_half_even (q / ulp)) * ulp)"
    unfolding round64_def Let_def x_def [symmetric] ulp_def [symmetric] by simp
  with hi lo show ?thesis by blast
qed

text \<open>A percentage: a finite value between 0 and 100.\<close>

definition percent :: "f64 \<Rightarrow> bool" where
  "percent u \<longleftrightarrow> (\<exists>v. u = Fin v \<and> 0 \<le> v \<and> v \<le> 100)"

lemma percent_sub: "percent u \<Longrightarrow> percent (f64_sub 100 u)"
  using round64_percent by (auto simp: percent_def f64_sub_def)

lemma percent_min: "percent a \<Longrightarrow> percent b \<Longrightarrow> percent (f64_min a b)"
  by (auto simp: percent_def f64_min_def)

lemma percentI: "u \<noteq> NaN \<Longrightarrow> \<not> f64_less u (Fin 0) \<Longrightarrow> \<not> f64_less (Fin 100) u \<Longrightarrow> percent u"
  by (cases u) (auto simp: percent_def)

section \<open>The quota document\<close>

definition window_ok :: "window \<Rightarrow> bool" where
  "window_ok w \<longleftrightarrow>
     (case UsedPercent w of None \<Rightarrow> RemainingPercent w = None
      | Some u \<Rightarrow> percent u \<and> (\<exists>r. RemainingPercent w = Some r \<and> percent r)) \<and>
     (case LimitSeconds w of None \<Rightarrow> True | Some s \<Rightarrow> 0 < s) \<and>
     (case ResetAt w of None \<Rightarrow> True | Some t \<Rightarrow> 0 < t \<and> t \<le> seconds 253402300799)"

lemma normalize_ok: "normalize_window ow = Inr w \<Longrightarrow> window_ok w"
  by (auto simp: normalize_window_def window_ok_def empty_window_def percent_sub percentI seconds_def
      split: option.splits if_splits)

text \<open>C27: A quota document that is accepted is in range, whatever bytes the server sent: every used and
  remaining percentage is a finite number between 0 and 100 (floating-point rounding of the
  subtraction included), window lengths are positive, reset times lie between the epoch and the year
  9999, the plan is one of the known names or empty, and the checkpoint level is exactly determined by
  the smaller remaining percentage of the two windows, unknown when either is missing.\<close>

theorem usage_parse_in_range:
  assumes "usage_Parse data = Inr d"
  shows "window_ok (Primary d) \<and> window_ok (Secondary d) \<and> (PlanType d = [] \<or> PlanType d \<in> set known_plans) \<and>
    (case Remaining d of
       None \<Rightarrow> CheckpointLevel d = ''unknown'' \<and>
         (UsedPercent (Primary d) = None \<or> UsedPercent (Secondary d) = None)
     | Some r \<Rightarrow> percent r \<and>
         (\<exists>a b. RemainingPercent (Primary d) = Some a \<and> RemainingPercent (Secondary d) = Some b \<and>
            (r = a \<or> r = b) \<and> f64_le r a \<and> f64_le r b) \<and>
         (CheckpointLevel d = ''at_or_below_10'' \<longleftrightarrow> f64_le r (Fin 10)) \<and>
         (CheckpointLevel d = ''at_or_below_50'' \<longleftrightarrow> \<not> f64_le r (Fin 10) \<and> f64_le r (Fin 50)) \<and>
         (CheckpointLevel d = ''above_50'' \<longleftrightarrow> \<not> f64_le r (Fin 50)))"
proof -
  from assms obtain rate plan where "parse_rate rate plan = Inr d" and plan: "plan = [] \<or> plan \<in> set known_plans"
    by (auto simp: usage_Parse_def plan_of_def split: if_splits option.splits json.splits)
  then obtain pw sw al re p s where "normalize_window pw = Inr p" "normalize_window sw = Inr s"
    and d: "d = \<lparr>PlanType = plan, Primary = p, Secondary = s, Allowed = al, LimitReached = re,
      Remaining = min_remaining p s, CheckpointLevel = checkpoint_level (min_remaining p s)\<rparr>"
    by (auto simp: parse_rate_def bind_r_Inr_iff split: option.splits)
  then have ok: "window_ok p" "window_ok s" using normalize_ok by auto
  show ?thesis
  proof (cases "min_remaining p s")
    case None
    then have "RemainingPercent p = None \<or> RemainingPercent s = None"
      by (auto simp: min_remaining_def split: option.splits)
    with ok have "UsedPercent p = None \<or> UsedPercent s = None" by (auto simp: window_ok_def split: option.splits)
    with ok None plan show ?thesis by (simp add: d checkpoint_level_def)
  next
    case (Some r)
    then obtain a b where ab: "RemainingPercent p = Some a" "RemainingPercent s = Some b" "r = f64_min a b"
      by (auto simp: min_remaining_def split: option.splits)
    with ok have pc: "percent a" "percent b" by (auto simp: window_ok_def split: option.splits)
    then have nn: "a \<noteq> NaN" "b \<noteq> NaN" by (auto simp: percent_def)
    then have "(r = a \<or> r = b) \<and> f64_le r a \<and> f64_le r b"
      using ab(3) f64_min_le1 f64_min_le2 by (auto simp: f64_min_def)
    moreover have "f64_le r (Fin 10) \<Longrightarrow> f64_le r (Fin 50)"
      using f64_le_trans [of r "Fin 10" "Fin 50"] by simp
    ultimately show ?thesis
      using ok plan ab pc Some by (auto simp: d checkpoint_level_def percent_min)
  qed
qed

theorem usage_parse_in_range_witness:
  "\<exists>d. usage_Parse ''{\"rate_limit\":{\"allowed\":true},\"plan_type\":\"pro\"}'' = Inr d \<and> PlanType d \<in> set known_plans"
proof -
  define r where "r = usage_Parse ''{\"rate_limit\":{\"allowed\":true},\"plan_type\":\"pro\"}''"
  have "is_ok r \<and> PlanType (projr r) = ''pro''" unfolding r_def by code_simp
  then obtain d where d: "r = Inr d" "PlanType d = ''pro''" by (cases r) auto
  from usage_parse_in_range [OF d(1) [unfolded r_def]] d show ?thesis unfolding r_def by auto
qed

section \<open>Which samples count\<close>

lemma windows_remaining_ok:
  "windows_remaining now rem ws = Some v \<Longrightarrow> percent rem \<Longrightarrow>
    percent v \<and> f64_le v rem \<and> (\<forall>w\<in>set ws. \<exists>u. UsedPercent w = Some u \<and> percent u \<and> f64_le v (f64_sub 100 u) \<and>
      (case ResetAt w of None \<Rightarrow> True | Some t \<Rightarrow> now < t))"
proof (induction ws arbitrary: rem)
  case Nil
  then show ?case by (auto simp: percent_def)
next
  case (Cons w ws)
  then obtain u where u: "UsedPercent w = Some u" "percent u" and
    t: "case ResetAt w of None \<Rightarrow> True | Some t \<Rightarrow> now < t" and
    r: "windows_remaining now (f64_min rem (f64_sub 100 u)) ws = Some v"
    by (auto simp: percentI split: option.splits if_splits)
  have nn: "rem \<noteq> NaN" "f64_sub 100 u \<noteq> NaN"
    using Cons.prems(2) percent_sub [OF u(2)] by (auto simp: percent_def)
  have p: "percent (f64_min rem (f64_sub 100 u))"
    using Cons.prems(2) u(2) by (simp add: percent_min percent_sub)
  note ih = Cons.IH [OF r p]
  have "f64_le v rem" "f64_le v (f64_sub 100 u)"
    using ih f64_le_trans f64_min_le1 [OF nn] f64_min_le2 [OF nn] by blast+
  with ih u t show ?case by auto
qed

text \<open>Routing only trusts a sample that is fresh and positive: when a slot counts as usable, its
  last successful measurement is less than two minutes old and not from the future, the last attempt
  did not fail, the account is allowed and below its limit, both windows report a percentage and
  neither has passed its reset time, and the figure used is positive and at most what either window
  has left.\<close>

theorem remaining_is_fresh:
  assumes "remaining r slot now = (left, True)"
  shows "\<exists>s t d. samples r slot = Some s \<and> uState s = ''ok'' \<and> ErrorCode s = [] \<and> \<not> Stale s \<and>
    LastSuccess s = Some t \<and> t \<le> now \<and> now - t < StaleAfter \<and> LastAttempt s \<le> now \<and> Usage s = Some d \<and>
    Allowed d = Some True \<and> LimitReached d = Some False \<and> percent left \<and> f64_less (Fin 0) left \<and>
    (\<forall>w\<in>{Primary d, Secondary d}. \<exists>u. UsedPercent w = Some u \<and> percent u \<and> f64_le left (f64_sub 100 u) \<and>
      (case ResetAt w of None \<Rightarrow> True | Some e \<Rightarrow> now < e))"
proof -
  from assms obtain s t d where s: "samples r slot = Some s" "uState s = ''ok''" "ErrorCode s = []" "\<not> Stale s"
    "LastSuccess s = Some t" "\<not> StaleAfter \<le> time_sub now t" "\<not> now < t" "\<not> now < LastAttempt s" "Usage s = Some d"
    "Allowed d = Some True" "LimitReached d = Some False" and
    w: "windows_remaining now (Fin 100) [Primary d, Secondary d] = Some left" and pos: "f64_less (Fin 0) left"
    by (auto simp: remaining_def At_def simp del: windows_remaining.simps split: option.splits if_splits)
  have "percent (Fin 100)" by (simp add: percent_def)
  from windows_remaining_ok [OF w this] have
    "percent left" "\<forall>w\<in>{Primary d, Secondary d}. \<exists>u. UsedPercent w = Some u \<and> percent u \<and> f64_le left (f64_sub 100 u) \<and>
      (case ResetAt w of None \<Rightarrow> True | Some e \<Rightarrow> now < e)" by auto
  moreover have "now - t < StaleAfter"
    using s(6) time_sub_ge [of StaleAfter now t] by (simp add: StaleAfter_def minutes_def seconds_def)
  ultimately show ?thesis using s pos by auto
qed

section \<open>Choosing a slot\<close>

definition eligible :: "access_source \<Rightarrow> 'db router \<Rightarrow> time \<Rightarrow> string \<Rightarrow> bool" where
  "eligible acc r now slot \<longleftrightarrow> snd (remaining r slot now) \<and> is_ok (acc slot now)"

abbreviation left_at :: "'db router \<Rightarrow> time \<Rightarrow> string \<Rightarrow> f64" where
  "left_at r now slot \<equiv> fst (remaining r slot now)"

lemma remaining_positive:
  "snd (remaining r slot now) \<Longrightarrow> f64_less (Fin 0) (fst (remaining r slot now))"
  by (auto simp: remaining_def simp del: windows_remaining.simps split: option.splits if_splits)

lemma f64_pos: "f64_less (Fin 0) x \<Longrightarrow> \<not> f64_le x (Fin 0) \<and> x \<noteq> NaN \<and> f64_less (Fin (- 1)) x"
  by (cases x) auto

text \<open>The state of the selection loop after the slots of \<open>done\<close>.\<close>

definition choice_ok :: "access_source \<Rightarrow> 'db router \<Rightarrow> time \<Rightarrow> string list \<Rightarrow> choice \<Rightarrow> bool" where
  "choice_ok acc r now seen c \<longleftrightarrow>
     (if chosen c = [] then best c = Fin (- 1) \<and> (\<forall>s\<in>set seen. \<not> eligible acc r now s)
      else eligible acc r now (chosen c) \<and> best c = left_at r now (chosen c) \<and>
        (\<exists>before after. seen = before @ chosen c # after \<and>
          (\<forall>s\<in>set before. eligible acc r now s \<longrightarrow> f64_less (left_at r now s) (best c)) \<and>
          (\<forall>s\<in>set after. eligible acc r now s \<longrightarrow> f64_le (left_at r now s) (best c))))"

lemma f64_le_refl: "x \<noteq> NaN \<Longrightarrow> f64_le x x"
  by (cases x) auto

lemma choice_bound:
  assumes "choice_ok acc r now seen c" and "chosen c \<noteq> []" and "s \<in> set seen" and "eligible acc r now s"
  shows "f64_le (left_at r now s) (best c)"
proof -
  obtain before after where "seen = before @ chosen c # after" and b: "best c = left_at r now (chosen c)"
    "\<forall>s\<in>set before. eligible acc r now s \<longrightarrow> f64_less (left_at r now s) (best c)"
    "\<forall>s\<in>set after. eligible acc r now s \<longrightarrow> f64_le (left_at r now s) (best c)"
    using assms(1,2) by (auto simp: choice_ok_def)
  moreover have "f64_less (Fin 0) (left_at r now s)"
    using assms(4) remaining_positive by (auto simp: eligible_def)
  then have "left_at r now s \<noteq> NaN" using f64_pos by blast
  ultimately show ?thesis
    using assms(3,4) f64_less_le f64_le_refl by auto
qed

lemma choose_step_ok:
  assumes "choice_ok acc r now seen c" and "slot \<noteq> []"
  shows "choice_ok acc r now (seen @ [slot]) (choose_step acc r now c slot)"
proof (cases "eligible acc r now slot")
  case False
  then have "chosen (choose_step acc r now c slot) = chosen c \<and> best (choose_step acc r now c slot) = best c"
    using remaining_positive [of r slot now] by (auto simp: choose_step_def eligible_def f64_pos split: prod.splits)
  moreover have "\<exists>before after'. seen @ [slot] = before @ chosen c # after' \<and> P before \<and> Q after'"
    if "seen = before @ chosen c # after" "P before" "Q (after @ [slot])" for before after P Q
    using that by auto
  ultimately show ?thesis
    using assms(1) False by (fastforce simp: choice_ok_def split: if_splits)
next
  case True
  let ?l = "left_at r now slot"
  have pos: "f64_less (Fin 0) ?l" using True remaining_positive by (auto simp: eligible_def)
  have step: "choose_step acc r now c slot = (if f64_less (best c) ?l then c\<lparr>chosen := slot, best := ?l\<rparr> else c)"
    using True f64_pos [OF pos] by (cases "remaining r slot now") (simp add: choose_step_def eligible_def)
  show ?thesis
  proof (cases "f64_less (best c) ?l")
    case less: True
    have "\<forall>s\<in>set seen. eligible acc r now s \<longrightarrow> f64_less (left_at r now s) ?l"
      using choice_bound [OF assms(1)] less f64_le_less_trans assms(1)
      by (cases "chosen c = []") (auto simp: choice_ok_def)
    then have "\<exists>before after. seen @ [slot] = before @ slot # after \<and>
      (\<forall>s\<in>set before. eligible acc r now s \<longrightarrow> f64_less (left_at r now s) ?l) \<and>
      (\<forall>s\<in>set after. eligible acc r now s \<longrightarrow> f64_le (left_at r now s) ?l)"
      by (intro exI [of _ seen] exI [of _ "[]"]) simp
    with True step less assms(2) show ?thesis by (simp add: choice_ok_def)
  next
    case False
    with f64_pos [OF pos] assms(1) have ne: "chosen c \<noteq> []" by (auto simp: choice_ok_def)
    have "best c \<noteq> NaN"
      using assms(1) ne remaining_positive [of r "chosen c" now] f64_pos by (auto simp: choice_ok_def eligible_def)
    with False f64_not_less [of "best c" ?l] f64_pos [OF pos] have "f64_le ?l (best c)" by auto
    moreover obtain before after where "seen = before @ chosen c # after"
      "\<forall>s\<in>set before. eligible acc r now s \<longrightarrow> f64_less (left_at r now s) (best c)"
      "\<forall>s\<in>set after. eligible acc r now s \<longrightarrow> f64_le (left_at r now s) (best c)"
      using assms(1) ne by (auto simp: choice_ok_def)
    ultimately have "\<exists>before after. seen @ [slot] = before @ chosen c # after \<and>
      (\<forall>s\<in>set before. eligible acc r now s \<longrightarrow> f64_less (left_at r now s) (best c)) \<and>
      (\<forall>s\<in>set after. eligible acc r now s \<longrightarrow> f64_le (left_at r now s) (best c))"
      by (intro exI [of _ before] exI [of _ "after @ [slot]"]) auto
    with step False assms(1) ne show ?thesis by (simp add: choice_ok_def)
  qed
qed

lemma choose_fold_ok:
  "choice_ok acc r now seen c \<Longrightarrow> [] \<notin> set slots \<Longrightarrow>
    choice_ok acc r now (seen @ slots) (foldl (choose_step acc r now) c slots)"
proof (induction slots arbitrary: seen c)
  case (Cons s slots)
  then have "choice_ok acc r now (seen @ [s]) (choose_step acc r now c s)" by (intro choose_step_ok) auto
  from Cons.IH [OF this] Cons.prems show ?case by simp
qed simp

lemma choose_slot_ok: "choice_ok acc r now slot_all (choose_slot acc r now)"
  unfolding choose_slot_def
  using choose_fold_ok [of acc r now "[]" "\<lparr>chosen = [], best = Fin (- 1), usageUnavailable = False, authUnavailable = False\<rparr>" slot_all]
  by (simp add: choice_ok_def slot_all_def)

lemma remaining_samples: "samples r1 = samples r \<Longrightarrow> remaining r1 = remaining r"
  by (intro ext) (simp add: remaining_def)

lemma eligible_samples: "samples r1 = samples r \<Longrightarrow> eligible acc r1 = eligible acc r"
  unfolding eligible_def [abs_def] by (drule remaining_samples) simp

lemma router_lookup_keep: "router_lookup q i r = (x, r1) \<Longrightarrow> samples r1 = samples r \<and> mem_sessions r1 = mem_sessions r"
  by (auto simp: router_lookup_def split: option.splits prod.splits)

lemma register_account: "Register q o1 sl now s = (Inr x, s1) \<Longrightarrow> x = \<lparr>sOrigin = o1, Account = sl, Wiki = []\<rparr>"
  by (auto simp: Register_def on_store_def bnd_Inr split: if_splits option.splits prod.splits)

lemma mem_register_account: "mem_Register o1 a m = (Inr x, m1) \<Longrightarrow> x = \<lparr>sOrigin = o1, Account = a, Wiki = []\<rparr>"
  by (auto simp: mem_Register_def Let_def split: if_splits)

lemma router_register_chosen:
  fixes r :: "'db router"
  assumes "router_Register q acc o1 u now r = (Inr x, r')"
  shows "\<exists>r1 :: 'db router. samples r1 = samples r \<and> u \<and> chosen (choose_slot acc r1 now) \<noteq> [] \<and>
    x = \<lparr>sOrigin = o1, Account = chosen (choose_slot acc r1 now), Wiki = []\<rparr>"
proof -
  obtain y r1 where l: "router_lookup q (Session o1) r = (y, r1)" by (cases "router_lookup q (Session o1) r")
  with assms have u: u and ne: "chosen (choose_slot acc r1 now) \<noteq> []"
    by (auto simp: router_Register_def Let_def split: sum.splits if_splits)
  from assms l u ne have "x = \<lparr>sOrigin = o1, Account = chosen (choose_slot acc r1 now), Wiki = []\<rparr>"
    by (auto simp: router_Register_def Let_def mem_result_def dest!: register_account mem_register_account
        split: sum.splits if_splits option.splits prod.splits)
  with u ne router_lookup_keep [OF l] show ?thesis by blast
qed

text \<open>C28: A new conversation goes to the best account: when the router registers one, the slot it
  chose is usable and its credentials are readable, no usable slot with readable credentials has
  more quota left, and among equals the first in slot order wins. When no slot qualifies, nothing is
  ever registered. This holds for the in-memory and the durable store alike.\<close>

theorem register_best_slot:
  fixes r :: "'db router"
  assumes "router_Register q acc o1 u now r = (Inr x, r')"
  shows "u \<and> sOrigin x = o1 \<and> eligible acc r now (Account x) \<and>
    (\<exists>before after. slot_all = before @ Account x # after \<and>
       (\<forall>s\<in>set before. eligible acc r now s \<longrightarrow> f64_less (left_at r now s) (left_at r now (Account x))) \<and>
       (\<forall>s\<in>set after. eligible acc r now s \<longrightarrow> f64_le (left_at r now s) (left_at r now (Account x))))"
proof -
  obtain r1 :: "'db router" where r1: "samples r1 = samples r" "u" "chosen (choose_slot acc r1 now) \<noteq> []"
    and x: "x = \<lparr>sOrigin = o1, Account = chosen (choose_slot acc r1 now), Wiki = []\<rparr>"
    using router_register_chosen [OF assms] by blast
  have best: "best (choose_slot acc r1 now) = left_at r1 now (Account x)"
    using choose_slot_ok [of acc r1 now] r1(3) by (simp add: choice_ok_def x)
  from choose_slot_ok [of acc r1 now] r1(3)
  have "eligible acc r1 now (Account x) \<and> (\<exists>before after. slot_all = before @ Account x # after \<and>
       (\<forall>s\<in>set before. eligible acc r1 now s \<longrightarrow> f64_less (left_at r1 now s) (left_at r1 now (Account x))) \<and>
       (\<forall>s\<in>set after. eligible acc r1 now s \<longrightarrow> f64_le (left_at r1 now s) (left_at r1 now (Account x))))"
    unfolding choice_ok_def best by (simp add: x)
  then show ?thesis
    using r1(2) by (simp add: x eligible_samples [OF r1(1)] remaining_samples [OF r1(1)])
qed

section \<open>Older observations never win\<close>

lemma update_sample_newer:
  assumes "m slot = Some old"
  shows "\<exists>x. update_sample m s slot = Some x \<and> LastAttempt old \<le> LastAttempt x"
  using assms by (auto simp: update_sample_def split: option.splits)

lemma update_fold_newer:
  "m slot = Some old \<Longrightarrow> \<exists>x. foldl update_sample m ss slot = Some x \<and> LastAttempt old \<le> LastAttempt x"
proof (induction ss arbitrary: m old)
  case (Cons s ss)
  obtain y where y: "update_sample m s slot = Some y" "LastAttempt old \<le> LastAttempt y"
    using update_sample_newer [of m slot old s] Cons.prems by blast
  from Cons.IH [of "update_sample m s" y] y show ?case by (auto intro: order_trans)
qed auto

lemma update_fold_origin:
  "foldl update_sample m ss slot = Some x \<Longrightarrow> m slot = Some x \<or> (x \<in> set ss \<and> uSlot x = slot)"
proof (induction ss arbitrary: m)
  case (Cons s ss)
  have "update_sample m s slot = Some x \<Longrightarrow> m slot = Some x \<or> (x = s \<and> uSlot x = slot)"
    by (auto simp: update_sample_def split: if_splits option.splits)
  with Cons.IH [of "update_sample m s"] Cons.prems show ?case by auto
qed simp

text \<open>An older observation never replaces a newer one, however many samples arrive and in whatever
  order: after \<^verbatim>\<open>Update\<close> the sample kept for a slot is one that was held or delivered, and no sample
  held or delivered for that slot was attempted later.\<close>

theorem update_keeps_newest:
  assumes "samples (router_Update ss r) slot = Some x"
  shows "(samples r slot = Some x \<or> (x \<in> set ss \<and> uSlot x = slot)) \<and>
    (\<forall>y. samples r slot = Some y \<or> (y \<in> set ss \<and> uSlot y = slot \<and> slot_valid slot) \<longrightarrow> LastAttempt y \<le> LastAttempt x)"
proof (intro conjI allI impI)
  show "samples r slot = Some x \<or> (x \<in> set ss \<and> uSlot x = slot)"
    using assms update_fold_origin [of "samples r" ss slot x] by (simp add: router_Update_def)
  fix y assume y: "samples r slot = Some y \<or> (y \<in> set ss \<and> uSlot y = slot \<and> slot_valid slot)"
  have f: "foldl update_sample (samples r) ss slot = Some x" using assms by (simp add: router_Update_def)
  show "LastAttempt y \<le> LastAttempt x"
  proof (cases "samples r slot = Some y")
    case True
    then show ?thesis using update_fold_newer [of "samples r" slot y ss] f by auto
  next
    case False
    with y obtain as bs where ss: "ss = as @ y # bs" "uSlot y = slot" "slot_valid slot" using split_list [of y ss] by auto
    let ?m = "foldl update_sample (samples r) as"
    have "\<exists>z. update_sample ?m y slot = Some z \<and> LastAttempt y \<le> LastAttempt z"
      using ss(2,3) by (auto simp: update_sample_def split: option.splits)
    then obtain z where "update_sample ?m y slot = Some z" "LastAttempt y \<le> LastAttempt z" by blast
    with update_fold_newer [of "update_sample ?m y" slot z bs] f ss(1) show ?thesis by auto
  qed
qed

section \<open>Handoffs end to end\<close>

text \<open>The checkpoint and digest stored with a handoff.\<close>

definition pins :: "string \<Rightarrow> string \<Rightarrow> string \<Rightarrow> tables \<Rightarrow> bool" where
  "pins i cp dg t \<longleftrightarrow> (\<forall>h\<in>set (handoff_rows t). h_id h = i \<longrightarrow> h_checkpoint h = cp \<and> h_digest h = dg)"

lemma pins_effect: "aff_effect ev t t' \<Longrightarrow> \<not> prepares i ev \<Longrightarrow> pins i cp dg t \<Longrightarrow> pins i cp dg t'"
  by (induction rule: aff_effect.induct) (auto simp: pins_def effect_defs Let_def)

text \<open>The row a successful preparation leaves keeps its checkpoint and digest, whatever operations follow.\<close>

lemma prepared_pins:
  assumes "sql_engine q view" and "holds view s t" and "PrepareHandoff q rnd src tg cp dg b now s = (Inr v, s1)"
    and "\<forall>ev\<in>set evs. \<not> prepares (c_string rnd) ev"
  shows "\<exists>t2. holds view (run_events q evs s1) t2 \<and> pins (c_string rnd) (c_string cp) dg t2"
proof -
  from prepare_any [OF assms(1-3)] obtain t1 where t1: "holds view s1 t1"
    "prepare_body pure_query v now (t, Some t) = (Inr (), t1, Some t)" and
    v: "v = \<lparr>rID = rnd, rSource = src, rTarget = tg, rCheckpointID = cp, rDigest = dg, rConsumedBy = []\<rparr>"
    "validOrigin (rSource v)" "slot_valid (rTarget v)" "validDigest dg" by auto
  from prepare_effect [OF t1(2) v(2,3)] have "pins (c_string rnd) (c_string cp) dg t1"
    by (auto simp: pins_def v(1) image_iff validDigest_c_string [OF v(4)]) metis+
  moreover obtain t2 where t2: "holds view (run_events q evs s1) t2"
    using run_steps [OF assms(1) t1(1)] by blast
  ultimately show ?thesis
    using run_keep [OF assms(1) t1(1) t2, of "pins (c_string rnd) (c_string cp) dg"] pins_effect assms(4) t2 by blast
qed

lemma handoff_any:
  assumes "sql_engine q view" and "holds view s t" and "Handoff q i s = (Inr v, s')"
  shows "holds view s' t \<and> (\<exists>h\<in>set (handoff_rows t). h_id h = c_string i \<and> rTarget v = h_target h \<and>
    rCheckpointID v = h_checkpoint h \<and> rDigest v = h_digest h)"
proof -
  have "aff_exec q (EHandoffOf i) s = (Inr (VReservation v), s')"
    using assms(3) by (simp add: val_def)
  from exec_ok [OF assms(1,2) this] obtain t' where h: "holds view s' t'"
    "Handoff pure_query i (Some (t, None)) = (Inr v, Some (t', None))"
    by (auto simp: val_Inr)
  moreover have "t' = t" using h(2) step_reads(3) [of i t] by simp
  moreover obtain p where "find_reservation pure_query i (t, None) = (Inr v, p)"
    using h(2) by (auto simp: Handoff_def on_store_def split: prod.splits)
  from reservation_ok(2) [OF this] have "\<exists>h\<in>set (handoff_rows t). h_id h = c_string i \<and> rTarget v = h_target h \<and>
    rCheckpointID v = h_checkpoint h \<and> rDigest v = h_digest h" by fastforce
  ultimately show ?thesis by blast
qed

lemma CheckBytes_Inr: "CheckBytes b m now = Inr c \<Longrightarrow> SHA256 c = sha256_hex b \<and> Metadata c = m \<and> Markdown c = b"
  by (auto simp: CheckBytes_def split: if_splits option.splits)

lemma prepare_guard:
  assumes "router_PrepareHandoff q acc rnd src tg sn b now r = (Inr v, r1)"
  shows "\<exists>s s1. disk r = Some s \<and> r1 = r\<lparr>disk := Some s1\<rparr> \<and>
    PrepareHandoff q rnd src tg (ID (Metadata sn)) (SHA256 sn) b now s = (Inr v, s1) \<and>
    SHA256 sn = sha256_hex (Markdown sn) \<and> target acc r tg now"
  using assms by (auto simp: router_PrepareHandoff_def dest: CheckBytes_Inr split: option.splits sum.splits if_splits prod.splits)

lemma bind_guard:
  assumes "router_BindHandoff q acc i o1 sn u now r = (Inr x, r2)"
  shows "\<exists>s s1 s2 v. disk r = Some s \<and> Handoff q i s = (Inr v, s1) \<and> BindHandoff q i o1 True now s1 = (Inr x, s2) \<and>
    r2 = r\<lparr>disk := Some s2\<rparr> \<and> u \<and> ID (Metadata sn) = rCheckpointID v \<and> sha256_hex (Markdown sn) = rDigest v \<and>
    is_ok (CheckBytes (Markdown sn) (Metadata sn) now) \<and> target acc (r\<lparr>disk := Some s1\<rparr>) (rTarget v) now"
  using assms
  by (auto simp: router_BindHandoff_def Let_def dest: CheckBytes_Inr split: option.splits sum.splits if_splits prod.splits)

lemma target_room:
  "target acc r slot now \<Longrightarrow> eligible acc r now slot \<and> \<not> f64_le (left_at r now slot) (f64_sub 100 (threshold r))"
  by (auto simp: target_def eligible_def split: if_splits prod.splits)


section \<open>Concrete routing\<close>

lemma round_half_even_int: "round_half_even (of_int m) = m"
  by (simp add: round_half_even_def Let_def)

lemma round64_int:
  assumes "0 \<le> n" and "n \<le> 100"
  shows "round64 (of_int n) = Fin (of_int n)"
proof -
  define x where "x = exponent \<bar>of_int n :: rat\<bar> 1023"
  have "(of_int n :: rat) \<le> of_int 100" using assms(2) by (simp only: of_int_le_iff)
  then have "(of_int n :: rat) < 2 powi (6 + 1)" by (simp add: power_int_def)
  then have x: "x \<le> 6" unfolding x_def using assms(1) by (intro exponent_le) auto
  define m where "m = n * 2 ^ nat (52 - x)"
  have "(of_int n :: rat) / 2 powi (x - 52) = of_int n * 2 powi (52 - x)"
    by (metis divide_inverse minus_diff_eq power_int_minus)
  also have "\<dots> = of_int m" using x by (simp add: m_def power_int_def)
  finally have q: "(of_int n :: rat) / 2 powi (x - 52) = of_int m" .
  then have v: "of_int m * (2 powi (x - 52) :: rat) = of_int n" by (simp add: field_simps)
  have "(of_int n :: rat) < 2 powi 7" using \<open>(of_int n :: rat) < 2 powi (6 + 1)\<close> by simp
  also have "\<dots> \<le> 2 powi 1024" by (intro power_int_increasing) auto
  finally have "\<not> 2 powi 1024 \<le> \<bar>of_int n :: rat\<bar>" using assms(1) by simp
  then show ?thesis
    unfolding round64_def Let_def x_def [symmetric] q round_half_even_int v by simp
qed

lemma f64_sub_values: "f64_sub 100 (Fin 10) = Fin 90" "f64_sub 100 (Fin 20) = Fin 80" "f64_sub 100 (Fin 90) = Fin 10"
  using round64_int [of 90] round64_int [of 80] round64_int [of 10] by (simp_all add: f64_sub_def)

definition ok_window :: "rat \<Rightarrow> window" where
  "ok_window u = \<lparr>UsedPercent = Some (Fin u), RemainingPercent = None, LimitSeconds = None, ResetAt = None\<rparr>"

definition ok_sample :: "string \<Rightarrow> rat \<Rightarrow> usage_snapshot" where
  "ok_sample slot u = \<lparr>uSlot = slot, Registered = Some True, uState = ''ok'', ErrorCode = [], HTTPStatus = 200,
     LastAttempt = 0, LastSuccess = Some 0, Stale = False,
     Usage = Some \<lparr>PlanType = [], Primary = ok_window u, Secondary = ok_window u, Allowed = Some True,
       LimitReached = Some False, Remaining = None, CheckpointLevel = ''unknown''\<rparr>\<rparr>"

definition sample_router :: "pure_db router" where
  "sample_router = \<lparr>mem_sessions = new_store, disk = Some (Some (sample_tables, None)), threshold = Fin 90,
     samples = [''a'' \<mapsto> ok_sample ''a'' 20, ''b'' \<mapsto> ok_sample ''b'' 10]\<rparr>"

definition sample_acc :: access_source where
  "sample_acc slot now = Inr \<lparr>Token = ''t'', AccountID = ''i'', ExpiresAt = 0\<rparr>"

lemma sample_remaining:
  "remaining sample_router ''a'' 1 = (Fin 80, True)" "remaining sample_router ''b'' 1 = (Fin 90, True)"
  "slot \<noteq> ''a'' \<Longrightarrow> slot \<noteq> ''b'' \<Longrightarrow> remaining sample_router slot 1 = (Fin 0, False)"
  by (simp_all add: remaining_def sample_router_def ok_sample_def ok_window_def At_def StaleAfter_def minutes_def
      seconds_def time_sub_def f64_sub_values f64_min_def)

theorem remaining_is_fresh_witness:
  "\<exists>s. samples sample_router ''b'' = Some s \<and> \<not> Stale s"
  using remaining_is_fresh [OF sample_remaining(2)] by blast

lemma sample_choose: "chosen (choose_slot sample_acc sample_router 1) = ''b''"
  by (simp add: choose_slot_def slot_all_def choose_step_def sample_remaining sample_acc_def)

lemma sample_register:
  "router_Register pure_query sample_acc two True 1 sample_router =
    (Inr \<lparr>sOrigin = two, Account = ''b'', Wiki = []\<rparr>, snd (router_Register pure_query sample_acc two True 1 sample_router))"
proof -
  have "Lookup pure_query (Session two) (Some (sample_tables, None)) = (Inl Unknown, Some (sample_tables, None))"
    by code_simp
  then have l: "router_lookup pure_query (Session two) sample_router = (Inl Unknown, sample_router)"
    by (simp add: router_lookup_def sample_router_def)
  have r: "fst (Register pure_query two ''b'' 1 (Some (sample_tables, None))) = Inr \<lparr>sOrigin = two, Account = ''b'', Wiki = []\<rparr>"
    by code_simp
  have d: "disk sample_router = Some (Some (sample_tables, None))" by (simp add: sample_router_def)
  show ?thesis
    using l r d by (cases "Register pure_query two ''b'' 1 (Some (sample_tables, None))")
      (simp add: router_Register_def sample_choose Let_def)
qed

theorem register_best_slot_witness:
  "fst (router_Register pure_query sample_acc two True 1 sample_router) = Inr \<lparr>sOrigin = two, Account = ''b'', Wiki = []\<rparr> \<and>
   eligible sample_acc sample_router 1 ''b''"
  using register_best_slot [OF sample_register] sample_register by (metis fst_conv hsession.select_convs(2))

theorem update_keeps_newest_witness:
  "samples (router_Update [ok_sample ''a'' 10] sample_router) ''a'' = Some (ok_sample ''a'' 20)"
proof -
  obtain x where x: "samples (router_Update [ok_sample ''a'' 10] sample_router) ''a'' = Some x"
    by (simp add: router_Update_def update_sample_def sample_router_def slot_valid_def ok_sample_def)
  from update_keeps_newest [OF x] have "LastAttempt (ok_sample ''a'' 20) \<le> LastAttempt x"
    by (auto simp: sample_router_def)
  moreover have "x = ok_sample ''a'' 20"
    using x by (simp add: router_Update_def update_sample_def sample_router_def slot_valid_def ok_sample_def)
  ultimately show ?thesis using x by simp
qed

definition sample_pin :: snapshot where
  "sample_pin = \<lparr>Metadata = sample_meta, Markdown = sample_file, SHA256 = sha256_hex sample_file, ValidatedAt = 0\<rparr>"

lemma sample_pin_check: "CheckBytes (Markdown sample_pin) (Metadata sample_pin) n =
    Inr \<lparr>Metadata = sample_meta, Markdown = sample_file, SHA256 = sha256_hex sample_file, ValidatedAt = n\<rparr>"
  using sample_valid sample_length by (simp add: CheckBytes_def sample_pin_def)

lemma sample_target: "target sample_acc (sample_router\<lparr>disk := d\<rparr>) ''b'' 1"
proof -
  have "remaining (sample_router\<lparr>disk := d\<rparr>) ''b'' 1 = (Fin 90, True)"
    using remaining_samples [of "sample_router\<lparr>disk := d\<rparr>" sample_router] sample_remaining(2) by simp
  then show ?thesis
    by (simp add: target_def slot_valid_def sample_acc_def) (simp add: sample_router_def f64_sub_values)
qed

definition sample_row_h :: handoff_row where
  "sample_row_h = \<lparr>h_id = ''h'', h_source = ''s'', h_target = ''b'', h_checkpoint = ''k'',
     h_digest = sha256_hex sample_file, h_consumed_by = [], h_created = 0\<rparr>"

definition handed_tables :: tables where
  "handed_tables = sample_tables\<lparr>handoff_rows := [sample_row_h]\<rparr>"

lemma sample_store_prepare:
  "PrepareHandoff pure_query ''h'' sample_origin ''b'' ''k'' (sha256_hex sample_file) True 1 (Some (sample_tables, None)) =
    (Inr \<lparr>rID = ''h'', rSource = sample_origin, rTarget = ''b'', rCheckpointID = ''k'', rDigest = sha256_hex sample_file,
      rConsumedBy = []\<rparr>, Some (handed_tables, None))"
proof -
  have "sample_tables\<lparr>handoff_rows := handoff_rows sample_tables @ [sample_row_h]\<rparr> = handed_tables"
    by (simp add: handed_tables_def sample_tables_def empty_tables_def)
  moreover have "PrepareHandoff pure_query ''h'' sample_origin ''b'' ''k'' (sha256_hex sample_file) True 1 (Some (sample_tables, None)) =
    (Inr \<lparr>rID = ''h'', rSource = sample_origin, rTarget = ''b'', rCheckpointID = ''k'', rDigest = sha256_hex sample_file,
      rConsumedBy = []\<rparr>, Some (sample_tables\<lparr>handoff_rows := handoff_rows sample_tables @ [sample_row_h]\<rparr>, None))"
    by (rule prepare_complete [OF sample_inv, of sample_row])
      (simp_all add: sample_tables_def empty_tables_def sample_row_def sample_origin_def session_at_def pending_sources_def
        aff_valid_def validOrigin_def c_string_def validDigest_def sha256_hex_form slot_valid_def sample_row_h_def
        stamp_def unix_seconds_def)
  ultimately show ?thesis by simp
qed

lemma handed_inv: "aff_inv handed_tables"
  using prepare_any [OF engine_axioms(1) sample_holds sample_store_prepare] by (auto simp: holds_def)

lemma handed_row: "sample_row_h \<in> set (handoff_rows handed_tables)" "c_string ''h'' = h_id sample_row_h"
  "sample_row \<in> set (session_rows handed_tables)" "r_id sample_row = h_source sample_row_h"
  by (simp_all add: handed_tables_def sample_row_h_def sample_tables_def sample_row_def c_string_def)

lemma handed_lookup: "Handoff pure_query ''h'' (Some (handed_tables, None)) =
    (Inr \<lparr>rID = ''h'', rSource = sample_origin, rTarget = ''b'', rCheckpointID = ''k'', rDigest = sha256_hex sample_file,
      rConsumedBy = []\<rparr>, Some (handed_tables, None))"
  using reservation_row [OF handed_inv handed_row]
  by (simp add: Handoff_def on_store_def sample_row_h_def session_at_def sample_row_def sample_origin_def)

lemma handed_bind: "\<exists>t'. BindHandoff pure_query ''h'' two True 1 (Some (handed_tables, None)) =
    (Inr \<lparr>sOrigin = two, Account = ''b'', Wiki = []\<rparr>, Some (t', None))"
  using bind_complete [OF handed_inv handed_row(1,2) _ handed_row(3,4), of two 1]
  by (simp add: sample_row_h_def sample_row_def two_def validOrigin_def aff_valid_def ids_of_def handed_tables_def sample_tables_def)


end
