(* ===== verification/Json_Value.thy ===== *)
theory Json_Value
  imports Json "HOL-Library.List_Lexorder" "HOL-Library.Char_ord"
begin

text \<open>
  More of \<^verbatim>\<open>encoding/json\<close>: \<^verbatim>\<open>json.Marshal\<close> of a decoded value (object keys sorted bytewise, number
  literals kept), the raw text of a member (\<^verbatim>\<open>json.RawMessage\<close>), and the scan for duplicate keys.
\<close>

section \<open>Printing a decoded value\<close>

definition commas :: "string list \<Rightarrow> string" where
  "commas xs = (case xs of [] \<Rightarrow> [] | x # ys \<Rightarrow> x @ concat (map (\<lambda>y. CHR '','' # y) ys))"

text \<open>Decoding into \<^verbatim>\<open>map[string]any\<close> keeps the last member of each name.\<close>

definition last_members :: "(string \<times> 'a) list \<Rightarrow> (string \<times> 'a) list" where
  "last_members ms = rev (foldl (\<lambda>acc (k, v). if k \<in> set (map fst acc) then acc else (k, v) # acc) [] (rev ms))"

fun json_marshal :: "json \<Rightarrow> string" where
  "json_marshal JNull = ''null''"
| "json_marshal (JBool b) = (if b then ''true'' else ''false'')"
| "json_marshal (JNum s) = s"
| "json_marshal (JStr s) = json_quote s"
| "json_marshal (JArr vs) = ''['' @ commas (map json_marshal vs) @ '']''"
| "json_marshal (JObj ms) =
     ''{'' @ commas (map (\<lambda>(k, t). json_quote k @ '':'' @ t)
       (sort_key fst (last_members (map (\<lambda>(k, v). (k, json_marshal v)) ms)))) @ ''}''"

section \<open>Duplicate keys\<close>

fun unique_keys :: "json \<Rightarrow> bool" where
  "unique_keys (JArr vs) = list_all unique_keys vs"
| "unique_keys (JObj ms) = (distinct (map fst ms) \<and> list_all (\<lambda>(k, v). unique_keys v) ms)"
| "unique_keys _ = True"

section \<open>Raw members\<close>

text \<open>The raw text of a value at the head of a valid document: up to the closing bracket or quote of
  nesting depth 0, or up to the next delimiter for a number or literal.\<close>

definition nest_step :: "nat \<Rightarrow> bool \<Rightarrow> bool \<Rightarrow> char \<Rightarrow> nat \<times> bool \<times> bool" where
  "nest_step d inside esc c =
     (if inside then d else if c = CHR ''{'' \<or> c = CHR ''['' then d + 1
      else if c = CHR ''}'' \<or> c = CHR '']'' then d - 1 else d,
      if esc then inside else if c = QUOTE then \<not> inside else inside,
      inside \<and> \<not> esc \<and> c = BACKSLASH)"

fun nested :: "nat \<Rightarrow> bool \<Rightarrow> bool \<Rightarrow> string \<Rightarrow> string \<times> string" where
  "nested d inside esc [] = ([], [])"
| "nested d inside esc (c # cs) =
     (case nest_step d inside esc c of (d1, in1, esc1) \<Rightarrow>
        if d1 = 0 \<and> \<not> in1 then ([c], cs)
        else case nested d1 in1 esc1 cs of (a, r) \<Rightarrow> (c # a, r))"

definition plain_end :: "char \<Rightarrow> bool" where
  "plain_end c \<longleftrightarrow> json_space c \<or> c = CHR '','' \<or> c = CHR ''}'' \<or> c = CHR '']''"

definition raw_value :: "string \<Rightarrow> string \<times> string" where
  "raw_value s =
     (case s of c # _ \<Rightarrow>
        if c = QUOTE \<or> c = CHR ''{'' \<or> c = CHR ''['' then nested 0 False False s
        else (takeWhile (\<lambda>c. \<not> plain_end c) s, dropWhile (\<lambda>c. \<not> plain_end c) s)
      | [] \<Rightarrow> ([], []))"

definition skip_space :: "string \<Rightarrow> string" where
  "skip_space s = dropWhile json_space s"

lemma nested_length: "length (snd (nested d i e s)) \<le> length s"
proof (induction s arbitrary: d i e)
  case (Cons c cs)
  obtain d1 i1 e1 where "nest_step d i e c = (d1, i1, e1)" by (cases "nest_step d i e c")
  with Cons [of d1 i1 e1] show ?case by (simp split: prod.split) auto
qed simp

lemma raw_value_length: "length (snd (raw_value s)) \<le> length s"
  using nested_length [of 0 False False s] length_dropWhile_le [of "\<lambda>c. \<not> plain_end c" s]
  by (cases s) (simp_all add: raw_value_def)

lemma skip_space_length: "length (skip_space s) \<le> length s"
  by (simp add: skip_space_def length_dropWhile_le)

text \<open>The members of an object, after its opening brace, with their raw values.\<close>

function raw_object :: "string \<Rightarrow> (string \<times> string) list" where
  "raw_object s =
     (case skip_space s of
        c # cs \<Rightarrow>
          if c = QUOTE then
            (case scan_str cs of
               None \<Rightarrow> []
             | Some (k, r) \<Rightarrow>
                 (case raw_value (skip_space (drop 1 (skip_space r))) of (v, r1) \<Rightarrow>
                    (unquote k, v) # raw_object (drop 1 (skip_space r1))))
          else []
      | [] \<Rightarrow> [])"
  by pat_completeness auto
termination
proof (relation "measure length", goal_cases)
  case (2 s c cs x2 k r v r1)
  have "length r < length cs" using 2(3,4) scan_str_length by auto
  moreover have "length r1 \<le> length r"
    using raw_value_length [of "skip_space (drop 1 (skip_space r))"] 2(5) [symmetric] skip_space_length [of r]
      skip_space_length [of "drop 1 (skip_space r)"]
    by simp
  moreover have "length cs < length s" using skip_space_length [of s] 2(1) by simp
  ultimately show ?case using skip_space_length [of r1] by simp
qed simp

declare raw_object.simps [simp del]

text \<open>The raw text decoded into a \<^verbatim>\<open>RawMessage\<close> field of a struct: the last member that matches the
  name, the empty text when there is none.\<close>

definition raw_text :: "string \<Rightarrow> string \<Rightarrow> string" where
  "raw_text name doc =
     (case skip_space doc of
        c # cs \<Rightarrow> if c = CHR ''{'' then
            (case rev (filter (\<lambda>(k, v). field_match name k) (raw_object cs)) of [] \<Rightarrow> [] | (k, v) # _ \<Rightarrow> v)
          else []
      | [] \<Rightarrow> [])"

end
