(* ===== verification/Proxy_Refs.thy ===== *)
theory Proxy_Refs
  imports Json_Value Sha256
begin

text \<open>
  Package \<^verbatim>\<open>proxy\<close>, file \<^verbatim>\<open>continuation.go\<close>: which identifiers a request refers to and which
  a completed response grants. A \<^verbatim>\<open>map[string]json.RawMessage\<close> is the member list of a decoded object
  (\<open>obj_get\<close> reads it); a shape error is \<open>None\<close> for requests and \<open>Inl\<close> with its local reason
  for responses. That whatever a completed response grants is what an
  echoed request item asks for is proved in \<open>Proxy_Echo\<close>.
\<close>

type_synonym item = "(string \<times> json) list"

definition mergeResponseRefs :: "string list list \<Rightarrow> string list" where
  "mergeResponseRefs groups = foldl (\<lambda>refs ref. if ref \<in> set refs then refs else refs @ [ref]) [] (concat groups)"

definition validID :: "string \<Rightarrow> bool" where
  "validID i \<longleftrightarrow> i \<noteq> [] \<and> length i \<le> 4000 \<and> \<not> contains_any i [NUL, CHR '':'']"

definition uniqueJSON :: "string \<Rightarrow> bool" where
  "uniqueJSON data = (case json_parse data of None \<Rightarrow> False | Some j \<Rightarrow> unique_keys j)"

definition fieldString :: "item \<Rightarrow> string \<Rightarrow> string \<times> bool" where
  "fieldString it k = (case obj_get it k of Some (JStr s) \<Rightarrow> (s, True) | _ \<Rightarrow> ([], False))"

text \<open>The member exists and is not null.\<close>

definition present :: "item \<Rightarrow> string \<Rightarrow> bool" where
  "present it k \<longleftrightarrow> obj_get it k \<noteq> None \<and> obj_get it k \<noteq> Some JNull"

definition only_keys :: "string list \<Rightarrow> item \<Rightarrow> bool" where
  "only_keys ks it \<longleftrightarrow> list_all (\<lambda>(k, v). k \<in> set ks) it"

definition valid_field :: "item \<Rightarrow> string \<Rightarrow> bool" where
  "valid_field it k \<longleftrightarrow> snd (fieldString it k) \<and> validID (fst (fieldString it k))"

text \<open>Decoding into \<^verbatim>\<open>[]map[string]json.RawMessage\<close>, where a nil slice counts as an error too: null
  elements are nil maps.\<close>

fun decode_map :: "json \<Rightarrow> item option" where
  "decode_map (JObj ms) = Some ms" | "decode_map JNull = Some []" | "decode_map _ = None"

fun all_some :: "'a option list \<Rightarrow> 'a list option" where
  "all_some [] = Some []"
| "all_some (None # xs) = None"
| "all_some (Some x # xs) = map_option ((#) x) (all_some xs)"

definition decode_maps :: "json option \<Rightarrow> item list option" where
  "decode_maps j = (case j of Some (JArr vs) \<Rightarrow> all_some (map decode_map vs) | _ \<Rightarrow> None)"

section \<open>History digests\<close>

definition strip_part :: "json \<Rightarrow> json" where
  "strip_part p =
     (case p of JObj ms \<Rightarrow>
        JObj (filter (\<lambda>(k, v). \<not> ((k = ''annotations'' \<or> k = ''logprobs'') \<and> v = JArr [])) ms)
      | _ \<Rightarrow> p)"

definition strip_content :: "json \<Rightarrow> json" where
  "strip_content v = (case v of JArr ps \<Rightarrow> JArr (map strip_part ps) | _ \<Rightarrow> v)"

definition canonical :: "string \<Rightarrow> item \<Rightarrow> item" where
  "canonical kind it =
     map (\<lambda>(k, v). (k, if kind = ''message'' \<and> k = ''content'' then strip_content v else v))
       (filter (\<lambda>(k, v). k \<noteq> ''id'' \<and> k \<noteq> ''status'') it)"

definition status_ok :: "item \<Rightarrow> bool" where
  "status_ok it \<longleftrightarrow> (present it ''status'' \<longrightarrow> fieldString it ''status'' = (''completed'', True))"

definition historyKey :: "item \<Rightarrow> string option" where
  "historyKey it =
     (let kind = fst (fieldString it ''type'');
          shape = (if kind = ''message'' then
              fst (fieldString it ''role'') = ''assistant'' \<and>
              (case obj_get it ''content'' of Some (JArr _) \<Rightarrow> True | _ \<Rightarrow> False) \<and>
              only_keys [''id'', ''status'', ''type'', ''role'', ''content'', ''phase''] it
            else if kind = ''reasoning'' then
              obj_get it ''summary'' \<noteq> None \<and>
              only_keys [''id'', ''status'', ''type'', ''summary'', ''content'', ''encrypted_content''] it
            else False)
      in if shape \<and> status_ok it
         then Some (''history:'' @ sha256_hex (json_marshal (JObj (canonical kind it)))) else None)"

section \<open>References of a request\<close>

definition additionalTools :: "item \<Rightarrow> bool" where
  "additionalTools it \<longleftrightarrow> fst (fieldString it ''role'') = ''developer'' \<and>
     only_keys [''type'', ''role'', ''id'', ''tools''] it \<and>
     (present it ''id'' \<longrightarrow> valid_field it ''id'') \<and>
     (case decode_maps (obj_get it ''tools'') of None \<Rightarrow> False | Some ds \<Rightarrow> ds \<noteq> [] \<and> list_all (\<lambda>d. d \<noteq> []) ds)"

definition toolRefs :: "item \<Rightarrow> string \<Rightarrow> string list option" where
  "toolRefs it kind =
     (if kind = ''item_reference'' then
        (if only_keys [''type'', ''id''] it \<and> valid_field it ''id''
         then Some [''item:'' @ fst (fieldString it ''id'')] else None)
      else if kind = ''function_call_output'' then
        (if only_keys [''type'', ''call_id'', ''output'', ''id''] it \<and> valid_field it ''call_id''
            \<and> (present it ''id'' \<longrightarrow> valid_field it ''id'') \<and> snd (fieldString it ''output'')
         then Some [''call:function:'' @ fst (fieldString it ''call_id'')] else None)
      else
        (if only_keys [''type'', ''id'', ''call_id'', ''name'', ''arguments'', ''status''] it
            \<and> valid_field it ''call_id''
            \<and> snd (fieldString it ''name'') \<and> fst (fieldString it ''name'') \<noteq> []
            \<and> snd (fieldString it ''arguments'')
            \<and> (obj_get it ''status'' \<noteq> None \<longrightarrow> fieldString it ''status'' = (''completed'', True))
            \<and> (obj_get it ''id'' \<noteq> None \<longrightarrow> valid_field it ''id'')
         then Some ((''call:function:'' @ fst (fieldString it ''call_id''))
                # (if obj_get it ''id'' \<noteq> None then [''item:'' @ fst (fieldString it ''id'')] else []))
         else None))"

text \<open>The parts of a text message. A null \<open>type\<close> leaves the decoded variable at its previous value,
  which the loop does not reset.\<close>

fun check_parts :: "string \<Rightarrow> item list \<Rightarrow> bool" where
  "check_parts typ [] = True"
| "check_parts typ (p # ps) =
     (length (last_members p) = 2 \<and>
      (case obj_get p ''type'' of
         Some (JStr t) \<Rightarrow> t = ''input_text'' \<and> snd (fieldString p ''text'') \<and> check_parts t ps
       | Some JNull \<Rightarrow> typ = ''input_text'' \<and> snd (fieldString p ''text'') \<and> check_parts typ ps
       | _ \<Rightarrow> False))"

definition plain_message :: "item \<Rightarrow> bool" where
  "plain_message it \<longleftrightarrow>
     only_keys [''id'', ''type'', ''role'', ''content''] it \<and>
     (present it ''id'' \<longrightarrow> valid_field it ''id'') \<and>
     (obj_get it ''type'' \<noteq> None \<longrightarrow> fieldString it ''type'' = (''message'', True)) \<and>
     snd (fieldString it ''role'') \<and> fst (fieldString it ''role'') \<in> {''user'', ''developer'', ''system''} \<and>
     (snd (fieldString it ''content'') \<or>
      (case decode_maps (obj_get it ''content'') of
         None \<Rightarrow> False | Some ps \<Rightarrow> check_parts (fst (fieldString it ''type'')) ps))"

definition item_refs :: "item \<Rightarrow> string list option" where
  "item_refs it =
     (let kind = fst (fieldString it ''type''); role = fst (fieldString it ''role'') in
      if kind = ''additional_tools'' then (if additionalTools it then Some [] else None)
      else if kind = ''reasoning'' \<or> (kind = ''message'' \<and> role = ''assistant'') then
        (case historyKey it of
           None \<Rightarrow> None
         | Some key \<Rightarrow>
             if \<not> present it ''id'' then Some [key]
             else if valid_field it ''id'' then Some [key, ''item:'' @ fst (fieldString it ''id'')] else None)
      else if kind = ''item_reference'' \<or> kind = ''function_call_output'' \<or> kind = ''function_call''
      then toolRefs it kind
      else if plain_message it then Some [] else None)"

definition allowed_keys :: "string list" where
  "allowed_keys = [''model'', ''input'', ''previous_response_id'', ''stream'', ''store'', ''instructions'',
     ''max_output_tokens'', ''temperature'', ''top_p'', ''reasoning'', ''text'', ''tools'', ''tool_choice'',
     ''parallel_tool_calls'', ''metadata'', ''service_tier'', ''include'', ''prompt_cache_key'', ''client_metadata'']"

definition body_refs :: "item \<Rightarrow> string list option" where
  "body_refs body =
     (if \<not> only_keys allowed_keys body then None
      else if present body ''previous_response_id'' \<and> \<not> valid_field body ''previous_response_id'' then None
      else let refs = (if present body ''previous_response_id''
                       then [fst (fieldString body ''previous_response_id'')] else []) in
        if snd (fieldString body ''input'') then Some refs
        else case decode_maps (obj_get body ''input'') of
          None \<Rightarrow> None
        | Some items \<Rightarrow> map_option (\<lambda>rss. refs @ concat rss) (all_some (map item_refs items)))"

definition continuationRefs :: "string \<Rightarrow> string list option" where
  "continuationRefs data =
     (if \<not> uniqueJSON data then None
      else case json_parse data of Some (JObj body) \<Rightarrow> body_refs body | _ \<Rightarrow> None)"

text \<open>Called only on a body that \<^verbatim>\<open>continuationRefs\<close> accepted.\<close>

definition inline_id :: "item \<Rightarrow> string list" where
  "inline_id it =
     (let kind = fst (fieldString it ''type''); role = fst (fieldString it ''role'') in
      if role = ''assistant'' then []
      else if kind \<noteq> [] \<and> kind \<noteq> ''message'' \<and> kind \<noteq> ''function_call_output'' \<and> kind \<noteq> ''additional_tools'' then []
      else if snd (fieldString it ''id'') then [''item:'' @ fst (fieldString it ''id'')] else [])"

definition inlineMessageIDs :: "string \<Rightarrow> string list" where
  "inlineMessageIDs data =
     (case json_parse data of
        Some (JObj body) \<Rightarrow>
          (case decode_maps (obj_get body ''input'') of
             None \<Rightarrow> [] | Some items \<Rightarrow> concat (map inline_id items))
      | _ \<Rightarrow> [])"

section \<open>References a completed response grants\<close>

definition function_call_refs :: "item \<Rightarrow> string + string list" where
  "function_call_refs it =
     (if \<not> snd (fieldString it ''name'') \<or> fst (fieldString it ''name'') = [] then Inl ''completion_function_name_invalid''
      else if \<not> snd (fieldString it ''arguments'') then Inl ''completion_function_arguments_invalid''
      else if obj_get it ''status'' \<noteq> None \<and> fieldString it ''status'' \<noteq> (''completed'', True)
      then Inl ''completion_function_status_invalid''
      else if \<not> valid_field it ''call_id'' then Inl ''completion_call_id_invalid''
      else Inr [''call:function:'' @ fst (fieldString it ''call_id'')])"

definition output_refs :: "json \<Rightarrow> string + string list" where
  "output_refs j =
     (case j of
        JObj it \<Rightarrow>
          (case fieldString it ''type'' of (kind, ok) \<Rightarrow>
             if \<not> ok then Inl ''completion_item_type_invalid''
             else if kind \<noteq> ''message'' \<and> kind \<noteq> ''reasoning'' \<and> kind \<noteq> ''function_call'' then Inr []
             else bind_r (if kind = ''function_call'' then Inr []
                          else case historyKey it of None \<Rightarrow> Inl ''completion_history_invalid'' | Some k \<Rightarrow> Inr [k]) (\<lambda>r1.
                  bind_r (if obj_get it ''id'' = None then Inr []
                          else if valid_field it ''id'' then Inr [''item:'' @ fst (fieldString it ''id'')]
                          else Inl ''completion_item_id_invalid'') (\<lambda>r2.
                  bind_r (if kind = ''function_call'' then function_call_refs it else Inr []) (\<lambda>r3.
                  Inr (r1 @ r2 @ r3)))))
      | _ \<Rightarrow> Inl ''completion_item_invalid'')"

fun all_outputs :: "json list \<Rightarrow> string + string list" where
  "all_outputs [] = Inr []"
| "all_outputs (j # js) = bind_r (output_refs j) (\<lambda>r. bind_r (all_outputs js) (\<lambda>rs. Inr (r @ rs)))"

fun decode_list :: "json list \<Rightarrow> json list \<Rightarrow> json list option" where
  "decode_list old [] = Some old"
| "decode_list old (JNull # vs) = decode_list [] vs"
| "decode_list old (JArr xs # vs) = decode_list xs vs"
| "decode_list old (_ # vs) = None"

definition completedRefs :: "string \<Rightarrow> string + string list" where
  "completedRefs data =
     (if \<not> uniqueJSON data then Inl ''completion_json_invalid''
      else case json_parse data of
        Some (JObj ms) \<Rightarrow>
          if present ms ''error'' then Inl ''completion_error_present''
          else if fieldString ms ''status'' \<noteq> (''completed'', True) then Inl ''completion_status_invalid''
          else if \<not> valid_field ms ''id'' then Inl ''completion_id_invalid''
          else (case decode_list [] (field_values ''output'' ms) of
                  None \<Rightarrow> Inl ''completion_output_invalid''
                | Some outs \<Rightarrow> bind_r (all_outputs outs) (\<lambda>rs. Inr (fst (fieldString ms ''id'') # rs)))
      | _ \<Rightarrow> Inl ''completion_object_invalid'')"

definition completedID :: "string \<Rightarrow> string" where
  "completedID data =
     (case Option.bind (json_parse data) (\<lambda>j. case j of JObj ms \<Rightarrow> Some ms | JNull \<Rightarrow> Some [] | _ \<Rightarrow> None) of
        None \<Rightarrow> []
      | Some ms \<Rightarrow>
          (case (string_field ''id'' ms, string_field ''status'' ms) of
             (Some i, Some st) \<Rightarrow> if st = ''completed'' \<and> validID i then i else []
           | _ \<Rightarrow> []))"

end
