(* ===== verification/Proxy_Stream.thy ===== *)
theory Proxy_Stream
  imports Proxy_Refs Affinity Usage
begin

text \<open>
  Package \<^verbatim>\<open>proxy\<close>: the observation of a server-sent event stream (\<^verbatim>\<open>eventObserver\<close> in
  \<^verbatim>\<open>proxy.go\<close>), the gate that withholds terminal frames (\<^verbatim>\<open>completionGate\<close> in
  \<^verbatim>\<open>completion.go\<close>) and the bounded inspection for an account usage limit (\<^verbatim>\<open>usagelimit.go\<close>).
  A response body is the sequence of reads its consumer sees: reads without an error, then one read
  that carries the error (\<^verbatim>\<open>io.EOF\<close> included).
\<close>

section \<open>Bodies\<close>

datatype read_err = EOF | Canceled | DeadlineExceeded | NetError bool | OtherRead

record body =
  chunks :: "string list"
  last_chunk :: string
  end_err :: read_err

definition body_bytes :: "body \<Rightarrow> string" where
  "body_bytes b = concat (chunks b) @ last_chunk b"

text \<open>\<^verbatim>\<open>io.ReadAll(io.LimitReader(b, n))\<close> for \<open>n > 0\<close>: the first \<open>n\<close> bytes, and the error if the read that
  carries it happens before the limit is used up.\<close>

definition limited_read :: "int \<Rightarrow> body \<Rightarrow> string \<times> read_err option" where
  "limited_read n b =
     (take (nat n) (body_bytes b),
      if int (length (body_bytes b)) \<le> n \<and> int (length (concat (chunks b))) < n \<and> end_err b \<noteq> EOF
      then Some (end_err b) else None)"

text \<open>The same, without counting to large limits one by one.\<close>

lemma limited_read_code [code]:
  "limited_read n b =
     (let d = body_bytes b; small = int (length d) \<le> n in
      (if small then d else take (nat n) d,
       if small \<and> int (length (concat (chunks b))) < n \<and> end_err b \<noteq> EOF then Some (end_err b) else None))"
  by (simp add: limited_read_def Let_def)

section \<open>The observer\<close>

record observer =
  obuffer :: string
  odata :: string
  completed :: bool
  failed :: bool
  strict :: bool
  responseIDs :: "string list"
  failureCode :: string
  completionRejection :: string
  outputRefs :: "string list"
  outputBytes :: int

definition eventObserver :: "bool \<Rightarrow> observer" where
  "eventObserver st = \<lparr>obuffer = [], odata = [], completed = False, failed = False, strict = st, responseIDs = [],
     failureCode = [], completionRejection = [], outputRefs = [], outputBytes = 0\<rparr>"

definition buffer_limit :: int where "buffer_limit = 2 ^ 20"

text \<open>The decoded event: its type with the raw response and item, \<open>None\<close> when \<^verbatim>\<open>json.Unmarshal\<close> fails.\<close>

definition decode_event :: "string \<Rightarrow> (string \<times> string \<times> string) option" where
  "decode_event data =
     Option.bind (json_parse data) (\<lambda>j. Option.bind (struct_members j) (\<lambda>ms.
     Option.bind (string_field ''type'' ms) (\<lambda>typ.
     Some (typ, raw_text ''response'' data, raw_text ''item'' data))))"

definition output_wrapper :: "string \<Rightarrow> string" where
  "output_wrapper i =
     ''{\"id\":\"synthetic-output-validation\",\"status\":\"completed\",\"output\":['' @ i @ '']}''"

definition observe_output :: "string \<Rightarrow> observer \<Rightarrow> observer" where
  "observe_output i ob =
     (let o1 = ob\<lparr>outputBytes := outputBytes ob + int (length i)\<rparr> in
      if completed o1 \<or> buffer_limit < outputBytes o1
      then o1\<lparr>failed := True, failureCode := ''stream_output_invalid''\<rparr>
      else case completedRefs (output_wrapper i) of
        Inl reason \<Rightarrow> o1\<lparr>failed := True, failureCode := ''completion_shape_invalid'', completionRejection := reason\<rparr>
      | Inr refs \<Rightarrow> o1\<lparr>outputRefs := outputRefs o1 @ tl refs\<rparr>)"

definition observe_completed :: "string \<Rightarrow> observer \<Rightarrow> observer" where
  "observe_completed resp ob =
     (let o1 = (if \<not> strict ob then ob
        else case completedRefs resp of
          Inr ids \<Rightarrow>
            if completed ob
            then ob\<lparr>failed := True, failureCode := (if failureCode ob = [] then ''duplicate_completion'' else failureCode ob)\<rparr>
            else ob\<lparr>responseIDs := mergeResponseRefs [ids, outputRefs ob]\<rparr>
        | Inl reason \<Rightarrow>
            if failureCode ob \<noteq> [] then ob\<lparr>failed := True\<rparr>
            else if completed ob then ob\<lparr>failed := True, failureCode := ''duplicate_completion''\<rparr>
            else ob\<lparr>failed := True, failureCode := ''completion_shape_invalid'', completionRejection := reason\<rparr>)
      in o1\<lparr>completed := True\<rparr>)"

definition observe_failure :: "string \<Rightarrow> observer \<Rightarrow> observer" where
  "observe_failure code ob =
     ob\<lparr>failed := True, failureCode := (if failureCode ob = [] then code else failureCode ob)\<rparr>"

text \<open>A blank line ends the event collected in \<open>odata\<close>.\<close>

definition observe_event :: "observer \<Rightarrow> observer" where
  "observe_event ob =
     (case decode_event (odata ob) of
        None \<Rightarrow> ob
      | Some (typ, resp, i) \<Rightarrow>
          if typ = ''response.output_item.done'' then (if strict ob then observe_output i ob else ob)
          else if typ = ''response.completed'' then observe_completed resp ob
          else if typ = ''response.failed'' then observe_failure ''upstream_response_failed'' ob
          else if typ = ''response.incomplete'' then observe_failure ''upstream_response_incomplete'' ob
          else if typ = ''error'' then observe_failure ''upstream_error_event'' ob
          else ob)\<lparr>odata := []\<rparr>"

definition observe_line :: "string \<Rightarrow> observer \<Rightarrow> observer" where
  "observe_line line ob =
     (if line = [] then observe_event ob
      else if has_prefix ''data:'' line
      then ob\<lparr>odata := odata ob @ trim_prefix '' '' (trim_prefix ''data:'' line) @ [NL]\<rparr>
      else ob)"

lemma observe_output_buffer [simp]: "obuffer (observe_output i ob) = obuffer ob"
  by (simp add: observe_output_def Let_def split: sum.split)

lemma observe_completed_buffer [simp]: "obuffer (observe_completed r ob) = obuffer ob"
  by (simp add: observe_completed_def Let_def split: sum.split)

lemma observe_failure_buffer [simp]: "obuffer (observe_failure c ob) = obuffer ob"
  by (simp add: observe_failure_def)

lemma observe_line_buffer [simp]: "obuffer (observe_line l ob) = obuffer ob"
  by (simp add: observe_line_def observe_event_def split: option.split)

function observe_lines :: "observer \<Rightarrow> observer" where
  "observe_lines ob =
     (case split_line (obuffer ob) of
        None \<Rightarrow> ob
      | Some (line, rest) \<Rightarrow> observe_lines (observe_line (trim_suffix [CR] line) (ob\<lparr>obuffer := rest\<rparr>)))"
  by pat_completeness auto
termination by (relation "measure (\<lambda>ob. length (obuffer ob))") (auto dest: split_line_length)

declare observe_lines.simps [simp del]

definition observer_feed :: "string \<Rightarrow> observer \<Rightarrow> bool \<times> observer" where
  "observer_feed b ob =
     (let o1 = ob\<lparr>obuffer := obuffer ob @ b\<rparr> in
      if buffer_limit < int (length (obuffer o1)) + int (length (odata o1))
      then (False, o1\<lparr>failureCode := ''stream_buffer_exceeded''\<rparr>)
      else let o2 = observe_lines o1 in (\<not> failed o2, o2))"

section \<open>The gate\<close>

record gate =
  pending :: string
  gframe :: string
  terminal :: string

definition completionGate :: gate where
  "completionGate = \<lparr>pending = [], gframe = [], terminal = []\<rparr>"

text \<open>The loop of \<^verbatim>\<open>feed\<close>; the forwarded bytes are \<open>None\<close> when it gives up.\<close>

function gate_loop :: "string \<Rightarrow> gate \<Rightarrow> observer \<Rightarrow> string option \<times> gate \<times> observer" where
  "gate_loop forward g ob =
     (if buffer_limit < int (length (pending g)) + int (length (gframe g)) + int (length (terminal g))
      then (None, g, ob)
      else case split_line (pending g) of
        None \<Rightarrow> (Some forward, g, ob)
      | Some (l, rest) \<Rightarrow>
          (let g1 = g\<lparr>gframe := gframe g @ l @ [NL], pending := rest\<rparr> in
           if trim_suffix [CR] l \<noteq> [] then gate_loop forward g1 ob
           else case observer_feed (gframe g1) ob of
             (False, o1) \<Rightarrow> (None, g1, o1)
           | (True, o1) \<Rightarrow>
               if completed o1
               then gate_loop forward (g1\<lparr>terminal := terminal g1 @ gframe g1, gframe := []\<rparr>) o1
               else gate_loop (forward @ gframe g1) (g1\<lparr>gframe := []\<rparr>) o1))"
  by pat_completeness auto
termination by (relation "measure (\<lambda>(f, g, ob). length (pending g))") (auto dest: split_line_length)

declare gate_loop.simps [simp del]

definition gate_feed :: "string \<Rightarrow> gate \<Rightarrow> observer \<Rightarrow> string option \<times> gate \<times> observer" where
  "gate_feed data g ob = gate_loop [] (g\<lparr>pending := pending g @ data\<rparr>) ob"

section \<open>Failure codes\<close>

definition responseReadFailure :: "read_err \<Rightarrow> string" where
  "responseReadFailure e =
     (case e of Canceled \<Rightarrow> ''response_read_canceled''
      | DeadlineExceeded \<Rightarrow> ''response_read_timeout''
      | NetError timeout \<Rightarrow> if timeout then ''response_read_timeout'' else ''response_read_failed''
      | _ \<Rightarrow> ''response_read_failed'')"

definition completionStoreFailure :: "go_err \<Rightarrow> string" where
  "completionStoreFailure e =
     (if errors_is e Conflict then ''completion_store_conflict'' else ''completion_store_failed'')"

definition identityRejection :: "go_err option \<Rightarrow> nat \<times> string" where
  "identityRejection e =
     (let is_e = (\<lambda>k. case e of None \<Rightarrow> False | Some x \<Rightarrow> errors_is x (EProxy k)) in
      if is_e PxCredentialStore then (503, ''credential_store_unavailable'')
      else if is_e PxHistoryOwner then (409, ''history_owner_unavailable'')
      else if is_e PxCompactionOwner then (409, ''compaction_owner_unavailable'')
      else if is_e PxAuxiliaryCredential then (409, ''auxiliary_credential_changed'')
      else if is_e PxAuthenticationExpired then (401, ''authentication_expired'')
      else if is_e PxAccountUnavailable then (401, ''account_unavailable'')
      else (401, ''session_unavailable''))"

end
