(* ===== verification/Proxy_Limit.thy ===== *)
theory Proxy_Limit
  imports Proxy_Stream
begin

text \<open>
  Package \<^verbatim>\<open>proxy\<close>: classification of a response by its media type (\<^verbatim>\<open>responseFormat\<close>,
  \<^verbatim>\<open>missingHeaderSSE\<close> in \<^verbatim>\<open>proxy.go\<close>) and the bounded inspection for an account usage limit
  (\<^verbatim>\<open>usagelimit.go\<close>). \<^verbatim>\<open>mime.ParseMediaType\<close> is written out as the standard library has it, up to
  non-ASCII letters, which can never be part of an accepted media type except for the two runes
  whose lower case is an ASCII letter.
\<close>

section \<open>Media types\<close>

definition tspecial :: "char \<Rightarrow> bool" where
  "tspecial c \<longleftrightarrow> c \<in> set ''()<>@,;:/[]?='' \<or> c = CHR 0x22 \<or> c = CHR 0x5C"

definition token_char :: "char \<Rightarrow> bool" where
  "token_char c \<longleftrightarrow> CHR 0x20 < c \<and> c < CHR 0x7F \<and> \<not> tspecial c"

definition consume_token :: "string \<Rightarrow> string \<times> string" where
  "consume_token v = (takeWhile token_char v, dropWhile token_char v)"

definition lower :: "char \<Rightarrow> char" where
  "lower c = (if 65 \<le> byte c \<and> byte c \<le> 90 then char_of (byte c + 32) else c)"

text \<open>The Kelvin sign and the capital I with a dot lower to ASCII letters.\<close>

fun to_lower :: "string \<Rightarrow> string" where
  "to_lower [] = []"
| "to_lower (a # r) =
     (case r of
        b # r2 \<Rightarrow>
          if a = CHR 0xC4 \<and> b = CHR 0xB0 then CHR ''i'' # to_lower r2
          else (case r2 of
                  c # r3 \<Rightarrow> if a = CHR 0xE2 \<and> b = CHR 0x84 \<and> c = CHR 0xAA then CHR ''k'' # to_lower r3
                            else lower a # to_lower r
                | [] \<Rightarrow> lower a # to_lower r)
      | [] \<Rightarrow> [lower a])"

definition trim_left :: "string \<Rightarrow> string" where
  "trim_left s = trim_with space_head s"

text \<open>A quoted value after its opening quote: the value and the text after the closing quote.\<close>

fun quoted_value :: "string \<Rightarrow> (string \<times> string) option" where
  "quoted_value [] = None"
| "quoted_value (c # cs) =
     (if c = CHR 0x22 then Some ([], cs)
      else case cs of
        d # ds \<Rightarrow>
          if c = CHR 0x5C \<and> tspecial d then map_option (\<lambda>(v, r). (d # v, r)) (quoted_value ds)
          else if c = CR \<or> c = NL then None
          else map_option (\<lambda>(v, r). (c # v, r)) (quoted_value cs)
      | [] \<Rightarrow> None)"

definition consume_value :: "string \<Rightarrow> string \<times> string" where
  "consume_value v =
     (case v of
        c # cs \<Rightarrow> if c = CHR 0x22 then (case quoted_value cs of None \<Rightarrow> ([], v) | Some x \<Rightarrow> x) else consume_token v
      | [] \<Rightarrow> ([], []))"

text \<open>One parameter, with the text after it; \<open>None\<close> is the empty key the code returns on an error.\<close>

definition consume_param :: "string \<Rightarrow> (string \<times> string \<times> string) option" where
  "consume_param v =
     (case trim_left v of
        c # r1 \<Rightarrow>
          if c \<noteq> CHR '';'' then None
          else (case consume_token (trim_left r1) of (k, r2) \<Rightarrow>
            if k = [] then None
            else case trim_left r2 of
              d # r3 \<Rightarrow>
                if d \<noteq> CHR ''='' then None
                else (let r4 = trim_left r3 in
                  case consume_value r4 of (x, r5) \<Rightarrow>
                    if x = [] \<and> r5 = r4 then None else Some (to_lower k, x, r5))
            | [] \<Rightarrow> None)
      | [] \<Rightarrow> None)"

text \<open>The loop over the parameters. A key with two different values is an error; text that is no
  parameter is one too, except a single trailing semicolon.\<close>

fun params_ok :: "nat \<Rightarrow> (string \<times> string) list \<Rightarrow> string \<Rightarrow> bool" where
  "params_ok 0 seen v = True"
| "params_ok (Suc n) seen v =
     (let v1 = trim_left v in
      if v1 = [] then True
      else case consume_param v1 of
        None \<Rightarrow> trim_space v1 = '';''
      | Some (k, x, rest) \<Rightarrow>
          (case map_of seen k of Some y \<Rightarrow> y = x \<and> params_ok n seen rest
           | None \<Rightarrow> params_ok n ((k, x) # seen) rest))"

definition type_ok :: "string \<Rightarrow> bool" where
  "type_ok s =
     (case consume_token s of (typ, rest) \<Rightarrow>
        typ \<noteq> [] \<and>
        (case rest of [] \<Rightarrow> True
         | c # r \<Rightarrow> c = CHR ''/'' \<and> (case consume_token r of (sub, r2) \<Rightarrow> sub \<noteq> [] \<and> r2 = [])))"

text \<open>Every parameter takes at least one byte, so the length of the text bounds the loop.\<close>

definition ParseMediaType :: "string \<Rightarrow> string option" where
  "ParseMediaType v =
     (let base = fst (str_cut '';'' v); media = trim_space (to_lower base) in
      if type_ok media \<and> params_ok (length v) [] (drop (length base) v) then Some media else None)"

definition responseFormat :: "string \<Rightarrow> string" where
  "responseFormat value =
     (if trim_space value = [] then ''missing''
      else case ParseMediaType value of
        None \<Rightarrow> ''invalid''
      | Some media \<Rightarrow> if media = ''text/event-stream'' then ''sse''
                      else if media = ''application/json'' then ''json'' else ''other'')"

text \<open>Peeking buffers bytes and consumes none, so only the answer is left.\<close>

definition missingHeaderSSE :: "body \<Rightarrow> bool" where
  "missingHeaderSSE b =
     (case body_bytes b of
        [] \<Rightarrow> False
      | c # _ \<Rightarrow>
          if c = CHR '':'' then True
          else if c = CHR ''d'' then take 5 (body_bytes b) = ''data:''
          else if c = CHR ''e'' then take 6 (body_bytes b) = ''event:''
          else False)"

section \<open>Usage limits\<close>

definition usageLimitProbeBytes :: int where "usageLimitProbeBytes = 64 * 1024"

definition usageLimitError :: "json option \<Rightarrow> bool" where
  "usageLimitError raw =
     (case Option.bind raw struct_members of
        None \<Rightarrow> False
      | Some ms \<Rightarrow>
          (case (string_field ''type'' ms, string_field ''code'' ms) of
             (Some t, Some c) \<Rightarrow>
               c = ''usage_limit_reached'' \<and> (t = [] \<or> t = ''usage_limit_reached'' \<or> t = ''error'')
               \<or> t = ''usage_limit_reached'' \<and> c = []
           | _ \<Rightarrow> False))"

definition usageLimitJSON :: "string \<Rightarrow> bool" where
  "usageLimitJSON data =
     (case Option.bind (json_parse data) struct_members of
        None \<Rightarrow> False | Some ms \<Rightarrow> usageLimitError (raw_field ''error'' ms))"

text \<open>The event a frame decodes to. Repeated \<open>response\<close> members decode into the same struct.\<close>

record limit_event =
  leType :: string
  leError :: "json option"
  leCode :: string
  leRespError :: "json option"
  leOutput :: "json list"

definition decode_limit_event :: "string \<Rightarrow> limit_event option" where
  "decode_limit_event data =
     Option.bind (json_parse data) (\<lambda>j. Option.bind (struct_members j) (\<lambda>ms.
     Option.bind (string_field ''type'' ms) (\<lambda>t. Option.bind (string_field ''code'' ms) (\<lambda>c.
     Option.bind (all_some (map struct_members (field_values ''response'' ms))) (\<lambda>rs.
     Option.bind (decode_list [] (field_values ''output'' (concat rs))) (\<lambda>out.
     Some \<lparr>leType = t, leError = raw_field ''error'' ms, leCode = c,
           leRespError = raw_field ''error'' (concat rs), leOutput = out\<rparr>))))))"

text \<open>The answer an event gives, \<open>None\<close> when the scan goes on.\<close>

definition limit_verdict :: "limit_event \<Rightarrow> bool option" where
  "limit_verdict e =
     (if leType e = ''error'' then
        Some (usageLimitError (leError e)
              \<or> leCode e = ''usage_limit_reached'' \<and> (leError e = None \<or> leError e = Some JNull))
      else if leType e = ''response.failed'' then Some (leOutput e = [] \<and> usageLimitError (leRespError e))
      else if leType e = ''response.created'' \<or> leType e = ''response.in_progress'' then
        (if leOutput e \<noteq> [] \<or> leRespError e \<noteq> None \<and> leRespError e \<noteq> Some JNull then Some False else None)
      else Some False)"

text \<open>The scan of the bounded prefix: what is left of it, what was consumed and the frame so far. The
  result is the answer with the bytes consumed and the rest of the prefix.\<close>

function scan_limit :: "string \<Rightarrow> string \<Rightarrow> string \<Rightarrow> bool \<times> string \<times> string" where
  "scan_limit rest consumed frame =
     (case split_line rest of
        None \<Rightarrow> (False, consumed @ rest, [])
      | Some (l, rest1) \<Rightarrow>
          (let consumed1 = consumed @ l @ [NL]; line = trim_suffix [CR] l in
           if usageLimitProbeBytes < int (length consumed1) then (False, consumed1, rest1)
           else if line \<noteq> [] then
             scan_limit rest1 consumed1
               (if has_prefix ''data:'' line then frame @ trim_prefix '' '' (drop 5 line) @ [NL] else frame)
           else if frame = [] then scan_limit rest1 consumed1 frame
           else case Option.bind (decode_limit_event frame) (\<lambda>e. Some (limit_verdict e)) of
             None \<Rightarrow> (False, consumed1, rest1)
           | Some (Some v) \<Rightarrow> (v, consumed1, rest1)
           | Some None \<Rightarrow> scan_limit rest1 consumed1 []))"
  by pat_completeness auto
termination by (relation "measure (\<lambda>(r, c, f). length r)") (auto dest: split_line_length)

declare scan_limit.simps [simp del]

text \<open>The inspection gives its answer and the body the caller reads afterwards.\<close>

definition inspectUsageLimit :: "nat \<Rightarrow> string \<Rightarrow> body \<Rightarrow> bool \<times> body" where
  "inspectUsageLimit status contentType b =
     (let n = usageLimitProbeBytes + 1; rest = drop (nat n) (body_bytes b) in
      if status = 429 then
        (case limited_read n b of (data, err) \<Rightarrow>
           (err = None \<and> int (length data) \<le> usageLimitProbeBytes \<and> usageLimitJSON data,
            b\<lparr>chunks := [data], last_chunk := rest\<rparr>))
      else if status \<noteq> 200 \<or> responseFormat contentType \<noteq> ''sse'' then (False, b)
      else case scan_limit (take (nat n) (body_bytes b)) [] [] of
        (v, consumed, left) \<Rightarrow> (v, b\<lparr>chunks := [consumed, left], last_chunk := rest\<rparr>))"

lemma inspectUsageLimit_code [code]:
  "inspectUsageLimit status contentType b =
     (let d = body_bytes b; short = int (length d) \<le> usageLimitProbeBytes + 1;
          probe = (if short then d else take (nat (usageLimitProbeBytes + 1)) d);
          rest = (if short then [] else drop (nat (usageLimitProbeBytes + 1)) d)
      in if status = 429 then
           (case limited_read (usageLimitProbeBytes + 1) b of (data, err) \<Rightarrow>
              (err = None \<and> int (length data) \<le> usageLimitProbeBytes \<and> usageLimitJSON data,
               b\<lparr>chunks := [data], last_chunk := rest\<rparr>))
         else if status \<noteq> 200 \<or> responseFormat contentType \<noteq> ''sse'' then (False, b)
         else case scan_limit probe [] [] of
           (v, consumed, left) \<Rightarrow> (v, b\<lparr>chunks := [consumed, left], last_chunk := rest\<rparr>))"
  by (simp add: inspectUsageLimit_def Let_def)

end
