(* ===== verification/Proxy_Handler.thy ===== *)
theory Proxy_Handler
  imports Proxy_Limit Routing
begin

text \<open>
  Package \<^verbatim>\<open>proxy\<close>: the HTTP handler (\<^verbatim>\<open>proxy.go\<close>) and the delivery of a persistent response
  (\<^verbatim>\<open>completion.go\<close>). The client connection records what was written to it; which of its writes fail,
  and after how many bytes, is the argument \<open>fault\<close>. The upstream service is a function of the request
  it is sent; every request sent is part of the result. \<^verbatim>\<open>panic(http.ErrAbortHandler)\<close> is the outcome
  \<open>Abort\<close>: the deferred functions still run.
\<close>

section \<open>The client connection\<close>

record client =
  cStatus :: "nat option"
  cHeaders :: "string \<rightharpoonup> string"
  cBytes :: string
  cOps :: nat

definition new_client :: client where
  "new_client = \<lparr>cStatus = None, cHeaders = Map.empty, cBytes = [], cOps = 0\<rparr>"

text \<open>The outcome of the \<open>n\<close>-th write or flush: \<open>None\<close> when it succeeds, otherwise the number of bytes that
  still got through.\<close>

type_synonym faults = "nat \<Rightarrow> nat option"

definition set_header :: "string \<Rightarrow> string \<Rightarrow> client \<Rightarrow> client" where
  "set_header k v w = w\<lparr>cHeaders := (cHeaders w)(k \<mapsto> v)\<rparr>"

definition write_header :: "nat \<Rightarrow> client \<Rightarrow> client" where
  "write_header status w = (if cStatus w = None then w\<lparr>cStatus := Some status\<rparr> else w)"

definition client_write :: "faults \<Rightarrow> string \<Rightarrow> client \<Rightarrow> bool \<times> client" where
  "client_write fault b w0 =
     (let w = write_header 200 w0 in
      case fault (cOps w) of
        None \<Rightarrow> (True, w\<lparr>cBytes := cBytes w @ b, cOps := Suc (cOps w)\<rparr>)
      | Some n \<Rightarrow> (False, w\<lparr>cBytes := cBytes w @ take n b, cOps := Suc (cOps w)\<rparr>))"

definition client_flush :: "faults \<Rightarrow> client \<Rightarrow> bool \<times> client" where
  "client_flush fault w0 =
     (let w = write_header 200 w0 in (fault (cOps w) = None, w\<lparr>cOps := Suc (cOps w)\<rparr>))"

text \<open>\<^verbatim>\<open>reject\<close>: the error object, encoded with a newline; the outcome of the write is ignored. The codes
  are local constants.\<close>

definition reject_body :: "string \<Rightarrow> string" where
  "reject_body code = ''{\"error\":{\"code\":'' @ json_quote code @ '',\"message\":'' @ json_quote code @ ''}}'' @ [NL]"

definition reject :: "faults \<Rightarrow> nat \<Rightarrow> string \<Rightarrow> client \<Rightarrow> client" where
  "reject fault status code w =
     snd (client_write fault (reject_body code)
       (write_header status
         (set_header ''Cache-Control'' ''no-store'' (set_header ''Content-Type'' ''application/json'' w))))"

section \<open>The handler\<close>

record diagnostics =
  UsageLimit :: bool
  Requests :: int
  Attempts :: int
  dStatus :: nat
  Rejection :: string
  ResponseFailure :: string
  ResponseFormat :: string
  CompletionRejection :: string
  CompletionSeen :: bool
  CompletionCommitted :: bool

record 'db handler =
  DeferUsageLimit :: bool
  BeforeAttempt :: "(unit res) option"
  ValidateCompaction :: "(string \<Rightarrow> bool) option"
  hTarget :: string
  busy :: "string set"
  blocked :: "string set"
  hstore :: "'db store option"
  diagnostic :: diagnostics

definition responseDiagnostic :: "string \<Rightarrow> bool \<Rightarrow> bool \<Rightarrow> 'db handler \<Rightarrow> 'db handler" where
  "responseDiagnostic code seen committed h =
     h\<lparr>diagnostic := (diagnostic h)\<lparr>ResponseFailure := code, CompletionSeen := seen, CompletionCommitted := committed\<rparr>\<rparr>"

definition handler_begin :: "string \<Rightarrow> 'db handler \<Rightarrow> bool \<times> 'db handler" where
  "handler_begin session h =
     (if session \<in> blocked h \<or> session \<in> busy h then (False, h) else (True, h\<lparr>busy := insert session (busy h)\<rparr>))"

definition handler_finish :: "string \<Rightarrow> bool \<Rightarrow> 'db handler \<Rightarrow> 'db handler" where
  "handler_finish session bad h =
     (let h1 = h\<lparr>busy := busy h - {session}\<rparr> in
      if bad then h1\<lparr>blocked := insert session (blocked h1)\<rparr> else h1)"

definition reset_diagnostics :: "diagnostics \<Rightarrow> diagnostics" where
  "reset_diagnostics d =
     d\<lparr>Requests := Requests d + 1, UsageLimit := False, dStatus := 0, Rejection := [], ResponseFailure := [],
       ResponseFormat := [], CompletionRejection := [], CompletionSeen := False, CompletionCommitted := False\<rparr>"

definition note_rejection :: "nat \<Rightarrow> string \<Rightarrow> 'db handler \<Rightarrow> 'db handler" where
  "note_rejection status code h = h\<lparr>diagnostic := (diagnostic h)\<lparr>dStatus := status, Rejection := code\<rparr>\<rparr>"

definition set_diagnostic :: "(diagnostics \<Rightarrow> diagnostics) \<Rightarrow> 'db handler \<Rightarrow> 'db handler" where
  "set_diagnostic f h = h\<lparr>diagnostic := f (diagnostic h)\<rparr>"

section \<open>Delivery of a persistent response\<close>

datatype outcome = Returned bool | Abort

text \<open>The local variables of the streaming loop.\<close>

record delivery =
  dGate :: gate
  dObserver :: observer
  dClient :: client
  dCode :: string
  dReason :: string
  dSeen :: bool

text \<open>The bytes of one read; \<open>Some\<close> when the function ends there.\<close>

definition deliver_bytes :: "faults \<Rightarrow> string \<Rightarrow> delivery \<Rightarrow> outcome option \<times> delivery" where
  "deliver_bytes fault b d =
     (if b = [] then (None, d)
      else case gate_feed b (dGate d) (dObserver d) of
        (None, g, ob) \<Rightarrow>
          (Some Abort, d\<lparr>dGate := g, dObserver := ob, dSeen := completed ob, dReason := completionRejection ob,
             dCode := (if failureCode ob = [] then ''stream_buffer_exceeded'' else failureCode ob)\<rparr>)
      | (Some forward, g, ob) \<Rightarrow>
          (let d1 = d\<lparr>dGate := g, dObserver := ob, dSeen := completed ob\<rparr> in
           if forward = [] then (None, d1)
           else case client_write fault forward (dClient d1) of
             (False, w) \<Rightarrow> (Some (Returned False), d1\<lparr>dClient := w, dCode := ''client_write_failed''\<rparr>)
           | (True, w) \<Rightarrow>
               (case client_flush fault w of
                  (False, w1) \<Rightarrow> (Some (Returned False), d1\<lparr>dClient := w1, dCode := ''client_flush_failed''\<rparr>)
                | (True, w1) \<Rightarrow> (None, d1\<lparr>dClient := w1\<rparr>))))"

fun deliver_reads :: "faults \<Rightarrow> string list \<Rightarrow> delivery \<Rightarrow> outcome option \<times> delivery" where
  "deliver_reads fault [] d = (None, d)"
| "deliver_reads fault (b # bs) d =
     (case deliver_bytes fault b d of
        (Some r, d1) \<Rightarrow> (Some r, d1)
      | (None, d1) \<Rightarrow> deliver_reads fault bs d1)"

text \<open>Why the end of the stream does not count as a completed response, \<open>None\<close> when it does.\<close>

definition end_rejection :: "read_err \<Rightarrow> delivery \<Rightarrow> string option" where
  "end_rejection e d =
     (if e \<noteq> EOF then Some (responseReadFailure e)
      else if \<not> completed (dObserver d) then Some ''completion_missing''
      else if failed (dObserver d) then Some (failureCode (dObserver d))
      else if pending (dGate d) \<noteq> [] \<or> gframe (dGate d) \<noteq> [] then Some ''stream_trailing_frame_incomplete''
      else if responseIDs (dObserver d) = [] then Some ''completion_ids_missing''
      else None)"

type_synonym 'db delivered = "outcome \<times> string \<times> string \<times> bool \<times> bool \<times> client \<times> 'db store"

text \<open>The result: the outcome, then code, reason, seen and committed for the diagnostics, the client and
  the store.\<close>

definition deliver_end :: "'db conn \<Rightarrow> faults \<Rightarrow> lease \<Rightarrow> time \<Rightarrow> read_err \<Rightarrow> 'db store \<Rightarrow> delivery \<Rightarrow> 'db delivered" where
  "deliver_end q fault l now e s d =
     (case end_rejection e d of
        Some code \<Rightarrow> (Abort, code, dReason d, dSeen d, False, dClient d, s)
      | None \<Rightarrow>
          (case Finish q l (responseIDs (dObserver d)) True now s of
             (Inl err, s1) \<Rightarrow> (Abort, completionStoreFailure err, dReason d, dSeen d, False, dClient d, s1)
           | (Inr _, s1) \<Rightarrow>
               (case client_write fault (terminal (dGate d)) (dClient d) of
                  (False, w) \<Rightarrow> (Returned True, ''client_write_failed_after_commit'', dReason d, dSeen d, True, w, s1)
                | (True, w) \<Rightarrow>
                    (case client_flush fault w of
                       (False, w1) \<Rightarrow> (Returned True, ''client_flush_failed_after_commit'', dReason d, dSeen d, True, w1, s1)
                     | (True, w1) \<Rightarrow> (Returned True, [], dReason d, dSeen d, True, w1, s1)))))"

definition deliver_stream :: "'db conn \<Rightarrow> faults \<Rightarrow> lease \<Rightarrow> time \<Rightarrow> body \<Rightarrow> 'db store \<Rightarrow> client \<Rightarrow> 'db delivered" where
  "deliver_stream q fault l now b s w =
     (case deliver_reads fault (chunks b @ [last_chunk b])
             \<lparr>dGate = completionGate, dObserver = eventObserver True, dClient = w,
              dCode = ''response_processing_interrupted'', dReason = [], dSeen = False\<rparr> of
        (Some r, d) \<Rightarrow> (r, dCode d, dReason d, dSeen d, False, dClient d, s)
      | (None, d) \<Rightarrow> deliver_end q fault l now (end_err b) s d)"

definition response_limit :: int where "response_limit = 4 * 2 ^ 20"

definition deliver_whole :: "'db conn \<Rightarrow> faults \<Rightarrow> lease \<Rightarrow> time \<Rightarrow> nat \<Rightarrow> body \<Rightarrow> 'db store \<Rightarrow> client \<Rightarrow> 'db delivered" where
  "deliver_whole q fault l now status b s w =
     (case limited_read (response_limit + 1) b of
        (_, Some e) \<Rightarrow> (Abort, responseReadFailure e, [], False, False, w, s)
      | (data, None) \<Rightarrow>
          if response_limit < int (length data) then (Abort, ''response_buffer_exceeded'', [], False, False, w, s)
          else case completedRefs data of
            Inl reason \<Rightarrow> (Abort, ''completion_shape_invalid'', reason, False, False, w, s)
          | Inr ids \<Rightarrow>
              (case Finish q l ids True now s of
                 (Inl err, s1) \<Rightarrow> (Abort, completionStoreFailure err, [], True, False, w, s1)
               | (Inr _, s1) \<Rightarrow>
                   (case client_write fault data (write_header status w) of
                      (wrote, w1) \<Rightarrow> (Returned True, if wrote then [] else ''client_write_failed_after_commit'',
                                      [], True, True, w1, s1))))"

definition deliverPersistent :: "'db conn \<Rightarrow> faults \<Rightarrow> lease \<Rightarrow> time \<Rightarrow> bool \<Rightarrow> nat \<Rightarrow> body \<Rightarrow> 'db store \<Rightarrow> client \<Rightarrow> 'db delivered" where
  "deliverPersistent q fault l now stream status b s w =
     (if stream then deliver_stream q fault l now b s (write_header status w)
      else deliver_whole q fault l now status b s w)"

section \<open>Plain forwarding\<close>

text \<open>The loop at the end of \<^verbatim>\<open>ServeHTTP\<close>: \<open>Some\<close> when it ends before the reads do.\<close>

fun forward_reads :: "faults \<Rightarrow> bool \<Rightarrow> string list \<Rightarrow> observer \<Rightarrow> client \<Rightarrow> outcome option \<times> observer \<times> client" where
  "forward_reads fault stream [] ob w = (None, ob, w)"
| "forward_reads fault stream (b # bs) ob w =
     (if b = [] then forward_reads fault stream bs ob w
      else case client_write fault b w of
        (False, w1) \<Rightarrow> (Some (Returned False), ob, w1)
      | (True, w1) \<Rightarrow>
          if \<not> stream then forward_reads fault stream bs ob w1
          else case client_flush fault w1 of
            (False, w2) \<Rightarrow> (Some (Returned False), ob, w2)
          | (True, w2) \<Rightarrow>
              (case observer_feed b ob of
                 (False, o1) \<Rightarrow> (Some Abort, o1, w2)
               | (True, o1) \<Rightarrow> forward_reads fault stream bs o1 w2))"

definition forward_body :: "faults \<Rightarrow> bool \<Rightarrow> nat \<Rightarrow> body \<Rightarrow> client \<Rightarrow> outcome \<times> client" where
  "forward_body fault stream status b w =
     (case forward_reads fault stream (chunks b @ [last_chunk b]) (eventObserver False) w of
        (Some r, _, w1) \<Rightarrow> (r, w1)
      | (None, ob, w1) \<Rightarrow>
          (if end_err b \<noteq> EOF \<or> stream \<and> (\<not> completed ob \<or> failed ob) then Abort
           else Returned (200 \<le> status \<and> status < 300), w1))"

section \<open>Serving a request\<close>

record http_request =
  rMethod :: string
  rPath :: string
  rRawQuery :: string
  rUpgrade :: string
  rBody :: body

record out_request =
  oURL :: string
  oHeaders :: "(string \<times> string) list"
  oBody :: string

record up_response =
  upStatus :: nat
  upEncoding :: string
  upContentType :: string
  upBody :: body

text \<open>What the handler learns from outside while it serves one request: whether the request's context has
  ended at each of the three places the code looks, the random texts, the clock readings and whether
  building the outgoing request succeeds.\<close>

record serve_env =
  ctx_entry :: bool
  ctx_resolved :: bool
  ctx_dispatch :: bool
  request_id :: string
  lease_id :: string
  begin_time :: time
  done_time :: time
  fail_time :: time
  builds :: bool

definition hreject :: "faults \<Rightarrow> nat \<Rightarrow> string \<Rightarrow> client \<Rightarrow> 'db handler \<Rightarrow> client \<times> 'db handler" where
  "hreject fault status code w h = (reject fault status code w, note_rejection status code h)"

definition refuse :: "faults \<Rightarrow> nat \<Rightarrow> string \<Rightarrow> client \<Rightarrow> 'db handler \<Rightarrow> outcome \<times> client \<times> 'db handler" where
  "refuse fault status code w h = (Returned False, hreject fault status code w h)"

definition is_compact :: "http_request \<Rightarrow> 'db handler \<Rightarrow> bool" where
  "is_compact r h \<longleftrightarrow> rPath r = ''/responses/compact'' \<and> ValidateCompaction h \<noteq> None \<and> hstore h = None"

definition trim_right_slash :: "string \<Rightarrow> string" where
  "trim_right_slash s = rev (dropWhile (\<lambda>c. c = CHR ''/'') (rev s))"

definition out_headers :: "identity \<Rightarrow> (string \<times> string) list" where
  "out_headers i =
     [(''Content-Type'', ''application/json''), (''Accept'', ''text/event-stream, application/json''),
      (''Authorization'', ''Bearer '' @ iToken i)]
     @ (if iAccountID i \<noteq> [] then [(''ChatGPT-Account-ID'', iAccountID i)] else [])"

definition outgoing :: "identity \<Rightarrow> bool \<Rightarrow> string \<Rightarrow> 'db handler \<Rightarrow> out_request" where
  "outgoing i compaction data h =
     \<lparr>oURL = (if compaction then trim_right_slash (hTarget h) @ ''/compact'' else hTarget h),
      oHeaders = out_headers i, oBody = data\<rparr>"

text \<open>The answer to a compaction request is validated as a whole before any of it is sent on.\<close>

definition serve_compaction :: "faults \<Rightarrow> up_response \<Rightarrow> string \<Rightarrow> client \<Rightarrow> 'db handler \<Rightarrow> outcome \<times> client \<times> 'db handler" where
  "serve_compaction fault resp format w h =
     (if upStatus resp \<noteq> 200 then refuse fault (upStatus resp) ''compaction_upstream_failed'' w h
      else case limited_read (response_limit + 1) (upBody resp) of
        (data, err) \<Rightarrow>
          if err \<noteq> None \<or> response_limit < int (length data) \<or> (format \<noteq> ''json'' \<and> format \<noteq> ''missing'')
             \<or> json_parse data = None \<or> \<not> the (ValidateCompaction h) data
          then refuse fault 502 ''compaction_response_invalid'' w h
          else case client_write fault data (set_header ''Content-Type'' ''application/json'' w) of
            (False, w1) \<Rightarrow> (Returned False, w1, h)
          | (True, w1) \<Rightarrow> (Returned True, w1, responseDiagnostic [] True True h))"

definition success_status :: "nat \<Rightarrow> bool" where
  "success_status n \<longleftrightarrow> 200 \<le> n \<and> n < 300"

text \<open>From the classified response to the end of the handler.\<close>

definition serve_delivery :: "'db conn \<Rightarrow> faults \<Rightarrow> serve_env \<Rightarrow> bool \<Rightarrow> lease option \<Rightarrow> up_response \<Rightarrow> client \<Rightarrow>
    'db handler \<Rightarrow> outcome \<times> client \<times> 'db handler" where
  "serve_delivery q fault env compaction l resp w h =
     (let format0 = responseFormat (upContentType resp);
          persistent = (hstore h \<noteq> None \<and> success_status (upStatus resp));
          fallback = (format0 = ''missing'' \<and> persistent \<and> missingHeaderSSE (upBody resp));
          stream = (format0 = ''sse'' \<or> fallback);
          format = (if fallback then ''missing_sse'' else format0);
          h1 = set_diagnostic (\<lambda>d. d\<lparr>ResponseFormat := format\<rparr>) h;
          w1 = set_header ''Cache-Control'' ''no-store''
                 (set_header ''Content-Type'' (if stream then ''text/event-stream'' else ''application/json'') w)
      in if compaction then serve_compaction fault resp format w1 h1
         else case (hstore h, l) of
           (Some s, Some lease1) \<Rightarrow>
             if success_status (upStatus resp) then
               (case deliverPersistent q fault lease1 (done_time env) stream (upStatus resp) (upBody resp) s w1 of
                  (r, code, reason, seen, committed, w2, s1) \<Rightarrow>
                    (r, w2, set_diagnostic (\<lambda>d. d\<lparr>CompletionRejection := reason\<rparr>)
                              (responseDiagnostic code seen committed (h1\<lparr>hstore := Some s1\<rparr>))))
             else (case forward_body fault stream (upStatus resp) (upBody resp) (write_header (upStatus resp) w1) of
                     (r, w2) \<Rightarrow> (r, w2, h1))
         | _ \<Rightarrow> (case forward_body fault stream (upStatus resp) (upBody resp) (write_header (upStatus resp) w1) of
                    (r, w2) \<Rightarrow> (r, w2, h1)))"

definition serve_response :: "'db conn \<Rightarrow> faults \<Rightarrow> serve_env \<Rightarrow> bool \<Rightarrow> lease option \<Rightarrow> up_response \<Rightarrow> client \<Rightarrow>
    'db handler \<Rightarrow> outcome \<times> client \<times> 'db handler" where
  "serve_response q fault env compaction l resp0 w h0 =
     (let h = set_diagnostic (\<lambda>d. d\<lparr>dStatus := upStatus resp0\<rparr>) h0 in
      if 300 \<le> upStatus resp0 \<and> upStatus resp0 < 400 then refuse fault 502 ''upstream_redirect_rejected'' w h
      else if upEncoding resp0 \<noteq> [] \<and> upEncoding resp0 \<noteq> ''identity'' then refuse fault 502 ''unsupported_encoding'' w h
      else let probing = (DeferUsageLimit h \<and> \<not> compaction \<and> hstore h = None);
               probe = inspectUsageLimit (upStatus resp0) (upContentType resp0) (upBody resp0);
               resp = (if probing then resp0\<lparr>upBody := snd probe\<rparr> else resp0)
           in if probing \<and> fst probe
              then (Returned False, w, set_diagnostic
                     (\<lambda>d. d\<lparr>dStatus := 429, UsageLimit := True, Rejection := ''upstream_usage_limit''\<rparr>) h)
              else serve_delivery q fault env compaction l resp w h)"

type_synonym upstream = "out_request \<Rightarrow> up_response option"

text \<open>From the outgoing request on. The last component lists the requests sent.\<close>

definition serve_dispatch :: "'db conn \<Rightarrow> faults \<Rightarrow> upstream \<Rightarrow> serve_env \<Rightarrow> identity \<Rightarrow> bool \<Rightarrow> string \<Rightarrow> lease option \<Rightarrow>
    client \<Rightarrow> 'db handler \<Rightarrow> (outcome \<times> client \<times> 'db handler) \<times> out_request list" where
  "serve_dispatch q fault up env i compaction data l w h =
     (if \<not> builds env then (refuse fault 502 ''upstream_unavailable'' w h, [])
      else if BeforeAttempt h \<noteq> None \<and> isl (the (BeforeAttempt h))
      then (refuse fault 409 ''request_dispatch_rejected'' w h, [])
      else if ctx_dispatch env then (refuse fault 408 ''request_canceled'' w h, [])
      else let h1 = set_diagnostic (\<lambda>d. d\<lparr>Attempts := Attempts d + 1\<rparr>) h;
               out = outgoing i compaction data h
           in (case up out of
                 None \<Rightarrow> refuse fault 502 ''upstream_transport_error'' w h1
               | Some resp \<Rightarrow> serve_response q fault env compaction l resp w h1, [out]))"

text \<open>The deferred \<^verbatim>\<open>Finish(lease, nil, false)\<close> of a failed persistent request.\<close>

definition fail_lease :: "'db conn \<Rightarrow> serve_env \<Rightarrow> lease \<Rightarrow> 'db handler \<Rightarrow> 'db handler" where
  "fail_lease q env l h =
     (case hstore h of None \<Rightarrow> h | Some s \<Rightarrow> h\<lparr>hstore := Some (snd (Finish q l [] False (fail_time env) s))\<rparr>)"

definition owner_ok :: "identity \<Rightarrow> hsession res \<Rightarrow> bool" where
  "owner_ok i x =
     (case x of Inl _ \<Rightarrow> False
      | Inr s \<Rightarrow> Session (iOrigin i) = iSession i \<and> sOrigin s = iOrigin i \<and> Account s = iSlot i)"

text \<open>From the readable body to the deferred clean-up of the lease.\<close>

definition serve_body :: "'db conn \<Rightarrow> faults \<Rightarrow> upstream \<Rightarrow> serve_env \<Rightarrow> identity \<Rightarrow> bool \<Rightarrow> string \<Rightarrow>
    client \<Rightarrow> 'db handler \<Rightarrow> (outcome \<times> client \<times> 'db handler) \<times> out_request list" where
  "serve_body q fault up env i compaction data w h =
     (case hstore h of
        None \<Rightarrow> serve_dispatch q fault up env i compaction data None w h
      | Some s \<Rightarrow>
          (case continuationRefs data of
             None \<Rightarrow> (refuse fault 400 ''unsupported_persistent_request'' w h, [])
           | Some refs \<Rightarrow>
               (case Lookup q (iSession i) s of (x, s1) \<Rightarrow>
                  let h1 = h\<lparr>hstore := Some s1\<rparr> in
                  if \<not> owner_ok i x then (refuse fault 409 ''session_owner_unverified'' w h1, [])
                  else case BeginWithInputs q (iOrigin i) refs (inlineMessageIDs data) (lease_id env) (begin_time env) s1 of
                    (Inl _, s2) \<Rightarrow> (refuse fault 409 ''continuation_or_session_unavailable'' w (h\<lparr>hstore := Some s2\<rparr>), [])
                  | (Inr l, s2) \<Rightarrow>
                      (case serve_dispatch q fault up env i compaction data (Some l) w (h\<lparr>hstore := Some s2\<rparr>) of
                         ((r, w1, h2), sent) \<Rightarrow>
                           ((r, w1, if r = Returned True then h2 else fail_lease q env l h2), sent)))))"

definition request_data :: "body \<Rightarrow> string option" where
  "request_data b =
     (if end_err b \<noteq> EOF \<or> response_limit < int (length (body_bytes b)) then None else Some (body_bytes b))"

definition serve_session :: "'db conn \<Rightarrow> faults \<Rightarrow> upstream \<Rightarrow> serve_env \<Rightarrow> identity \<Rightarrow> bool \<Rightarrow> body \<Rightarrow>
    client \<Rightarrow> 'db handler \<Rightarrow> (outcome \<times> client \<times> 'db handler) \<times> out_request list" where
  "serve_session q fault up env i compaction b w0 h =
     (let w = set_header ''X-Switcher-Request-ID'' (request_id env) w0 in
      case request_data b of
        None \<Rightarrow> (refuse fault 413 ''request_unreadable'' w h, [])
      | Some data \<Rightarrow>
          if json_parse data = None then (refuse fault 400 ''invalid_json'' w h, [])
          else serve_body q fault up env i compaction data w h)"

definition ServeHTTP :: "'db conn \<Rightarrow> faults \<Rightarrow> upstream \<Rightarrow> (http_request \<Rightarrow> identity res) \<Rightarrow> serve_env \<Rightarrow> http_request \<Rightarrow>
    'db handler \<Rightarrow> (outcome \<times> client \<times> 'db handler) \<times> out_request list" where
  "ServeHTTP q fault up resolve env r h0 =
     (let h = set_diagnostic reset_diagnostics h0; w = new_client; compaction = is_compact r h in
      if rMethod r \<noteq> ''POST'' \<or> (rPath r \<noteq> ''/responses'' \<and> \<not> compaction) \<or> rRawQuery r \<noteq> []
      then (refuse fault 404 ''unsupported_route'' w h, [])
      else if rUpgrade r \<noteq> [] then (refuse fault 400 ''unsupported_transport'' w h, [])
      else if ctx_entry env then (refuse fault 408 ''request_canceled'' w h, [])
      else if ctx_resolved env then (refuse fault 408 ''request_canceled'' w h, [])
      else case resolve r of
        Inl e \<Rightarrow> (case identityRejection (Some e) of (status, code) \<Rightarrow> (refuse fault status code w h, []))
      | Inr i \<Rightarrow>
          if iSession i = [] \<or> iToken i = []
          then (case identityRejection None of (status, code) \<Rightarrow> (refuse fault status code w h, []))
          else case handler_begin (iSession i) h of
            (False, h1) \<Rightarrow> (refuse fault 409 ''session_requires_user_action'' w h1, [])
          | (True, h1) \<Rightarrow>
              (case serve_session q fault up env i compaction (rBody r) w h1 of
                 ((r1, w1, h2), sent) \<Rightarrow> ((r1, w1, handler_finish (iSession i) (r1 \<noteq> Returned True) h2), sent)))"

section \<open>Construction\<close>

text \<open>A parsed URL as the constructor looks at it; \<open>None\<close> when it does not parse.\<close>

record parsed_url =
  uScheme :: string
  uHost :: string
  uHasUser :: bool
  uRawQuery :: string
  uFragment :: string
  uLoopback :: bool

definition zero_diagnostics :: diagnostics where
  "zero_diagnostics = \<lparr>UsageLimit = False, Requests = 0, Attempts = 0, dStatus = 0, Rejection = [],
     ResponseFailure = [], ResponseFormat = [], CompletionRejection = [], CompletionSeen = False,
     CompletionCommitted = False\<rparr>"

definition proxy_New :: "string \<Rightarrow> parsed_url option \<Rightarrow> bool \<Rightarrow> 'db handler res" where
  "proxy_New target_url parsed has_resolver =
     (case parsed of
        None \<Rightarrow> Inl (EOther ''invalid_proxy_configuration'')
      | Some u \<Rightarrow>
          if uHost u = [] \<or> uHasUser u \<or> uRawQuery u \<noteq> [] \<or> uFragment u \<noteq> [] \<or> \<not> has_resolver
          then Inl (EOther ''invalid_proxy_configuration'')
          else if uScheme u \<noteq> ''https'' \<and> \<not> (uScheme u = ''http'' \<and> uLoopback u)
          then Inl (EOther ''https_required'')
          else Inr \<lparr>DeferUsageLimit = False, BeforeAttempt = None, ValidateCompaction = None, hTarget = target_url,
                    busy = {}, blocked = {}, hstore = None, diagnostic = zero_diagnostics\<rparr>)"

definition proxy_NewPersistent :: "string \<Rightarrow> parsed_url option \<Rightarrow> bool \<Rightarrow> 'db store option \<Rightarrow> 'db handler res" where
  "proxy_NewPersistent target_url parsed has_resolver store =
     (case store of
        None \<Rightarrow> Inl (EOther ''persistent_store_required'')
      | Some s \<Rightarrow> bind_r (proxy_New target_url parsed has_resolver) (\<lambda>h. Inr (h\<lparr>hstore := Some s\<rparr>)))"

end
