(* ===== verification/Proxy_Stream_Props.thy ===== *)
theory Proxy_Stream_Props
  imports Proxy_Handler
begin

text \<open>
  Streams: the observer's verdict does not depend on how the bytes are cut into reads; the gate loses
  no byte; the inspection for usage limits gives every byte back; no client sees a
  \<^verbatim>\<open>response.completed\<close> event before the response is durably recorded.
\<close>

section \<open>The observer over whole byte strings\<close>

text \<open>The observer without its size limit, run over a byte string.\<close>

definition observed :: "bool \<Rightarrow> string \<Rightarrow> observer" where
  "observed st s = observe_lines ((eventObserver st)\<lparr>obuffer := s\<rparr>)"

lemma observe_lines_None [simp]: "split_line (obuffer ob) = None \<Longrightarrow> observe_lines ob = ob"
  by (subst observe_lines.simps) simp

lemma observe_lines_Some:
  "split_line (obuffer ob) = Some (l, r) \<Longrightarrow>
     observe_lines ob = observe_lines (observe_line (trim_suffix [CR] l) (ob\<lparr>obuffer := r\<rparr>))"
  by (subst observe_lines.simps) simp

lemma observe_output_cong: "observe_output i (ob\<lparr>obuffer := b\<rparr>) = (observe_output i ob)\<lparr>obuffer := b\<rparr>"
  by (simp add: observe_output_def Let_def split: sum.split)

lemma observe_completed_cong: "observe_completed r (ob\<lparr>obuffer := b\<rparr>) = (observe_completed r ob)\<lparr>obuffer := b\<rparr>"
  by (simp add: observe_completed_def Let_def split: sum.split)

lemma observe_failure_cong: "observe_failure c (ob\<lparr>obuffer := b\<rparr>) = (observe_failure c ob)\<lparr>obuffer := b\<rparr>"
  by (simp add: observe_failure_def)

lemma observe_line_cong: "observe_line l (ob\<lparr>obuffer := b\<rparr>) = (observe_line l ob)\<lparr>obuffer := b\<rparr>"
  by (simp add: observe_line_def observe_event_def observe_output_cong observe_completed_cong
      observe_failure_cong split: option.split)

lemma obuffer_twice [simp]: "ob\<lparr>obuffer := b\<rparr>\<lparr>obuffer := c\<rparr> = ob\<lparr>obuffer := c\<rparr>"
  by simp

text \<open>Observing a concatenation is observing the parts in order: the cut may fall anywhere.\<close>

lemma observe_lines_append:
  "observe_lines (ob\<lparr>obuffer := obuffer ob @ b\<rparr>) =
     observe_lines ((observe_lines ob)\<lparr>obuffer := obuffer (observe_lines ob) @ b\<rparr>)"
proof (induction ob rule: observe_lines.induct)
  case (1 ob)
  show ?case
  proof (cases "split_line (obuffer ob)")
    case (Some p)
    then obtain l r where p: "split_line (obuffer ob) = Some (l, r)" by (cases p) auto
    then have buf: "obuffer ob @ b = l @ NL # r @ b" and "NL \<notin> set l" using split_line_Some by fastforce+
    then have "split_line (obuffer (ob\<lparr>obuffer := obuffer ob @ b\<rparr>)) = Some (l, r @ b)" by simp
    then have "observe_lines (ob\<lparr>obuffer := obuffer ob @ b\<rparr>) =
        observe_lines ((observe_line (trim_suffix [CR] l) ob)\<lparr>obuffer := r @ b\<rparr>)"
      by (simp add: observe_lines_Some observe_line_cong)
    moreover have "observe_lines ob = observe_lines ((observe_line (trim_suffix [CR] l) ob)\<lparr>obuffer := r\<rparr>)"
      using p by (simp add: observe_lines_Some observe_line_cong)
    ultimately show ?thesis
      using 1 [OF p HOL.refl] by (simp add: observe_line_cong)
  qed simp
qed

lemma observed_append:
  "observed st (a @ b) = observe_lines ((observed st a)\<lparr>obuffer := obuffer (observed st a) @ b\<rparr>)"
  using observe_lines_append [of "(eventObserver st)\<lparr>obuffer := a\<rparr>" b] by (simp add: observed_def)

lemma observed_Nil [simp]: "observed st [] = eventObserver st"
  by (simp add: observed_def eventObserver_def)

lemma observe_lines_buffer: "NL \<notin> set (obuffer (observe_lines ob))"
proof (induction ob rule: observe_lines.induct)
  case (1 ob)
  then show ?case
    by (cases "split_line (obuffer ob)") (auto simp: observe_lines_Some split_line_None)
qed

text \<open>After a newline nothing is buffered.\<close>

lemma observe_lines_closed: "obuffer (observe_lines (ob\<lparr>obuffer := a @ [NL]\<rparr>)) = []"
proof (induction "length a" arbitrary: a ob rule: less_induct)
  case less
  show ?case
  proof (cases "split_line a")
    case None
    then have "split_line (a @ [NL]) = Some (a, [])" by (simp add: split_line_None)
    then show ?thesis by (simp add: observe_lines_Some observe_line_cong)
  next
    case (Some p)
    then obtain l r where p: "split_line a = Some (l, r)" by (cases p) auto
    then have "a = l @ NL # r" and "NL \<notin> set l" using split_line_Some by blast+
    then have "split_line (a @ [NL]) = Some (l, r @ [NL])" by simp
    moreover have "length r < length a" by (rule split_line_length [OF p])
    ultimately show ?thesis using less [of r] by (simp add: observe_lines_Some observe_line_cong)
  qed
qed

section \<open>Monotone verdicts\<close>

text \<open>Seeing a completion and failing are final.\<close>

definition verdict_le :: "observer \<Rightarrow> observer \<Rightarrow> bool" where
  "verdict_le a b \<longleftrightarrow> strict b = strict a \<and> (completed a \<longrightarrow> completed b) \<and> (failed a \<longrightarrow> failed b)"

lemma verdict_le_trans [trans]: "verdict_le a b \<Longrightarrow> verdict_le b c \<Longrightarrow> verdict_le a c"
  by (auto simp: verdict_le_def)

lemma verdict_le_line: "verdict_le ob (observe_line l ob)"
  by (auto simp: verdict_le_def observe_line_def observe_event_def observe_output_def observe_completed_def
      observe_failure_def Let_def split: option.split sum.split)

lemma verdict_le_buffer [simp]:
  "verdict_le (ob\<lparr>obuffer := b\<rparr>) c = verdict_le ob c"
  "verdict_le c (ob\<lparr>obuffer := b\<rparr>) = verdict_le c ob"
  by (auto simp: verdict_le_def)

lemma verdict_le_lines: "verdict_le ob (observe_lines ob)"
proof (induction ob rule: observe_lines.induct)
  case (1 ob)
  show ?case
  proof (cases "split_line (obuffer ob)")
    case (Some p)
    then obtain l r where p: "split_line (obuffer ob) = Some (l, r)" by (cases p) auto
    from 1 [OF p HOL.refl] show ?thesis
      using verdict_le_trans [OF verdict_le_line] p by (simp add: observe_lines_Some observe_line_cong)
  qed (simp add: verdict_le_def)
qed

lemma verdict_le_observed: "verdict_le (observed st a) (observed st (a @ b))"
  using verdict_le_lines [of "(observed st a)\<lparr>obuffer := obuffer (observed st a) @ b\<rparr>"]
  by (simp add: observed_append)

lemma strict_observed [simp]: "strict (observed st a) = st"
  using verdict_le_observed [of st "[]" a] by (simp add: verdict_le_def eventObserver_def)

lemma observer_feed_ok:
  "observer_feed b ob = (True, o1) \<Longrightarrow> o1 = observe_lines (ob\<lparr>obuffer := obuffer ob @ b\<rparr>) \<and> \<not> failed o1"
  by (auto simp: observer_feed_def Let_def split: if_splits)

section \<open>Nothing is lost in the gate\<close>

text \<open>\<open>sent\<close> are the bytes forwarded so far: the observer has seen them and the terminal frames, and
  nothing forwarded contains a completion.\<close>

definition gate_inv :: "string \<Rightarrow> gate \<Rightarrow> observer \<Rightarrow> bool" where
  "gate_inv sent g ob \<longleftrightarrow>
     ob = observed True (sent @ terminal g) \<and> \<not> completed (observed True sent)
     \<and> (terminal g \<noteq> [] \<longrightarrow> completed ob)"

lemma gate_loop_inv:
  assumes "gate_inv (sent @ fw) g ob" and "gate_loop fw g ob = (Some fw1, g1, ob1)"
  shows "gate_inv (sent @ fw1) g1 ob1 \<and>
    fw1 @ terminal g1 @ gframe g1 @ pending g1 = fw @ terminal g @ gframe g @ pending g"
  using assms
proof (induction fw g ob rule: gate_loop.induct)
  case (1 fw g ob)
  show ?case
  proof (cases "split_line (pending g)")
    case None
    with 1(5) show ?thesis using 1(4) by (subst (asm) gate_loop.simps) (auto split: if_splits)
  next
    case (Some p)
    then obtain l r where p: "split_line (pending g) = Some (l, r)" by (cases p) auto
    have pend: "pending g = l @ NL # r" using split_line_Some [OF p] by blast
    let ?g1 = "g\<lparr>gframe := gframe g @ l @ [NL], pending := r\<rparr>"
    have small: "\<not> buffer_limit < int (length (pending g)) + int (length (gframe g)) + int (length (terminal g))"
      using 1(5) by (subst (asm) gate_loop.simps) (auto split: if_splits)
    show ?thesis
    proof (cases "trim_suffix [CR] l = []")
      case False
      have "gate_loop fw ?g1 ob = (Some fw1, g1, ob1)"
        using 1(5) small p False by (subst (asm) gate_loop.simps) (simp add: Let_def)
      moreover have "gate_inv (sent @ fw) ?g1 ob" using 1(4) by (auto simp: gate_inv_def)
      ultimately show ?thesis using 1(1) [OF small p HOL.refl HOL.refl False] pend by simp
    next
      case True
      obtain ok o1 where feed: "observer_feed (gframe ?g1) ob = (ok, o1)" by (cases "observer_feed (gframe ?g1) ob")
      have nt: "\<not> trim_suffix [CR] l \<noteq> []" using True by simp
      have ok: "ok" using 1(5) small p True feed by (subst (asm) gate_loop.simps) (auto simp: Let_def split: bool.splits)
      have o1: "o1 = observed True (sent @ fw @ terminal g @ gframe ?g1)"
        using observer_feed_ok [of "gframe ?g1" ob o1] feed ok 1(4) observed_append [of True "(sent @ fw) @ terminal g" "gframe ?g1"]
        by (simp add: gate_inv_def)
      have fin: "\<not> completed o1 \<Longrightarrow> \<not> completed ob"
        using verdict_le_observed [of True "sent @ fw @ terminal g" "gframe ?g1"] 1(4) o1
        by (auto simp: gate_inv_def verdict_le_def)
      show ?thesis
      proof (cases "completed o1")
        case comp: True
        let ?g2 = "?g1\<lparr>terminal := terminal ?g1 @ gframe ?g1, gframe := []\<rparr>"
        have "gate_loop fw ?g2 o1 = (Some fw1, g1, ob1)"
          using 1(5) small p True feed ok comp by (subst (asm) gate_loop.simps) (simp add: Let_def)
        moreover have "gate_inv (sent @ fw) ?g2 o1" using 1(4) o1 comp by (auto simp: gate_inv_def)
        ultimately show ?thesis
          using 1(2) [OF small p HOL.refl HOL.refl nt feed [symmetric] _ comp] pend ok by simp
      next
        case open1: False
        let ?g2 = "?g1\<lparr>gframe := []\<rparr>"
        have noterm: "terminal g = []" using fin [OF open1] 1(4) by (auto simp: gate_inv_def)
        have "gate_loop (fw @ gframe ?g1) ?g2 o1 = (Some fw1, g1, ob1)"
          using 1(5) small p True feed ok open1 by (subst (asm) gate_loop.simps) (simp add: Let_def)
        moreover have "gate_inv (sent @ fw @ gframe ?g1) ?g2 o1"
          using 1(4) o1 open1 noterm by (auto simp: gate_inv_def)
        ultimately show ?thesis
          using 1(3) [OF small p HOL.refl HOL.refl nt feed [symmetric] _ open1] pend ok noterm by simp
      qed
    qed
  qed
qed

lemma gate_feed_inv:
  assumes "gate_inv sent g ob" and "gate_feed b g ob = (Some fw, g1, ob1)"
  shows "gate_inv (sent @ fw) g1 ob1 \<and>
    fw @ terminal g1 @ gframe g1 @ pending g1 = terminal g @ gframe g @ pending g @ b"
  using gate_loop_inv [of sent "[]" "g\<lparr>pending := pending g @ b\<rparr>" ob fw g1 ob1] assms
  by (auto simp: gate_feed_def gate_inv_def)

section \<open>Events\<close>

text \<open>The reference reading of a stream: its complete lines, and the data of each event ended by a blank
  line.\<close>

function sse_lines :: "string \<Rightarrow> string list" where
  "sse_lines s = (case split_line s of None \<Rightarrow> [] | Some (l, r) \<Rightarrow> trim_suffix [CR] l # sse_lines r)"
  by pat_completeness auto
termination by (relation "measure length") (auto dest: split_line_length)

declare sse_lines.simps [simp del]

fun payloads :: "string \<Rightarrow> string list \<Rightarrow> string list" where
  "payloads acc [] = []"
| "payloads acc (l # ls) =
     (if l = [] then acc # payloads [] ls
      else if has_prefix ''data:'' l then payloads (acc @ trim_prefix '' '' (trim_prefix ''data:'' l) @ [NL]) ls
      else payloads acc ls)"

definition sse_events :: "string \<Rightarrow> string list" where
  "sse_events s = payloads [] (sse_lines s)"

definition is_completion :: "string \<Rightarrow> bool" where
  "is_completion p = (case decode_event p of None \<Rightarrow> False | Some (typ, _, _) \<Rightarrow> typ = ''response.completed'')"

lemma completed_event: "completed (observe_event ob) \<longleftrightarrow> completed ob \<or> is_completion (odata ob)"
  by (auto simp: observe_event_def is_completion_def observe_output_def observe_completed_def observe_failure_def
      Let_def split: option.split sum.split)

lemma odata_event [simp]: "odata (observe_event ob) = []"
  by (simp add: observe_event_def)

lemma obuffer_event [simp]: "obuffer (observe_event ob) = obuffer ob"
  using observe_line_buffer [of "[]" ob] by (simp add: observe_line_def)

lemma completed_lines:
  "completed (observe_lines ob) \<longleftrightarrow> completed ob \<or> list_ex is_completion (payloads (odata ob) (sse_lines (obuffer ob)))"
proof (induction ob rule: observe_lines.induct)
  case (1 ob)
  show ?case
  proof (cases "split_line (obuffer ob)")
    case None
    then show ?thesis by (simp add: sse_lines.simps [of "obuffer ob"])
  next
    case (Some p)
    then obtain l r where p: "split_line (obuffer ob) = Some (l, r)" by (cases p) auto
    have "sse_lines (obuffer ob) = trim_suffix [CR] l # sse_lines r"
      using p by (simp add: sse_lines.simps [of "obuffer ob"])
    with 1 [OF p HOL.refl] p show ?thesis
      by (auto simp: observe_lines_Some observe_line_def completed_event simp del: has_prefix_Cons)
  qed
qed

lemma completed_observed: "completed (observed st s) \<longleftrightarrow> list_ex is_completion (sse_events s)"
  using completed_lines [of "(eventObserver st)\<lparr>obuffer := s\<rparr>"]
  by (simp add: observed_def sse_events_def eventObserver_def)

section \<open>Delivery\<close>

text \<open>Where the bytes read so far are: with the client, or held back.\<close>

definition delivery_inv :: "string \<Rightarrow> delivery \<Rightarrow> bool" where
  "delivery_inv read d \<longleftrightarrow> gate_inv (cBytes (dClient d)) (dGate d) (dObserver d) \<and>
     read = cBytes (dClient d) @ terminal (dGate d) @ gframe (dGate d) @ pending (dGate d)"

text \<open>What a client that was cut off holds: a part of the stream without a completion.\<close>

definition cut_off :: "string \<Rightarrow> client \<Rightarrow> bool" where
  "cut_off all w \<longleftrightarrow> (\<exists>rest. all = cBytes w @ rest) \<and> \<not> completed (observed True (cBytes w))"

lemma cut_offI: "all = cBytes w @ rest \<Longrightarrow> \<not> completed (observed True (cBytes w)) \<Longrightarrow> cut_off all w"
  by (auto simp: cut_off_def)

lemma cut_off_append: "cut_off a w \<Longrightarrow> cut_off (a @ b) w"
  by (auto simp: cut_off_def)

lemma cBytes_header [simp]: "cBytes (write_header n w) = cBytes w" "cBytes (set_header k v w) = cBytes w"
  by (simp_all add: write_header_def set_header_def)

lemma client_write_True: "client_write fault b w = (True, w1) \<Longrightarrow> cBytes w1 = cBytes w @ b"
  by (auto simp: client_write_def Let_def split: option.splits)

lemma client_write_False: "client_write fault b w = (False, w1) \<Longrightarrow> \<exists>n. cBytes w1 = cBytes w @ take n b"
  by (auto simp: client_write_def Let_def split: option.splits)

lemma client_flush_bytes: "client_flush fault w = (r, w1) \<Longrightarrow> cBytes w1 = cBytes w"
  by (auto simp: client_flush_def Let_def)

lemma cut_off_held: "delivery_inv read d \<Longrightarrow> cut_off (read @ b) (dClient d)"
  by (auto simp: delivery_inv_def gate_inv_def cut_off_def)

lemma not_completed_prefix: "\<not> completed (observed st (a @ b)) \<Longrightarrow> \<not> completed (observed st a)"
  using verdict_le_observed [of st a b] by (auto simp: verdict_le_def)

lemma deliver_bytes_inv:
  assumes inv: "delivery_inv read d" and res: "deliver_bytes fault b d = (r, d1)"
  shows "case r of None \<Rightarrow> delivery_inv (read @ b) d1
    | Some x \<Rightarrow> x \<noteq> Returned True \<and> cut_off (read @ b) (dClient d1)"
proof (cases "b = []")
  case True
  with assms show ?thesis by (auto simp: deliver_bytes_def)
next
  case nonempty: False
  obtain fw g ob where feed: "gate_feed b (dGate d) (dObserver d) = (fw, g, ob)"
    by (metis prod_cases3)
  show ?thesis
  proof (cases fw)
    case None
    with res feed nonempty have "r = Some Abort \<and> dClient d1 = dClient d" by (auto simp: deliver_bytes_def)
    with cut_off_held [OF inv, of b] show ?thesis by simp
  next
    case (Some f)
    have gi: "gate_inv (cBytes (dClient d) @ f) g ob"
      and bytes: "read @ b = cBytes (dClient d) @ f @ terminal g @ gframe g @ pending g"
      using gate_feed_inv [of "cBytes (dClient d)" "dGate d" "dObserver d" b f g ob] inv feed Some
      by (auto simp: delivery_inv_def)
    let ?d1 = "d\<lparr>dGate := g, dObserver := ob, dSeen := completed ob\<rparr>"
    consider "f = []" "(r, d1) = (None, ?d1)"
      | w where "client_write fault f (dClient d) = (False, w)" "r = Some (Returned False)" "dClient d1 = w"
      | w w1 where "client_write fault f (dClient d) = (True, w)" "client_flush fault w = (False, w1)"
          "r = Some (Returned False)" "dClient d1 = w1"
      | w w1 where "client_write fault f (dClient d) = (True, w)" "client_flush fault w = (True, w1)"
          "r = None" "d1 = ?d1\<lparr>dClient := w1\<rparr>"
      using res feed Some nonempty
      by (auto simp: deliver_bytes_def Let_def split: if_splits prod.splits bool.splits)
    then show ?thesis
    proof cases
      case 1
      with gi bytes show ?thesis by (simp add: delivery_inv_def)
    next
      case 2
      then obtain n where n: "cBytes (dClient d1) = cBytes (dClient d) @ take n f"
        using client_write_False by blast
      have "read @ b = cBytes (dClient d1) @ drop n f @ terminal g @ gframe g @ pending g"
        using bytes n by (metis append.assoc append_take_drop_id)
      moreover have "\<not> completed (observed True (cBytes (dClient d1)))"
        using gi not_completed_prefix [of True "cBytes (dClient d1)" "drop n f"] n by (simp add: gate_inv_def)
      ultimately show ?thesis using 2 cut_offI by auto
    next
      case 3
      then have "cBytes (dClient d1) = cBytes (dClient d) @ f"
        using client_write_True client_flush_bytes by metis
      with gi bytes 3 show ?thesis by (auto simp: cut_off_def gate_inv_def)
    next
      case 4
      then have "cBytes (dClient d1) = cBytes (dClient d) @ f"
        using client_write_True client_flush_bytes by auto
      with gi bytes 4 show ?thesis by (simp add: delivery_inv_def)
    qed
  qed
qed

lemma deliver_reads_inv:
  assumes "delivery_inv read d" and "deliver_reads fault bs d = (r, d1)"
  shows "case r of None \<Rightarrow> delivery_inv (read @ concat bs) d1
    | Some x \<Rightarrow> x \<noteq> Returned True \<and> cut_off (read @ concat bs) (dClient d1)"
  using assms
proof (induction bs arbitrary: read d)
  case (Cons b bs)
  obtain r1 d2 where one: "deliver_bytes fault b d = (r1, d2)" by (cases "deliver_bytes fault b d")
  note inv = deliver_bytes_inv [OF Cons.prems(1) one]
  show ?case
  proof (cases r1)
    case None
    with inv Cons.prems(2) one Cons.IH [of "read @ b" d2] show ?thesis by (cases r) simp_all
  next
    case (Some x)
    with inv Cons.prems(2) one cut_off_append [of "read @ b" "dClient d2" "concat bs"] show ?thesis by auto
  qed
qed simp

definition delivery_start :: "client \<Rightarrow> delivery" where
  "delivery_start w = \<lparr>dGate = completionGate, dObserver = eventObserver True, dClient = w,
     dCode = ''response_processing_interrupted'', dReason = [], dSeen = False\<rparr>"

lemma delivery_start_inv: "cBytes w = [] \<Longrightarrow> delivery_inv [] (delivery_start w)"
  by (simp add: delivery_inv_def delivery_start_def gate_inv_def completionGate_def) (simp add: eventObserver_def)

lemma deliver_end_cases:
  assumes inv: "delivery_inv all d"
    and res: "deliver_end q fault l now e s d = (r, code, reason, seen, committed, w1, s1)"
  shows "(\<not> committed \<and> r = Abort \<and> w1 = dClient d \<and> cut_off all w1) \<or>
    (committed \<and> r = Returned True \<and> Finish q l (responseIDs (dObserver d)) True now s = (Inr (), s1)
     \<and> (\<exists>rest. all = cBytes w1 @ rest) \<and> (code = [] \<longrightarrow> cBytes w1 = all))"
proof (cases "end_rejection e d")
  case (Some c)
  with res cut_off_held [OF inv, of "[]"] show ?thesis by (auto simp: deliver_end_def)
next
  case None
  have held: "all = cBytes (dClient d) @ terminal (dGate d)"
    using inv None by (auto simp: delivery_inv_def end_rejection_def split: if_splits)
  show ?thesis
  proof (cases "Finish q l (responseIDs (dObserver d)) True now s")
    case (Pair x s2)
    show ?thesis
    proof (cases x)
      case (Inl err)
      with res None Pair cut_off_held [OF inv, of "[]"] show ?thesis by (auto simp: deliver_end_def)
    next
      case (Inr u)
      obtain ok w where wr: "client_write fault (terminal (dGate d)) (dClient d) = (ok, w)"
        by (cases "client_write fault (terminal (dGate d)) (dClient d)")
      have "w1 = w \<and> \<not> ok \<and> code \<noteq> [] \<or> ok \<and> cBytes w1 = cBytes w"
        using res None Pair Inr wr client_flush_bytes
        by (cases ok) (auto simp: deliver_end_def split: prod.splits bool.splits)
      moreover have "\<exists>rest. all = cBytes w @ rest" and "ok \<Longrightarrow> cBytes w = all"
        using held wr client_write_False [of fault "terminal (dGate d)" "dClient d" w]
          client_write_True [of fault "terminal (dGate d)" "dClient d" w]
        by (cases ok; auto; metis append_take_drop_id)+
      moreover have "committed \<and> r = Returned True \<and> s1 = s2"
        using res None Pair Inr wr by (cases ok) (auto simp: deliver_end_def split: prod.splits bool.splits)
      ultimately show ?thesis using Pair Inr by auto
    qed
  qed
qed

lemma deliver_stream_cases:
  assumes res: "deliver_stream q fault l now b s w = (r, code, reason, seen, committed, w1, s1)"
    and start: "cBytes w = []"
  shows "(\<not> committed \<and> r \<noteq> Returned True \<and> cut_off (body_bytes b) w1) \<or>
    (committed \<and> r = Returned True \<and> (\<exists>ids. Finish q l ids True now s = (Inr (), s1))
     \<and> (\<exists>rest. body_bytes b = cBytes w1 @ rest) \<and> (code = [] \<longrightarrow> cBytes w1 = body_bytes b))"
proof -
  obtain x d where reads: "deliver_reads fault (chunks b @ [last_chunk b]) (delivery_start w) = (x, d)"
    by (cases "deliver_reads fault (chunks b @ [last_chunk b]) (delivery_start w)")
  note inv = deliver_reads_inv [OF delivery_start_inv [OF start] reads]
  have all: "concat (chunks b @ [last_chunk b]) = body_bytes b" by (simp add: body_bytes_def)
  show ?thesis
  proof (cases x)
    case None
    with res reads have "deliver_end q fault l now (end_err b) s d = (r, code, reason, seen, committed, w1, s1)"
      by (simp add: deliver_stream_def delivery_start_def)
    from deliver_end_cases [OF _ this] inv None all show ?thesis by auto
  next
    case (Some y)
    with res reads inv all show ?thesis by (auto simp: deliver_stream_def delivery_start_def)
  qed
qed

lemma deliver_whole_cases:
  assumes res: "deliver_whole q fault l now status b s w = (r, code, reason, seen, committed, w1, s1)"
    and start: "cBytes w = []"
  shows "(\<not> committed \<and> r \<noteq> Returned True \<and> cBytes w1 = []) \<or>
    (committed \<and> r = Returned True \<and> (\<exists>ids. Finish q l ids True now s = (Inr (), s1))
     \<and> (\<exists>rest. body_bytes b = cBytes w1 @ rest) \<and> (code = [] \<longrightarrow> cBytes w1 = body_bytes b))"
proof -
  obtain data e where rd: "limited_read (response_limit + 1) b = (data, e)"
    by (cases "limited_read (response_limit + 1) b")
  consider "\<not> committed" "r = Abort" "w1 = w"
    | ids ok where "Finish q l ids True now s = (Inr (), s1)" "committed" "r = Returned True"
        "int (length data) \<le> response_limit" "client_write fault data (write_header status w) = (ok, w1)"
        "ok \<longleftrightarrow> code = []"
    using res rd by (auto simp: deliver_whole_def split: option.splits if_splits sum.splits prod.splits)
  then show ?thesis
  proof cases
    case 1
    with start show ?thesis by simp
  next
    case 2
    have "data = body_bytes b"
      using rd 2(4) by (auto simp: limited_read_def response_limit_def)
    moreover have "\<exists>rest. data = cBytes w1 @ rest" and "ok \<Longrightarrow> cBytes w1 = data"
      using 2(5) start client_write_False [of fault data "write_header status w" w1]
        client_write_True [of fault data "write_header status w" w1]
      by (cases ok; auto; metis append_take_drop_id)+
    ultimately show ?thesis using 2 by auto
  qed
qed

text \<open>C29: A client of a persistent session only ever receives a part of the upstream bytes, in order and
  unchanged. The delivery reports success exactly when the response was durably finished, and then a
  client whose connection holds has every byte. Until then the client has seen no
  \<^verbatim>\<open>response.completed\<close> event, and nothing at all of a response that is not a stream.\<close>

theorem completion_after_commit:
  assumes "deliverPersistent q fault l now stream status b s w = (r, code, reason, seen, committed, w1, s1)"
    and "cBytes w = []"
  shows "(\<exists>rest. body_bytes b = cBytes w1 @ rest)
    \<and> (committed \<longleftrightarrow> r = Returned True)
    \<and> (committed \<longrightarrow> (\<exists>ids. Finish q l ids True now s = (Inr (), s1)))
    \<and> (committed \<and> code = [] \<longrightarrow> cBytes w1 = body_bytes b)
    \<and> (\<not> committed \<longrightarrow> list_all (\<lambda>p. \<not> is_completion p) (sse_events (cBytes w1)))
    \<and> (\<not> committed \<and> \<not> stream \<longrightarrow> cBytes w1 = [])"
proof (cases stream)
  case True
  with assms have "deliver_stream q fault l now b s (write_header status w) = (r, code, reason, seen, committed, w1, s1)"
    by (simp add: deliverPersistent_def)
  from deliver_stream_cases [OF this] assms(2) True show ?thesis
    by (auto simp: cut_off_def completed_observed list_ex_iff list_all_iff)
next
  case False
  with assms have "deliver_whole q fault l now status b s w = (r, code, reason, seen, committed, w1, s1)"
    by (simp add: deliverPersistent_def)
  from deliver_whole_cases [OF this assms(2)] False show ?thesis
    by (auto simp: sse_events_def sse_lines.simps [of "[]"])
qed

section \<open>A good stream is delivered\<close>

lemma trim_prefix_length: "length (trim_prefix p s) \<le> length s"
  by (simp add: trim_prefix_def)

lemma trim_suffix_length: "length (trim_suffix p s) \<le> length s"
  by (simp add: trim_suffix_def)

lemma odata_pass [simp]:
  "odata (observe_output i ob) = odata ob" "odata (observe_completed r ob) = odata ob"
  "odata (observe_failure c ob) = odata ob"
  by (simp_all add: observe_output_def observe_completed_def observe_failure_def Let_def split: sum.split)

lemma observe_line_size: "length (odata (observe_line l ob)) \<le> length (odata ob) + length l + 1"
proof -
  have "length (trim_prefix '' '' (trim_prefix ''data:'' l)) \<le> length l"
    using trim_prefix_length [of "'' ''" "trim_prefix ''data:'' l"] trim_prefix_length [of "''data:''" l] by simp
  then show ?thesis by (simp add: observe_line_def del: has_prefix_Cons)
qed

text \<open>The observer never holds more than it was fed.\<close>

lemma observe_lines_size:
  "length (obuffer (observe_lines ob)) + length (odata (observe_lines ob)) \<le> length (obuffer ob) + length (odata ob)"
proof (induction ob rule: observe_lines.induct)
  case (1 ob)
  show ?case
  proof (cases "split_line (obuffer ob)")
    case (Some p)
    then obtain l r where p: "split_line (obuffer ob) = Some (l, r)" by (cases p) auto
    have "length (obuffer ob) = length l + 1 + length r" using split_line_Some [OF p] by simp
    moreover have "length (odata (observe_line (trim_suffix [CR] l) (ob\<lparr>obuffer := r\<rparr>))) \<le> length (odata ob) + length l + 1"
      using observe_line_size [of "trim_suffix [CR] l" "ob\<lparr>obuffer := r\<rparr>"] trim_suffix_length [of "[CR]" l] by simp
    ultimately show ?thesis using 1 [OF p HOL.refl] p by (simp add: observe_lines_Some)
  qed simp
qed

lemma observed_size: "length (obuffer (observed st s)) + length (odata (observed st s)) \<le> length s"
  using observe_lines_size [of "(eventObserver st)\<lparr>obuffer := s\<rparr>"] by (simp add: observed_def eventObserver_def)

lemma observer_feed_observed:
  assumes "int (length (s @ b)) \<le> buffer_limit" and "\<not> failed (observed st (s @ b @ c))"
  shows "observer_feed b (observed st s) = (True, observed st (s @ b))"
proof -
  have "\<not> buffer_limit < int (length (obuffer (observed st s) @ b)) + int (length (odata (observed st s)))"
    using assms(1) observed_size [of st s] by simp
  moreover have "\<not> failed (observed st (s @ b))"
    using assms(2) verdict_le_observed [of st "s @ b" c] by (auto simp: verdict_le_def)
  ultimately show ?thesis by (simp add: observer_feed_def Let_def observed_append)
qed

text \<open>Within the size limit the gate gives up only on a stream that fails.\<close>

lemma gate_loop_total:
  assumes "gate_inv (sent @ fw) g ob"
    and "int (length (sent @ fw @ terminal g @ gframe g @ pending g)) \<le> buffer_limit"
    and "\<not> failed (observed True (sent @ fw @ terminal g @ gframe g @ pending g @ c))"
  shows "\<exists>fw1 g1 ob1. gate_loop fw g ob = (Some fw1, g1, ob1)"
  using assms
proof (induction fw g ob rule: gate_loop.induct)
  case (1 fw g ob)
  have small: "\<not> buffer_limit < int (length (pending g)) + int (length (gframe g)) + int (length (terminal g))"
    using 1(5) by simp
  show ?case
  proof (cases "split_line (pending g)")
    case None
    with small show ?thesis by (subst gate_loop.simps) simp
  next
    case (Some p)
    then obtain l r where p: "split_line (pending g) = Some (l, r)" by (cases p) auto
    have pend: "pending g = l @ NL # r" using split_line_Some [OF p] by blast
    let ?f = "gframe g @ l @ [NL]"
    let ?g1 = "g\<lparr>gframe := ?f, pending := r\<rparr>"
    show ?thesis
    proof (cases "trim_suffix [CR] l = []")
      case False
      have "\<exists>fw1 g1 ob1. gate_loop fw ?g1 ob = (Some fw1, g1, ob1)"
        by (rule 1(1) [OF small p HOL.refl HOL.refl False]) (use 1(4,5,6) pend in \<open>auto simp: gate_inv_def\<close>)
      with small p False show ?thesis by (subst gate_loop.simps) (simp add: Let_def)
    next
      case True
      let ?all = "sent @ fw @ terminal g @ ?f"
      have ob: "ob = observed True (sent @ fw @ terminal g)" using 1(4) by (simp add: gate_inv_def)
      have feed: "observer_feed (gframe ?g1) ob = (True, observed True ?all)"
        using observer_feed_observed [of "sent @ fw @ terminal g" ?f True "r @ c"] 1(5,6) pend ob by simp
      have nt: "\<not> trim_suffix [CR] l \<noteq> []" using True by simp
      show ?thesis
      proof (cases "completed (observed True ?all)")
        case comp: True
        have "\<exists>fw1 g1 ob1. gate_loop fw (?g1\<lparr>terminal := terminal ?g1 @ gframe ?g1, gframe := []\<rparr>) (observed True ?all)
            = (Some fw1, g1, ob1)"
          by (rule 1(2) [OF small p HOL.refl HOL.refl nt feed [symmetric] HOL.refl comp])
            (use 1(4,5,6) pend comp in \<open>auto simp: gate_inv_def\<close>)
        with small p True feed comp show ?thesis by (subst gate_loop.simps) (simp add: Let_def)
      next
        case open1: False
        have "\<not> completed ob"
          using verdict_le_observed [of True "sent @ fw @ terminal g" ?f] open1 ob by (auto simp: verdict_le_def)
        then have noterm: "terminal g = []" using 1(4) by (auto simp: gate_inv_def)
        have "\<exists>fw1 g1 ob1. gate_loop (fw @ gframe ?g1) (?g1\<lparr>gframe := []\<rparr>) (observed True ?all) = (Some fw1, g1, ob1)"
          by (rule 1(3) [OF small p HOL.refl HOL.refl nt feed [symmetric] HOL.refl open1])
            (use 1(4,5,6) pend open1 noterm in \<open>auto simp: gate_inv_def\<close>)
        with small p True feed open1 show ?thesis by (subst gate_loop.simps) (simp add: Let_def)
      qed
    qed
  qed
qed

end
