(* ===== verification/Proxy_Delivery.thy ===== *)
theory Proxy_Delivery
  imports Proxy_Stream_Props Affinity_Ownership
begin

text \<open>
  Delivery, continued: a well-formed stream is delivered and recorded, however it is cut into reads, and
  the bounded inspection for usage limits loses no byte.
\<close>

section \<open>Frames end with blank lines\<close>

definition line_start :: "string \<Rightarrow> bool" where
  "line_start s \<longleftrightarrow> s = [] \<or> last s = NL"

definition blank_end :: "string \<Rightarrow> bool" where
  "blank_end s \<longleftrightarrow> s \<noteq> [] \<and> last s = NL \<and>
     (line_start (butlast s) \<or> last (butlast s) = CR \<and> line_start (butlast (butlast s)))"

text \<open>The frame being collected is empty or ends with a line that is not blank.\<close>

definition frame_inv :: "string \<Rightarrow> gate \<Rightarrow> bool" where
  "frame_inv sent g \<longleftrightarrow> line_start (sent @ terminal g) \<and>
     (gframe g = [] \<or> (\<exists>x l. gframe g = x @ l @ [NL] \<and> line_start (sent @ terminal g @ x) \<and> NL \<notin> set l
        \<and> trim_suffix [CR] l \<noteq> []))"

lemma line_start_newline [simp]: "line_start (a @ [NL])" "line_start (a @ b @ [NL])" "line_start (a @ b @ c @ [NL])"
    "line_start (a @ b @ c @ d @ [NL])"
  by (simp_all add: line_start_def)

lemma frame_inv_start: "frame_inv sent g \<Longrightarrow> line_start (sent @ terminal g @ gframe g)"
  by (auto simp: frame_inv_def line_start_def)

lemma gate_loop_frame:
  assumes "gate_inv (sent @ fw) g ob" and "frame_inv (sent @ fw) g" and "gate_loop fw g ob = (Some fw1, g1, ob1)"
  shows "frame_inv (sent @ fw1) g1 \<and> NL \<notin> set (pending g1)"
  using assms
proof (induction fw g ob rule: gate_loop.induct)
  case (1 fw g ob)
  have small: "\<not> buffer_limit < int (length (pending g)) + int (length (gframe g)) + int (length (terminal g))"
    using 1(6) by (subst (asm) gate_loop.simps) (auto split: if_splits)
  show ?case
  proof (cases "split_line (pending g)")
    case None
    with 1(5,6) small show ?thesis by (subst (asm) gate_loop.simps) (auto simp: split_line_None)
  next
    case (Some p)
    then obtain l r where p: "split_line (pending g) = Some (l, r)" by (cases p) auto
    have l: "NL \<notin> set l" using split_line_Some [OF p] by blast
    let ?f = "gframe g @ l @ [NL]"
    let ?g1 = "g\<lparr>gframe := ?f, pending := r\<rparr>"
    show ?thesis
    proof (cases "trim_suffix [CR] l = []")
      case False
      have "gate_loop fw ?g1 ob = (Some fw1, g1, ob1)"
        using 1(6) small p False by (subst (asm) gate_loop.simps) (simp add: Let_def)
      moreover have "frame_inv (sent @ fw) ?g1"
        using 1(5) frame_inv_start [OF 1(5)] l False by (auto simp: frame_inv_def)
      moreover have "gate_inv (sent @ fw) ?g1 ob" using 1(4) by (auto simp: gate_inv_def)
      ultimately show ?thesis using 1(1) [OF small p HOL.refl HOL.refl False] by blast
    next
      case True
      then have nt: "\<not> trim_suffix [CR] l \<noteq> []" by simp
      obtain ok o1 where feed: "observer_feed (gframe ?g1) ob = (ok, o1)" by (cases "observer_feed (gframe ?g1) ob")
      have ok: "ok" using 1(6) small p True feed by (subst (asm) gate_loop.simps) (auto simp: Let_def split: bool.splits)
      have o1: "o1 = observed True (sent @ fw @ terminal g @ ?f)"
        using observer_feed_ok [of ?f ob o1] feed ok 1(4) observed_append [of True "(sent @ fw) @ terminal g" ?f]
        by (simp add: gate_inv_def)
      show ?thesis
      proof (cases "completed o1")
        case comp: True
        let ?g2 = "?g1\<lparr>terminal := terminal ?g1 @ gframe ?g1, gframe := []\<rparr>"
        have "gate_loop fw ?g2 o1 = (Some fw1, g1, ob1)"
          using 1(6) small p True feed ok comp by (subst (asm) gate_loop.simps) (simp add: Let_def)
        moreover have "gate_inv (sent @ fw) ?g2 o1" using 1(4) o1 comp by (auto simp: gate_inv_def)
        moreover have "frame_inv (sent @ fw) ?g2" by (simp add: frame_inv_def line_start_def)
        ultimately show ?thesis using 1(2) [OF small p HOL.refl HOL.refl nt feed [symmetric] _ comp] ok by blast
      next
        case open1: False
        let ?g2 = "?g1\<lparr>gframe := []\<rparr>"
        have "\<not> completed ob"
          using verdict_le_observed [of True "sent @ fw @ terminal g" ?f] open1 o1 1(4)
          by (auto simp: verdict_le_def gate_inv_def)
        then have noterm: "terminal g = []" using 1(4) by (auto simp: gate_inv_def)
        have "gate_loop (fw @ gframe ?g1) ?g2 o1 = (Some fw1, g1, ob1)"
          using 1(6) small p True feed ok open1 by (subst (asm) gate_loop.simps) (simp add: Let_def)
        moreover have "gate_inv (sent @ fw @ gframe ?g1) ?g2 o1" using 1(4) o1 open1 noterm by (auto simp: gate_inv_def)
        moreover have "frame_inv (sent @ fw @ gframe ?g1) ?g2" using noterm by (simp add: frame_inv_def line_start_def)
        ultimately show ?thesis using 1(3) [OF small p HOL.refl HOL.refl nt feed [symmetric] _ open1] ok by blast
      qed
    qed
  qed
qed

text \<open>At a blank line nothing is held back but terminal frames.\<close>

lemma frame_inv_blank_end:
  assumes "frame_inv sent g" and "NL \<notin> set (pending g)" and "blank_end (sent @ terminal g @ gframe g @ pending g)"
  shows "gframe g = [] \<and> pending g = []"
proof -
  have pend: "pending g = []"
    using assms(2,3) by (cases "pending g" rule: rev_cases) (auto simp: blank_end_def)
  moreover have "gframe g = []"
  proof (rule ccontr)
    assume "gframe g \<noteq> []"
    then obtain x l where f: "gframe g = x @ l @ [NL]" and "NL \<notin> set l" and nb: "trim_suffix [CR] l \<noteq> []"
      using assms(1) by (auto simp: frame_inv_def)
    have "trim_suffix [CR] [] = []" by (simp add: trim_suffix_def)
    then have "l \<noteq> []" using nb by metis
    then obtain m c where l: "l = m @ [c]" by (cases l rule: rev_cases) auto
    have "c \<noteq> NL" using \<open>NL \<notin> set l\<close> l by auto
    then have "c = CR" and ms: "line_start (sent @ terminal g @ x @ m)"
      using assms(3) f l pend by (auto simp: blank_end_def line_start_def butlast_append)
    then have "m \<noteq> []" using nb l trim_suffix_append [of "[CR]" m] by auto
    then have "last m = NL" using ms by (auto simp: line_start_def)
    with \<open>m \<noteq> []\<close> \<open>NL \<notin> set l\<close> l show False by (metis UnI1 last_in_set set_append)
  qed
  ultimately show ?thesis by simp
qed

section \<open>The whole stream\<close>

definition no_faults :: faults where "no_faults = (\<lambda>_. None)"

definition good_delivery :: "string \<Rightarrow> delivery \<Rightarrow> bool" where
  "good_delivery read d \<longleftrightarrow> delivery_inv read d \<and> frame_inv (cBytes (dClient d)) (dGate d)
     \<and> NL \<notin> set (pending (dGate d)) \<and> dReason d = [] \<and> dSeen d = completed (dObserver d)"

lemma write_flush_ok:
  "\<exists>w1 w2. client_write no_faults b w = (True, w1) \<and> client_flush no_faults w1 = (True, w2) \<and> cBytes w2 = cBytes w @ b"
  by (simp add: client_write_def client_flush_def no_faults_def Let_def)

lemma deliver_bytes_good:
  assumes good: "good_delivery read d" and size: "int (length (read @ b)) \<le> buffer_limit"
    and sound: "\<not> failed (observed True (read @ b @ c))"
  shows "\<exists>d1. deliver_bytes no_faults b d = (None, d1) \<and> good_delivery (read @ b) d1"
proof (cases "b = []")
  case True
  with good show ?thesis by (simp add: deliver_bytes_def)
next
  case nonempty: False
  let ?sent = "cBytes (dClient d)"
  let ?g = "dGate d\<lparr>pending := pending (dGate d) @ b\<rparr>"
  have read: "read = ?sent @ terminal (dGate d) @ gframe (dGate d) @ pending (dGate d)"
    and gi: "gate_inv ?sent (dGate d) (dObserver d)" and fi: "frame_inv ?sent (dGate d)"
    using good by (simp_all add: good_delivery_def delivery_inv_def)
  have gi1: "gate_inv (?sent @ []) ?g (dObserver d)" using gi by (auto simp: gate_inv_def)
  have "\<exists>fw g ob. gate_loop [] ?g (dObserver d) = (Some fw, g, ob)"
    by (rule gate_loop_total [OF gi1, where c = c]) (use size sound read in auto)
  then obtain fw g ob where feed: "gate_feed b (dGate d) (dObserver d) = (Some fw, g, ob)"
    by (auto simp: gate_feed_def)
  have frame: "frame_inv (?sent @ fw) g \<and> NL \<notin> set (pending g)"
    by (rule gate_loop_frame [OF gi1]) (use fi feed in \<open>auto simp: gate_feed_def frame_inv_def\<close>)
  let ?d1 = "d\<lparr>dGate := g, dObserver := ob, dSeen := completed ob\<rparr>"
  obtain w1 w2 where out: "client_write no_faults fw (dClient d) = (True, w1)" "client_flush no_faults w1 = (True, w2)"
    "cBytes w2 = ?sent @ fw" using write_flush_ok [of fw "dClient d"] by blast
  have step: "deliver_bytes no_faults b d = (None, if fw = [] then ?d1 else ?d1\<lparr>dClient := w2\<rparr>)"
    using feed nonempty out by (simp add: deliver_bytes_def Let_def)
  have "delivery_inv (read @ b) (if fw = [] then ?d1 else ?d1\<lparr>dClient := w2\<rparr>)"
    using deliver_bytes_inv [OF _ step] good by (simp add: good_delivery_def)
  then show ?thesis
    using step frame good out by (auto simp: good_delivery_def)
qed

lemma deliver_reads_good:
  assumes "good_delivery read d" and "int (length (read @ concat bs)) \<le> buffer_limit"
    and "\<not> failed (observed True (read @ concat bs))"
  shows "\<exists>d1. deliver_reads no_faults bs d = (None, d1) \<and> good_delivery (read @ concat bs) d1"
  using assms
proof (induction bs arbitrary: read d)
  case (Cons b bs)
  obtain d1 where d1: "deliver_bytes no_faults b d = (None, d1)" "good_delivery (read @ b) d1"
    using deliver_bytes_good [of read d b "concat bs"] Cons.prems by auto
  then show ?case using Cons.IH [of "read @ b" d1] Cons.prems by auto
qed simp

section \<open>A completed response grants identifiers\<close>

lemma mergeResponseRefs_mono: "set (foldl (\<lambda>refs ref. if ref \<in> set refs then refs else refs @ [ref]) acc xs) = set acc \<union> set xs"
  by (induction xs arbitrary: acc) auto

lemma set_mergeResponseRefs: "set (mergeResponseRefs groups) = set (concat groups)"
  by (simp add: mergeResponseRefs_def mergeResponseRefs_mono)

lemma bind_r_Inr: "bind_r x f = Inr y \<longleftrightarrow> (\<exists>z. x = Inr z \<and> f z = Inr y)"
  by (cases x) (auto simp: bind_r_def)

lemma completedRefs_nonempty: "completedRefs data = Inr ids \<Longrightarrow> ids \<noteq> []"
  by (auto simp: completedRefs_def bind_r_Inr split: if_splits option.splits json.splits)

lemma merge_completed: "completedRefs data = Inr ids \<Longrightarrow> mergeResponseRefs (ids # gs) \<noteq> []"
  using set_mergeResponseRefs [of "ids # gs"] completedRefs_nonempty [of data ids] by auto

definition granted :: "observer \<Rightarrow> bool" where
  "granted ob \<longleftrightarrow> strict ob \<longrightarrow> completed ob \<longrightarrow> \<not> failed ob \<longrightarrow> responseIDs ob \<noteq> []"

lemma granted_completed: "granted ob \<Longrightarrow> granted (observe_completed r ob)"
  using merge_completed [of r]
  by (auto simp: granted_def observe_completed_def Let_def split: sum.split)

lemma granted_line: "granted ob \<Longrightarrow> granted (observe_line l ob)"
  using granted_completed [of ob]
  by (auto simp: granted_def observe_line_def observe_event_def observe_output_def observe_failure_def Let_def
      split: option.split sum.split)

lemma granted_lines: "granted ob \<Longrightarrow> granted (observe_lines ob)"
proof (induction ob rule: observe_lines.induct)
  case (1 ob)
  show ?case
  proof (cases "split_line (obuffer ob)")
    case (Some p)
    then obtain l r where p: "split_line (obuffer ob) = Some (l, r)" by (cases p) auto
    have "granted (ob\<lparr>obuffer := r\<rparr>)" using 1(2) by (simp add: granted_def)
    from 1(1) [OF p HOL.refl granted_line [OF this]] p show ?thesis by (simp add: observe_lines_Some)
  qed (use 1 in simp)
qed

lemma granted_observed: "granted (observed st s)"
  using granted_lines [of "(eventObserver st)\<lparr>obuffer := s\<rparr>"] by (simp add: observed_def granted_def eventObserver_def)

section \<open>Delivery completes\<close>

text \<open>C30: A stream of at most a megabyte that ends cleanly at a blank line, contains a completion and no
  failure is delivered byte for byte, however it is cut into reads, and recorded as finished with the
  identifiers the observer collected.\<close>

theorem stream_delivered:
  assumes "body_bytes b = all" and "end_err b = EOF" and "blank_end all" and "int (length all) \<le> buffer_limit"
    and "completed (observed True all)" and "\<not> failed (observed True all)"
    and "Finish q l (responseIDs (observed True all)) True now s = (Inr (), s1)" and "cBytes w = []"
  shows "\<exists>w1. deliver_stream q no_faults l now b s w = (Returned True, [], [], True, True, w1, s1) \<and> cBytes w1 = all"
proof -
  have bytes: "concat (chunks b @ [last_chunk b]) = all" using assms(1) by (simp add: body_bytes_def)
  have "good_delivery [] (delivery_start w)"
    using delivery_start_inv [OF assms(8)] assms(8)
    by (simp add: good_delivery_def delivery_start_def frame_inv_def line_start_def completionGate_def eventObserver_def)
  from deliver_reads_good [OF this, of "chunks b @ [last_chunk b]"] assms(4,6) bytes
  obtain d where reads: "deliver_reads no_faults (chunks b @ [last_chunk b]) (delivery_start w) = (None, d)"
    and good: "good_delivery all d" by auto
  have inv: "delivery_inv all d" and held: "gframe (dGate d) = [] \<and> pending (dGate d) = []"
    using good frame_inv_blank_end [of "cBytes (dClient d)" "dGate d"] assms(3)
    by (auto simp: good_delivery_def delivery_inv_def)
  have ob: "dObserver d = observed True all" and all: "all = cBytes (dClient d) @ terminal (dGate d)"
    using inv held by (auto simp: delivery_inv_def gate_inv_def)
  have "end_rejection (end_err b) d = None"
    using ob held assms(2,5,6) granted_observed [of True all] by (simp add: end_rejection_def granted_def)
  obtain w1 w2 where out: "client_write no_faults (terminal (dGate d)) (dClient d) = (True, w1)"
    "client_flush no_faults w1 = (True, w2)" "cBytes w2 = all"
    using write_flush_ok [of "terminal (dGate d)" "dClient d"] all by auto
  have "deliver_end q no_faults l now (end_err b) s d = (Returned True, [], dReason d, dSeen d, True, w2, s1)"
    using \<open>end_rejection (end_err b) d = None\<close> assms(7) ob out by (simp add: deliver_end_def)
  moreover have "dReason d = []" and "dSeen d" using good ob assms(5) by (simp_all add: good_delivery_def)
  ultimately show ?thesis
    using reads out by (simp add: deliver_stream_def delivery_start_def)
qed

section \<open>Samples\<close>

definition sample_stream :: string where
  "sample_stream = ''data:{\"type\":\"response.completed\",\"response\":{\"id\":\"r\",\"status\":\"completed\"}}'' @ [NL, NL]"

definition sample_body :: body where
  "sample_body = \<lparr>chunks = [take 7 sample_stream], last_chunk = drop 7 sample_stream, end_err = EOF\<rparr>"

definition summary :: "observer \<Rightarrow> bool \<times> bool \<times> string list" where
  "summary ob = (completed ob, failed ob, responseIDs ob)"

lemma sample_observed: "summary (observed True sample_stream) = (True, False, [''r''])"
  by code_simp

lemma begun_finishes: "fst (Finish pure_query begun_lease [''r''] True 2 (snd begun)) = Inr ()"
  by code_simp

theorem stream_delivered_witness:
  "\<exists>w1. deliver_stream pure_query no_faults begun_lease 2 sample_body (snd begun) new_client =
     (Returned True, [], [], True, True, w1, snd (Finish pure_query begun_lease [''r''] True 2 (snd begun)))
     \<and> cBytes w1 = sample_stream"
proof (rule stream_delivered)
  show "Finish pure_query begun_lease (responseIDs (observed True sample_stream)) True 2 (snd begun) =
      (Inr (), snd (Finish pure_query begun_lease [''r''] True 2 (snd begun)))"
    using sample_observed begun_finishes by (simp add: summary_def prod_eq_iff)
  show "body_bytes sample_body = sample_stream" by (simp add: sample_body_def body_bytes_def)
  show "blank_end sample_stream" and "int (length sample_stream) \<le> buffer_limit"
    by (simp_all add: sample_stream_def blank_end_def line_start_def buffer_limit_def)
qed (use sample_observed in \<open>simp_all add: sample_body_def summary_def new_client_def\<close>)

definition whole_body :: body where
  "whole_body = \<lparr>chunks = [], last_chunk = ''{\"id\":\"r\",\"status\":\"completed\"}'', end_err = EOF\<rparr>"

definition whole_result :: "pure_db delivered" where
  "whole_result = deliverPersistent pure_query no_faults begun_lease 2 False 200 whole_body (snd begun) new_client"

lemma whole_committed: "case whole_result of (r, code, reason, seen, committed, w1, s1) \<Rightarrow> committed \<and> code = []"
  by code_simp

theorem completion_after_commit_witness:
  "case whole_result of (r, code, reason, seen, committed, w1, s1) \<Rightarrow>
     committed \<and> r = Returned True \<and> cBytes w1 = body_bytes whole_body"
proof -
  obtain r code reason seen committed w1 s1 where
    res: "whole_result = (r, code, reason, seen, committed, w1, s1)" by (metis prod_cases7)
  have "cBytes new_client = []" by (simp add: new_client_def)
  from completion_after_commit [OF res [unfolded whole_result_def] this] whole_committed [unfolded res]
  show ?thesis unfolding res by simp
qed

section \<open>Inspection loses nothing\<close>

lemma scan_limit_bytes: "scan_limit rest consumed frame = (v, c, left) \<Longrightarrow> c @ left = consumed @ rest"
proof (induction rest consumed frame rule: scan_limit.induct)
  case (1 rest consumed frame)
  show ?case
  proof (cases "split_line rest")
    case None
    with 1(4) show ?thesis by (subst (asm) scan_limit.simps) simp
  next
    case (Some p)
    then obtain l r where p: "split_line rest = Some (l, r)" by (cases p) auto
    have rest: "rest = l @ NL # r" using split_line_Some [OF p] by blast
    note ih = 1(1-3) [OF p HOL.refl HOL.refl HOL.refl]
    show ?thesis
      using 1(4) p rest ih
      by (subst (asm) scan_limit.simps)
        (auto simp: Let_def simp del: has_prefix_Cons split: if_splits option.splits bind_splits)
  qed
qed

text \<open>C34: The inspection for an account usage limit gives back every byte it looked at, in order and with
  the same end of the body, whatever it concludes. It concludes a limit only from a 429 reply or a
  successful event stream.\<close>

theorem inspection_preserves_body:
  "body_bytes (snd (inspectUsageLimit status ct b)) = body_bytes b
   \<and> end_err (snd (inspectUsageLimit status ct b)) = end_err b
   \<and> (fst (inspectUsageLimit status ct b) \<longrightarrow> status = 429 \<or> status = 200 \<and> responseFormat ct = ''sse'')"
proof -
  let ?n = "nat (usageLimitProbeBytes + 1)"
  obtain v c left where sc: "scan_limit (take ?n (body_bytes b)) [] [] = (v, c, left)" by (metis prod_cases3)
  have "(c @ left) @ drop ?n (body_bytes b) = body_bytes b"
    using scan_limit_bytes [OF sc] by (simp only: append_Nil append_take_drop_id)
  moreover have "body_bytes (x\<lparr>chunks := cs, last_chunk := l\<rparr>) = concat cs @ l" for x :: body and cs l
    by (simp add: body_bytes_def)
  ultimately show ?thesis
    using sc by (simp add: inspectUsageLimit_def limited_read_def Let_def)
qed

definition limit_body :: body where
  "limit_body = \<lparr>chunks = [''{\"error\":{\"code\"''], last_chunk = '':\"usage_limit_reached\"}}'', end_err = EOF\<rparr>"

lemma limit_found: "fst (inspectUsageLimit 429 [] limit_body)"
  by code_simp

theorem inspection_preserves_body_witness:
  "fst (inspectUsageLimit 429 [] limit_body) \<and> body_bytes (snd (inspectUsageLimit 429 [] limit_body)) = body_bytes limit_body"
  using inspection_preserves_body [of 429 "[]" limit_body] limit_found by simp

end
