(* ===== verification/Proxy_Handler_Props.thy ===== *)
theory Proxy_Handler_Props
  imports Proxy_Delivery
begin

text \<open>
  The handler: one attempt per request and only after the durable beginning, credentials taken from the
  resolved identity alone, and a session that fails stays blocked, in memory and on disk.
\<close>

section \<open>What serving leaves alone\<close>

text \<open>Configuration and session sets; only the store and the diagnostics may differ.\<close>

definition same_sets :: "'db handler \<Rightarrow> 'db handler \<Rightarrow> bool" where
  "same_sets h h1 \<longleftrightarrow> busy h1 = busy h \<and> blocked h1 = blocked h \<and> hTarget h1 = hTarget h
     \<and> (hstore h1 = None \<longleftrightarrow> hstore h = None)"

lemma same_sets_refl [simp]: "same_sets h h"
  by (simp add: same_sets_def)

text \<open>Each step is transparent to \<open>same_sets\<close>, as a rewrite rule.\<close>

lemma step_sets [simp]:
  "same_sets h0 (set_diagnostic f h) = same_sets h0 h"
  "same_sets h0 (note_rejection n c h) = same_sets h0 h"
  "same_sets h0 (responseDiagnostic c a b h) = same_sets h0 h"
  "same_sets h0 (snd (snd (refuse fault n c w h))) = same_sets h0 h"
  "same_sets h0 (fail_lease q env l h) = same_sets h0 h"
  by (auto simp: refuse_def hreject_def note_rejection_def set_diagnostic_def responseDiagnostic_def same_sets_def
      fail_lease_def split: option.split)

lemma same_sets_store: "hstore h = Some s0 \<Longrightarrow> same_sets h0 (h\<lparr>hstore := Some s\<rparr>) = same_sets h0 h"
  by (simp add: same_sets_def)

lemma hstore_step [simp]:
  "hstore (set_diagnostic f h) = hstore h" "hstore (note_rejection n c h) = hstore h"
  "hstore (responseDiagnostic c a b h) = hstore h" "hstore (snd (snd (refuse fault n c w h))) = hstore h"
  by (simp_all add: refuse_def hreject_def note_rejection_def set_diagnostic_def responseDiagnostic_def)

lemma compaction_sets [simp]:
  "same_sets h0 (snd (snd (serve_compaction fault resp format w h))) = same_sets h0 h"
  by (simp add: serve_compaction_def split: prod.split bool.split)

lemma delivery_sets [simp]:
  "same_sets h0 (snd (snd (serve_delivery q fault env cpt l resp w h))) = same_sets h0 h"
  by (cases "hstore h"; cases l) (simp_all add: serve_delivery_def Let_def same_sets_store split: prod.split)

lemma response_sets [simp]:
  "same_sets h0 (snd (snd (serve_response q fault env cpt l resp w h))) = same_sets h0 h"
  by (simp add: serve_response_def Let_def)

lemma dispatch_sets [simp]:
  "same_sets h0 (snd (snd (fst (serve_dispatch q fault up env i cpt data l w h)))) = same_sets h0 h"
  by (simp add: serve_dispatch_def Let_def split: option.split)

lemma body_sets [simp]:
  "same_sets h0 (snd (snd (fst (serve_body q fault up env i cpt data w h)))) = same_sets h0 h"
proof (cases "hstore h")
  case (Some s)
  have "same_sets h0 (snd (snd (fst (case serve_dispatch q fault up env i cpt data (Some l) w (h\<lparr>hstore := Some s2\<rparr>) of
      ((r, w1, h2), sent) \<Rightarrow> ((r, w1, if r = Returned True then h2 else fail_lease q env l h2), sent))))) = same_sets h0 h" for l s2
    using dispatch_sets [of h0 q fault up env i cpt data "Some l" w "h\<lparr>hstore := Some s2\<rparr>"] same_sets_store [OF Some, of h0 s2]
    by (auto simp del: dispatch_sets split: prod.splits)
  with Some show ?thesis
    by (simp add: serve_body_def Let_def same_sets_store split: option.split prod.split sum.split)
qed (simp add: serve_body_def)

lemma session_sets [simp]:
  "same_sets h0 (snd (snd (fst (serve_session q fault up env i cpt b w h)))) = same_sets h0 h"
  by (simp add: serve_session_def Let_def split: option.split)

section \<open>One attempt\<close>

abbreviation attempts_of :: "'db handler \<Rightarrow> int" where "attempts_of h \<equiv> Attempts (diagnostic h)"

lemma step_attempts [simp]:
  "attempts_of (note_rejection n c h) = attempts_of h"
  "attempts_of (responseDiagnostic c a b h) = attempts_of h"
  "attempts_of (snd (snd (refuse fault n c w h))) = attempts_of h"
  "attempts_of (fail_lease q env l h) = attempts_of h"
  "attempts_of (handler_finish i bad h) = attempts_of h"
  by (simp_all add: refuse_def hreject_def note_rejection_def responseDiagnostic_def fail_lease_def
      handler_finish_def Let_def split: option.split)

lemma set_diagnostic_attempts [simp]: "attempts_of (set_diagnostic f h) = Attempts (f (diagnostic h))"
  by (simp add: set_diagnostic_def)

lemma compaction_attempts [simp]:
  "attempts_of (snd (snd (serve_compaction fault resp format w h))) = attempts_of h"
  by (simp add: serve_compaction_def split: prod.split bool.split)

lemma delivery_attempts [simp]:
  "attempts_of (snd (snd (serve_delivery q fault env cpt l resp w h))) = attempts_of h"
  by (cases "hstore h"; cases l) (simp_all add: serve_delivery_def Let_def split: prod.split)

lemma response_attempts [simp]:
  "attempts_of (snd (snd (serve_response q fault env cpt l resp w h))) = attempts_of h"
  by (simp add: serve_response_def Let_def)

text \<open>The requests a step sent, with the attempts counted.\<close>

definition sends :: "out_request list \<Rightarrow> 'db handler \<Rightarrow> (outcome \<times> client \<times> 'db handler) \<times> out_request list \<Rightarrow> bool" where
  "sends outs h x \<longleftrightarrow> (snd x = [] \<or> snd x = outs) \<and> attempts_of (snd (snd (fst x))) = attempts_of h + int (length (snd x))"

lemma sends_refuse [simp]: "sends outs h (refuse fault n c w h1, []) \<longleftrightarrow> attempts_of h1 = attempts_of h"
  by (simp add: sends_def)

lemma dispatch_sends:
  "sends [outgoing i cpt data h] h (serve_dispatch q fault up env i cpt data l w h)"
  by (auto simp: serve_dispatch_def Let_def sends_def split: option.split)

lemma outgoing_store [simp]: "outgoing i cpt data (h\<lparr>hstore := x\<rparr>) = outgoing i cpt data h"
  by (simp add: outgoing_def)

lemma sends_store [simp]: "sends outs (h\<lparr>hstore := x\<rparr>) y = sends outs h y"
  by (simp add: sends_def)

lemma body_sends: "sends [outgoing i cpt data h] h (serve_body q fault up env i cpt data w h)"
proof (cases "hstore h")
  case (Some s)
  have "sends [outgoing i cpt data h] h (case serve_dispatch q fault up env i cpt data (Some l) w (h\<lparr>hstore := Some s2\<rparr>) of
      ((r, w1, h2), sent) \<Rightarrow> ((r, w1, if r = Returned True then h2 else fail_lease q env l h2), sent))" for l s2
    using dispatch_sends [of i cpt data "h\<lparr>hstore := Some s2\<rparr>" q fault up env "Some l" w]
    by (auto simp: sends_def split: prod.splits)
  with Some show ?thesis
    by (simp add: serve_body_def Let_def split: option.split prod.split sum.split)
qed (use dispatch_sends in \<open>simp add: serve_body_def\<close>)

lemma session_sends: "sends [outgoing i cpt (body_bytes b) h] h (serve_session q fault up env i cpt b w h)"
  using body_sends [of i cpt "body_bytes b" h]
  by (auto simp: serve_session_def request_data_def Let_def split: option.split)

lemma reset_diagnostics_attempts [simp]: "Attempts (reset_diagnostics d) = Attempts d"
  by (simp add: reset_diagnostics_def)

text \<open>The handler after the counters were reset.\<close>

definition entered :: "'db handler \<Rightarrow> 'db handler" where
  "entered h = set_diagnostic reset_diagnostics h"

lemma entered_fields [simp]:
  "busy (entered h) = busy h" "blocked (entered h) = blocked h" "hstore (entered h) = hstore h"
  "hTarget (entered h) = hTarget h" "attempts_of (entered h) = attempts_of h" "same_sets h (entered h)"
  by (simp_all add: entered_def set_diagnostic_def same_sets_def)

text \<open>A request is refused at once, or it is served for the identity it resolves to.\<close>

definition admitted :: "identity \<Rightarrow> 'db handler \<Rightarrow> bool" where
  "admitted i h \<longleftrightarrow> iSession i \<noteq> [] \<and> iToken i \<noteq> [] \<and> iSession i \<notin> blocked h \<and> iSession i \<notin> busy h"

definition refusal :: "faults \<Rightarrow> 'db handler \<Rightarrow> (outcome \<times> client \<times> 'db handler) \<times> out_request list \<Rightarrow> bool" where
  "refusal fault h x \<longleftrightarrow> (\<exists>n c. x = (refuse fault n c new_client (entered h), []))"

lemma refusalI [simp]: "refusal fault h (refuse fault n c new_client (entered h), [])"
  by (auto simp: refusal_def)

definition served :: "'db conn \<Rightarrow> faults \<Rightarrow> upstream \<Rightarrow> identity \<Rightarrow> serve_env \<Rightarrow> http_request \<Rightarrow> 'db handler \<Rightarrow>
    (outcome \<times> client \<times> 'db handler) \<times> out_request list" where
  "served q fault up i env r h =
     (case serve_session q fault up env i (is_compact r (entered h)) (rBody r) new_client
        ((entered h)\<lparr>busy := insert (iSession i) (busy h)\<rparr>) of
        ((r1, w1, h2), sent) \<Rightarrow> ((r1, w1, handler_finish (iSession i) (r1 \<noteq> Returned True) h2), sent))"

lemma serve_shape:
  "refusal fault h (ServeHTTP q fault up resolve env r h) \<or>
    (\<exists>i. resolve r = Inr i \<and> admitted i h \<and> ServeHTTP q fault up resolve env r h = served q fault up i env r h)"
proof (cases "resolve r")
  case (Inl e)
  obtain st c where "identityRejection (Some e) = (st, c)" by (cases "identityRejection (Some e)")
  with Inl show ?thesis by (simp add: ServeHTTP_def Let_def entered_def [symmetric])
next
  case (Inr i)
  obtain st c where "identityRejection None = (st, c)" by (cases "identityRejection None")
  with Inr show ?thesis
    by (simp add: ServeHTTP_def Let_def entered_def [symmetric] handler_begin_def admitted_def served_def)
qed

lemma refusal_parts:
  "refusal fault h ((r1, w1, h1), sent) \<Longrightarrow>
     sent = [] \<and> r1 = Returned False \<and> same_sets h h1 \<and> hstore h1 = hstore h \<and> attempts_of h1 = attempts_of h"
proof -
  assume "refusal fault h ((r1, w1, h1), sent)"
  then obtain n c where "(r1, w1, h1) = refuse fault n c new_client (entered h)" and "sent = []"
    by (auto simp: refusal_def)
  then show ?thesis
    using step_sets(4) [of h fault n c new_client "entered h"] hstore_step(4) [of fault n c new_client "entered h"]
      step_attempts(3) [of fault n c new_client "entered h"]
    by (simp add: refuse_def) (metis snd_conv)
qed

lemma same_sets_busy: "same_sets h (h\<lparr>busy := b\<rparr>) \<longleftrightarrow> b = busy h"
  by (auto simp: same_sets_def)

lemma served_parts:
  assumes "served q fault up i env r h = ((r1, w1, h1), sent)" and "admitted i h"
  shows "sends [outgoing i (is_compact r (entered h)) (body_bytes (rBody r)) h] h ((r1, w1, h1), sent)
    \<and> busy h1 = busy h \<and> blocked h1 = (if r1 = Returned True then blocked h else insert (iSession i) (blocked h))
    \<and> hTarget h1 = hTarget h"
proof -
  let ?h0 = "(entered h)\<lparr>busy := insert (iSession i) (busy h)\<rparr>"
  obtain r2 w2 h2 s2 where ss: "serve_session q fault up env i (is_compact r (entered h)) (rBody r) new_client ?h0 = ((r2, w2, h2), s2)"
    by (metis prod_cases3 surj_pair)
  then have e: "r2 = r1" "s2 = sent" "h1 = handler_finish (iSession i) (r1 \<noteq> Returned True) h2"
    using assms(1) by (auto simp: served_def)
  have "same_sets ?h0 h2"
    using session_sets [of ?h0 q fault up env i "is_compact r (entered h)" "rBody r" new_client ?h0] ss by simp
  moreover have "sends [outgoing i (is_compact r (entered h)) (body_bytes (rBody r)) ?h0] ?h0 ((r2, w2, h2), s2)"
    using session_sends [of i "is_compact r (entered h)" "rBody r" ?h0 q fault up env new_client] ss by simp
  moreover have "outgoing i c d ?h0 = outgoing i c d h" for c d by (simp add: outgoing_def)
  ultimately show ?thesis
    using e assms(2) by (auto simp: sends_def same_sets_def handler_finish_def Let_def admitted_def)
qed

text \<open>C33: Serving one request makes at most one upstream attempt and counts it. The attempt is made for the
  identity the resolver gave, whose session was neither busy nor blocked; its credentials are those of
  that identity and no other header of the client is forwarded; its body is the request's body,
  unchanged. Afterwards no session is left busy that was not busy before.\<close>

theorem single_attempt:
  assumes "ServeHTTP q fault up resolve env r h = ((r1, w1, h1), sent)"
  shows "length sent \<le> 1 \<and> attempts_of h1 = attempts_of h + int (length sent) \<and> busy h1 = busy h
    \<and> (\<forall>out\<in>set sent. \<exists>i. resolve r = Inr i \<and> admitted i h \<and> oBody out = body_bytes (rBody r)
         \<and> oHeaders out = [(''Content-Type'', ''application/json''), (''Accept'', ''text/event-stream, application/json''),
              (''Authorization'', ''Bearer '' @ iToken i)]
            @ (if iAccountID i = [] then [] else [(''ChatGPT-Account-ID'', iAccountID i)]))"
proof -
  from serve_shape [of fault h q up resolve env r] show ?thesis
  proof
    assume "refusal fault h (ServeHTTP q fault up resolve env r h)"
    with assms have "refusal fault h ((r1, w1, h1), sent)" by simp
    from refusal_parts [OF this] show ?thesis by (simp add: same_sets_def)
  next
    assume "\<exists>i. resolve r = Inr i \<and> admitted i h \<and> ServeHTTP q fault up resolve env r h = served q fault up i env r h"
    then obtain i where i: "resolve r = Inr i" "admitted i h" "served q fault up i env r h = ((r1, w1, h1), sent)"
      using assms by auto
    with served_parts [OF i(3,2)] show ?thesis
      by (auto simp: sends_def outgoing_def out_headers_def)
  qed
qed

section \<open>Failed sessions stay blocked\<close>

text \<open>One call of the handler, with everything it meets; and the handler after it.\<close>

record call =
  cFault :: faults
  cUpstream :: upstream
  cResolve :: "http_request \<Rightarrow> identity res"
  cEnv :: serve_env
  cRequest :: http_request

definition serve_call :: "'db conn \<Rightarrow> 'db handler \<Rightarrow> call \<Rightarrow> (outcome \<times> client \<times> 'db handler) \<times> out_request list" where
  "serve_call q h c = ServeHTTP q (cFault c) (cUpstream c) (cResolve c) (cEnv c) (cRequest c) h"

definition serve_all :: "'db conn \<Rightarrow> call list \<Rightarrow> 'db handler \<Rightarrow> 'db handler" where
  "serve_all q cs h = foldl (\<lambda>h c. snd (snd (fst (serve_call q h c)))) h cs"

lemma serve_blocked_mono: "blocked h \<subseteq> blocked (snd (snd (fst (ServeHTTP q fault up resolve env r h))))"
proof -
  obtain r1 w1 h1 sent where res: "ServeHTTP q fault up resolve env r h = ((r1, w1, h1), sent)"
    by (metis prod_cases3 surj_pair)
  from serve_shape [of fault h q up resolve env r] show ?thesis
    using refusal_parts [of fault h r1 w1 h1 sent] served_parts [of q fault up _ env r h r1 w1 h1 sent] res
    by (auto simp: same_sets_def)
qed

lemma serve_all_blocked: "x \<in> blocked h \<Longrightarrow> x \<in> blocked (serve_all q cs h)"
proof (induction cs arbitrary: h)
  case (Cons c cs)
  have "x \<in> blocked (snd (snd (fst (serve_call q h c))))"
    unfolding serve_call_def by (rule subsetD [OF serve_blocked_mono Cons.prems])
  from Cons.IH [OF this] show ?case by (simp add: serve_all_def)
qed (simp add: serve_all_def)

lemma blocked_sends_nothing:
  assumes "resolve r = Inr i" and "iSession i \<in> blocked h"
  shows "snd (ServeHTTP q fault up resolve env r h) = []"
  using serve_shape [of fault h q up resolve env r] assms
  by (auto simp: refusal_def admitted_def)

text \<open>Once an attempt for a session ended in anything but a completed response (an error reply, a broken
  or incomplete stream, a client that went away, a store that could not record it), no later request
  of that session is sent upstream, whatever requests are served in between.\<close>

theorem failed_session_stays_blocked:
  assumes "ServeHTTP q fault up resolve env r h = ((r1, w1, h1), sent)" and "sent \<noteq> []" and "r1 \<noteq> Returned True"
    and "resolve r = Inr i" and "cResolve c (cRequest c) = Inr j" and "iSession j = iSession i"
  shows "snd (serve_call q (serve_all q cs h1) c) = []"
proof -
  have "iSession i \<in> blocked h1"
    using serve_shape [of fault h q up resolve env r] assms(1-4) refusal_parts [of fault h r1 w1 h1 sent]
      served_parts [of q fault up i env r h r1 w1 h1 sent] by auto
  then have "iSession j \<in> blocked (serve_all q cs h1)" using serve_all_blocked assms(6) by simp
  with assms(5) show ?thesis by (auto simp: serve_call_def intro: blocked_sends_nothing)
qed

section \<open>Overlapping requests\<close>

text \<open>Requests of several goroutines interleave between taking the session and giving it back; \<open>fl\<close> lists
  the sessions of the requests in flight.\<close>

inductive serve_step :: "'db handler \<times> string list \<Rightarrow> 'db handler \<times> string list \<Rightarrow> bool" where
  start: "handler_begin i h = (True, h1) \<Longrightarrow> serve_step (h, fl) (h1, i # fl)"
| refused: "handler_begin i h = (False, h1) \<Longrightarrow> serve_step (h, fl) (h1, fl)"
| work: "same_sets h h1 \<Longrightarrow> serve_step (h, fl) (h1, fl)"
| leave: "i \<in> set fl \<Longrightarrow> serve_step (h, fl) (handler_finish i bad h, remove1 i fl)"

inductive_cases serve_stepE: "serve_step (h, fl) s"

inductive serve_run :: "'db handler \<times> string list \<Rightarrow> 'db handler \<times> string list \<Rightarrow> bool" where
  none: "serve_run s s"
| more: "serve_run s s1 \<Longrightarrow> serve_step s1 s2 \<Longrightarrow> serve_run s s2"

definition flights_ok :: "string set \<Rightarrow> 'db handler \<times> string list \<Rightarrow> bool" where
  "flights_ok bl s \<longleftrightarrow> distinct (snd s) \<and> busy (fst s) = set (snd s) \<and> bl \<subseteq> blocked (fst s)
     \<and> bl \<inter> set (snd s) = {}"

lemma serve_step_ok: "serve_step s s1 \<Longrightarrow> flights_ok bl s \<Longrightarrow> flights_ok bl s1"
  by (induction rule: serve_step.induct)
    (auto simp: flights_ok_def handler_begin_def handler_finish_def same_sets_def Let_def split: if_splits)

text \<open>However requests interleave, the busy set is exactly the sessions with a request in flight, no
  session has two of them, and a session that is blocked never has one again.\<close>

theorem no_overlap:
  assumes "serve_run (h, []) (h1, fl)" and "busy h = {}"
  shows "distinct fl \<and> busy h1 = set fl \<and> blocked h \<subseteq> blocked h1 \<and> blocked h \<inter> set fl = {}"
proof -
  have "flights_ok (blocked h) s1" if "serve_run s s1" and "flights_ok (blocked h) s" for s s1
    using that by (induction rule: serve_run.induct) (auto intro: serve_step_ok)
  from this [OF assms(1)] assms(2) show ?thesis by (simp add: flights_ok_def)
qed

text \<open>Serving a request is such a run: it takes the session, works and gives it back.\<close>

lemma serve_is_run:
  assumes "ServeHTTP q fault up resolve env r h = ((r1, w1, h1), sent)"
  shows "serve_run (h, fl) (h1, fl)"
proof -
  have work: "serve_run (h, fl) (g, fl1) \<Longrightarrow> same_sets g g1 \<Longrightarrow> serve_run (h, fl) (g1, fl1)" for g g1 fl1
    by (rule serve_run.more [OF _ serve_step.work])
  from serve_shape [of fault h q up resolve env r] show ?thesis
  proof
    assume "refusal fault h (ServeHTTP q fault up resolve env r h)"
    with assms have "same_sets h h1" using refusal_parts [of fault h r1 w1 h1 sent] by simp
    then show ?thesis by (rule work [OF serve_run.none])
  next
    assume "\<exists>i. resolve r = Inr i \<and> admitted i h \<and> ServeHTTP q fault up resolve env r h = served q fault up i env r h"
    then obtain i where adm: "admitted i h" and sv: "served q fault up i env r h = ((r1, w1, h1), sent)"
      using assms by auto
    let ?h0 = "(entered h)\<lparr>busy := insert (iSession i) (busy h)\<rparr>"
    obtain r2 w2 h2 s2 where ss: "serve_session q fault up env i (is_compact r (entered h)) (rBody r) new_client ?h0 = ((r2, w2, h2), s2)"
      by (metis prod_cases3 surj_pair)
    have h1: "h1 = handler_finish (iSession i) (r2 \<noteq> Returned True) h2" using sv ss by (auto simp: served_def)
    have "serve_run (h, fl) (entered h, fl)" by (rule work [OF serve_run.none]) simp
    then have "serve_run (h, fl) (?h0, iSession i # fl)"
      by (rule serve_run.more, intro serve_step.start) (use adm in \<open>simp add: handler_begin_def admitted_def\<close>)
    moreover have "same_sets ?h0 h2"
      using session_sets [of ?h0 q fault up env i "is_compact r (entered h)" "rBody r" new_client ?h0] ss by simp
    ultimately have "serve_run (h, fl) (h2, iSession i # fl)" by (rule work)
    from serve_run.more [OF this serve_step.leave [of "iSession i"]] h1 show ?thesis by simp
  qed
qed

section \<open>Failures on disk\<close>

text \<open>What a delivery does to the store.\<close>

definition store_outcome :: "'db conn \<Rightarrow> lease \<Rightarrow> time \<Rightarrow> outcome \<Rightarrow> 'db store \<Rightarrow> 'db store \<Rightarrow> bool" where
  "store_outcome q l now r s s1 \<longleftrightarrow>
     (if r = Returned True then \<exists>ids. Finish q l ids True now s = (Inr (), s1)
      else s1 = s \<or> (\<exists>ids e. Finish q l ids True now s = (Inl e, s1)))"

lemma deliver_bytes_result: "deliver_bytes fault b d = (Some r, d1) \<Longrightarrow> r \<noteq> Returned True"
  by (auto simp: deliver_bytes_def Let_def split: if_splits prod.splits option.splits bool.splits)

lemma deliver_reads_result: "deliver_reads fault bs d = (Some r, d1) \<Longrightarrow> r \<noteq> Returned True"
  by (induction bs arbitrary: d) (auto dest: deliver_bytes_result split: prod.splits option.splits)

lemma deliver_end_store:
  "deliver_end q fault l now e s d = (r, code, reason, seen, committed, w1, s1) \<Longrightarrow> store_outcome q l now r s s1"
  by (cases "end_rejection e d")
    (auto simp: deliver_end_def store_outcome_def split: prod.splits sum.splits bool.splits)

lemma deliver_store:
  assumes "deliverPersistent q fault l now stream status b s w = (r, code, reason, seen, committed, w1, s1)"
  shows "store_outcome q l now r s s1"
proof (cases stream)
  case True
  with assms have st: "deliver_stream q fault l now b s (write_header status w) = (r, code, reason, seen, committed, w1, s1)"
    by (simp add: deliverPersistent_def)
  obtain x d where rd: "deliver_reads fault (chunks b @ [last_chunk b]) (delivery_start (write_header status w)) = (x, d)"
    by (cases "deliver_reads fault (chunks b @ [last_chunk b]) (delivery_start (write_header status w))")
  show ?thesis
  proof (cases x)
    case None
    with rd st show ?thesis by (auto simp: deliver_stream_def delivery_start_def intro: deliver_end_store)
  next
    case (Some y)
    with rd st deliver_reads_result [OF rd [unfolded Some]] show ?thesis
      by (auto simp: deliver_stream_def delivery_start_def store_outcome_def)
  qed
next
  case False
  with assms show ?thesis
    by (auto simp: deliverPersistent_def deliver_whole_def store_outcome_def
        split: prod.splits option.splits if_splits sum.splits)
qed

lemma forward_reads_result: "fst (forward_reads fault stream bs ob w) = Some r \<Longrightarrow> r \<noteq> Returned True"
  by (induction bs arbitrary: ob w) (auto split: prod.splits if_splits bool.splits)

lemma forward_body_result:
  "\<not> success_status status \<Longrightarrow> fst (forward_body fault stream status b w) \<noteq> Returned True"
  using forward_reads_result [of fault stream "chunks b @ [last_chunk b]" "eventObserver False" w]
  by (auto simp: forward_body_def success_status_def split: prod.splits option.splits)

definition handler_store :: "'db conn \<Rightarrow> lease \<Rightarrow> time \<Rightarrow> 'db store \<Rightarrow> outcome \<times> client \<times> 'db handler \<Rightarrow> bool" where
  "handler_store q l now s x \<longleftrightarrow> (\<exists>s1. hstore (snd (snd x)) = Some s1 \<and> store_outcome q l now (fst x) s s1)"

lemma handler_store_refuse [simp]: "hstore h = Some s \<Longrightarrow> handler_store q l now s (refuse fault n c w h)"
  by (simp add: handler_store_def) (simp add: refuse_def store_outcome_def)

lemma delivery_store:
  assumes "hstore h = Some s"
  shows "handler_store q l (done_time env) s (serve_delivery q fault env False (Some l) resp w h)"
proof (cases "success_status (upStatus resp)")
  case True
  with assms show ?thesis
    by (auto simp: serve_delivery_def Let_def handler_store_def split: prod.split dest: deliver_store)
next
  case False
  with assms forward_body_result [OF False] show ?thesis
    by (auto simp: serve_delivery_def Let_def handler_store_def store_outcome_def split: prod.split)
      (metis fst_conv)+
qed

lemma response_store:
  "hstore h = Some s \<Longrightarrow> handler_store q l (done_time env) s (serve_response q fault env False (Some l) resp w h)"
  by (simp add: serve_response_def Let_def delivery_store)

lemma dispatch_store:
  "hstore h = Some s \<Longrightarrow> handler_store q l (done_time env) s (fst (serve_dispatch q fault up env i False data (Some l) w h))"
  by (simp add: serve_dispatch_def Let_def response_store split: option.split)

lemma finish_error_keeps:
  assumes "sql_engine q view" and "holds view s t" and "Finish q l ids ok now s = (Inl e, s1)"
  shows "holds view s1 t"
proof -
  have x: "aff_exec q (EFinish l ids ok now) s = (Inl e, s1)" using assms(3) by (simp add: val_def)
  obtain t1 where t1: "holds view s1 t1"
    "aff_exec pure_query (EFinish l ids ok now) (Some (t, None)) = (Inl e, Some (t1, None)) \<or> t1 = t"
    using exec_step [OF assms(1,2) x] by blast
  have "aff_inv t" using assms(2) by (simp add: holds_def)
  with t1(2) have "t1 = t"
    using pure_exec_effect [of t "EFinish l ids ok now" "Inl e" "Some (t1, None)"] by auto
  with t1 show ?thesis by simp
qed

text \<open>An attempt of a persistent handler comes after the durable beginning, and the store afterwards is what
  the delivery left, or what the deferred failure made of it.\<close>

lemma body_shape:
  assumes "hstore h = Some s" and "serve_body q fault up env i False data w h = ((r, w1, h1), sent)" and "sent \<noteq> []"
  shows "\<exists>refs x s1 l s2 s3. Lookup q (iSession i) s = (Inr x, s1) \<and> owner_ok i (Inr x)
    \<and> continuationRefs data = Some refs
    \<and> BeginWithInputs q (iOrigin i) refs (inlineMessageIDs data) (lease_id env) (begin_time env) s1 = (Inr l, s2)
    \<and> store_outcome q l (done_time env) r s2 s3
    \<and> hstore h1 = Some (if r = Returned True then s3 else snd (Finish q l [] False (fail_time env) s3))"
proof -
  obtain refs where refs: "continuationRefs data = Some refs"
    using assms by (cases "continuationRefs data") (auto simp: serve_body_def)
  obtain x0 s1 where look: "Lookup q (iSession i) s = (x0, s1)" by (cases "Lookup q (iSession i) s")
  have own: "owner_ok i x0" using assms refs look by (auto simp: serve_body_def Let_def split: if_splits)
  then obtain x where x: "x0 = Inr x" by (cases x0) (auto simp: owner_ok_def)
  obtain b s2 where beg: "BeginWithInputs q (iOrigin i) refs (inlineMessageIDs data) (lease_id env) (begin_time env) s1 = (b, s2)"
    by (cases "BeginWithInputs q (iOrigin i) refs (inlineMessageIDs data) (lease_id env) (begin_time env) s1")
  obtain l where l: "b = Inr l" using assms refs look own beg by (cases b) (auto simp: serve_body_def Let_def)
  obtain r2 w2 h2 sent2 where d: "serve_dispatch q fault up env i False data (Some l) w (h\<lparr>hstore := Some s2\<rparr>) = ((r2, w2, h2), sent2)"
    by (metis prod_cases3 surj_pair)
  have res: "r2 = r" "h1 = (if r = Returned True then h2 else fail_lease q env l h2)"
    using assms refs look own beg l d by (auto simp: serve_body_def Let_def)
  obtain s3 where s3: "hstore h2 = Some s3" "store_outcome q l (done_time env) r s2 s3"
    using dispatch_store [of "h\<lparr>hstore := Some s2\<rparr>" s2 q l env fault up i data w] d res
    by (auto simp: handler_store_def)
  then show ?thesis using look own x refs beg l res by (auto simp: fail_lease_def)
qed

lemma session_shape:
  assumes "hstore h = Some s" and "ServeHTTP q fault up resolve env r h = ((r1, w1, h1), sent)" and "sent \<noteq> []"
  shows "\<exists>i h0 w h2. resolve r = Inr i \<and> hstore h0 = Some s
    \<and> serve_body q fault up env i False (body_bytes (rBody r)) w h0 = ((r1, w1, h2), sent) \<and> hstore h1 = hstore h2"
proof -
  obtain i where i: "resolve r = Inr i" "admitted i h" "served q fault up i env r h = ((r1, w1, h1), sent)"
    using serve_shape [of fault h q up resolve env r] assms(2,3) refusal_parts [of fault h r1 w1 h1 sent] by auto
  let ?h0 = "(entered h)\<lparr>busy := insert (iSession i) (busy h)\<rparr>"
  have comp: "\<not> is_compact r (entered h)" using assms(1) by (simp add: is_compact_def)
  obtain r2 w2 h2 s2 where ss: "serve_session q fault up env i False (rBody r) new_client ?h0 = ((r2, w2, h2), s2)"
    by (metis prod_cases3 surj_pair)
  have e: "r2 = r1" "s2 = sent" "w2 = w1" "hstore h1 = hstore h2"
    using i(3) ss comp by (auto simp: served_def handler_finish_def Let_def split: if_splits)
  have "\<exists>w. serve_body q fault up env i False (body_bytes (rBody r)) w ?h0 = ((r1, w1, h2), sent)"
    using ss e assms(3) by (auto simp: serve_session_def request_data_def Let_def split: if_splits)
  moreover have "hstore ?h0 = Some s" using assms(1) by simp
  ultimately show ?thesis using i(1) e(4) by blast
qed

text \<open>C32: A persistent handler contacts the upstream service only for a session the store holds as ready, at
  the place and on the account slot of the resolved identity.\<close>

theorem attempt_only_for_owner:
  assumes "sql_engine q view" and "hstore h = Some s" and "holds view s t"
    and "ServeHTTP q fault up resolve env r h = ((r1, w1, h1), sent)" and "sent \<noteq> []" and "resolve r = Inr i"
  shows "\<exists>row\<in>set (session_rows t). r_id row = c_string (iSession i) \<and> r_slot row = iSlot i \<and> r_state row = ''ready''
    \<and> r_project row = Project (iOrigin i) \<and> r_worktree row = Worktree (iOrigin i) \<and> r_branch row = Branch (iOrigin i)"
proof -
  obtain h0 w h2 where h0: "hstore h0 = Some s"
    and b: "serve_body q fault up env i False (body_bytes (rBody r)) w h0 = ((r1, w1, h2), sent)"
    using session_shape [OF assms(2,4,5)] assms(6) by auto
  obtain refs x s1 l s2 where look: "Lookup q (iSession i) s = (Inr x, s1)" and own: "owner_ok i (Inr x)"
    and beg: "BeginWithInputs q (iOrigin i) refs (inlineMessageIDs (body_bytes (rBody r))) (lease_id env) (begin_time env) s1 = (Inr l, s2)"
    using body_shape [OF h0 b assms(5)] by blast
  obtain row where s1: "holds view s1 t" and row: "row \<in> set (session_rows t)" "r_id row = c_string (iSession i)"
    "x = session_at (iSession i) row"
    using lookup_any [OF assms(1,3) look] by blast
  have sid: "Session (iOrigin i) = iSession i" using own by (simp add: owner_ok_def)
  obtain row2 where row2: "row2 \<in> set (session_rows t)" "r_id row2 = c_string (iSession i)" "r_state row2 = ''ready''"
    using begin_ready [OF assms(1) s1 beg] sid by auto
  have "inj_on r_id (set (session_rows t))"
    using assms(3) by (simp add: holds_def aff_inv_def sessions_ok_def distinct_map)
  then have "row2 = row" using row(1,2) row2(1,2) by (simp add: inj_on_def)
  moreover have "sOrigin x = iOrigin i" and "Account x = iSlot i" using own by (simp_all add: owner_ok_def)
  then have "r_project row = Project (iOrigin i) \<and> r_worktree row = Worktree (iOrigin i) \<and>
      r_branch row = Branch (iOrigin i) \<and> r_slot row = iSlot i"
    by (metis row(3) session_at_def hsession.select_convs(1,2) origin.select_convs(1,2,3))
  ultimately show ?thesis using row(1,2) row2(3) by metis
qed


section \<open>Samples\<close>

definition sample_identity :: identity where
  "sample_identity = \<lparr>iSession = ''s'', iToken = ''t'', iAccountID = ''acc'', iOrigin = one, iSlot = ''a''\<rparr>"

definition sample_request :: http_request where
  "sample_request = \<lparr>rMethod = ''POST'', rPath = ''/responses'', rRawQuery = [], rUpgrade = [],
     rBody = \<lparr>chunks = [], last_chunk = ''{\"input\":\"x\"}'', end_err = EOF\<rparr>\<rparr>"

definition sample_env :: serve_env where
  "sample_env = \<lparr>ctx_entry = False, ctx_resolved = False, ctx_dispatch = False, request_id = ''r'', lease_id = ''k'',
     begin_time = 0, done_time = 2, fail_time = 3, builds = True\<rparr>"

definition sample_handler :: "pure_db handler" where
  "sample_handler = \<lparr>DeferUsageLimit = False, BeforeAttempt = None, ValidateCompaction = None, hTarget = ''https://u'',
     busy = {}, blocked = {}, hstore = Some (Some (sample_tables, None)), diagnostic = zero_diagnostics\<rparr>"

text \<open>The upstream service cannot be reached.\<close>

definition failed_call :: "(outcome \<times> client \<times> pure_db handler) \<times> out_request list" where
  "failed_call = ServeHTTP pure_query no_faults (\<lambda>_. None) (\<lambda>_. Inr sample_identity) sample_env sample_request sample_handler"

lemma failed_call_sent: "(fst (fst failed_call), length (snd failed_call)) = (Returned False, 1)"
  by code_simp

lemma failed_call_parts:
  obtains w1 h1 sent where "failed_call = ((Returned False, w1, h1), sent)" and "sent \<noteq> []" and "length sent = 1"
proof -
  obtain r1 w1 h1 sent where p: "failed_call = ((r1, w1, h1), sent)" by (metis prod_cases3 surj_pair)
  from failed_call_sent [unfolded p] have "r1 = Returned False" and "length sent = 1" by simp_all
  with p have "failed_call = ((Returned False, w1, h1), sent)" and "sent \<noteq> []" by auto
  then show thesis using \<open>length sent = 1\<close> by (rule that)
qed

theorem single_attempt_witness:
  "busy (snd (snd (fst failed_call))) = {} \<and> attempts_of (snd (snd (fst failed_call))) = 1 \<and>
    map oHeaders (snd failed_call) = [[(''Content-Type'', ''application/json''),
      (''Accept'', ''text/event-stream, application/json''), (''Authorization'', ''Bearer t''), (''ChatGPT-Account-ID'', ''acc'')]]"
proof -
  obtain w1 h1 sent where p: "failed_call = ((Returned False, w1, h1), sent)" "length sent = 1"
    using failed_call_parts by metis
  then obtain out where "sent = [out]" by (cases sent) auto
  with single_attempt [OF p(1) [unfolded failed_call_def]] show ?thesis
    unfolding p(1) by (simp add: sample_handler_def zero_diagnostics_def sample_identity_def)
qed

theorem failed_session_stays_blocked_witness:
  "snd (serve_call pure_query (serve_all pure_query [] (snd (snd (fst failed_call))))
     \<lparr>cFault = no_faults, cUpstream = \<lambda>_. None, cResolve = \<lambda>_. Inr sample_identity, cEnv = sample_env,
      cRequest = sample_request\<rparr>) = []"
proof -
  obtain w1 h1 sent where p: "failed_call = ((Returned False, w1, h1), sent)" "sent \<noteq> []"
    using failed_call_parts by metis
  from failed_session_stays_blocked [OF p(1) [unfolded failed_call_def] p(2), of sample_identity
      "\<lparr>cFault = no_faults, cUpstream = \<lambda>_. None, cResolve = \<lambda>_. Inr sample_identity, cEnv = sample_env,
        cRequest = sample_request\<rparr>" sample_identity "[]"] show ?thesis unfolding p(1) by simp
qed

theorem no_overlap_witness:
  "\<exists>h1. serve_run (sample_handler, []) (h1, [''s'']) \<and> busy h1 = {''s''}"
proof -
  have "serve_run (sample_handler, []) (sample_handler\<lparr>busy := {''s''}\<rparr>, [''s''])"
    by (rule serve_run.more [OF serve_run.none], rule serve_step.start) (simp add: handler_begin_def sample_handler_def)
  from no_overlap [OF this] this show ?thesis by (auto simp: sample_handler_def)
qed

theorem attempt_only_for_owner_witness:
  "\<exists>row\<in>set (session_rows sample_tables). r_id row = ''s'' \<and> r_slot row = ''a''"
proof -
  obtain w1 h1 sent where p: "failed_call = ((Returned False, w1, h1), sent)" "sent \<noteq> []"
    using failed_call_parts by metis
  have "hstore sample_handler = Some (Some (sample_tables, None))" by (simp add: sample_handler_def)
  from attempt_only_for_owner [OF engine_axioms(1) this sample_holds p(1) [unfolded failed_call_def] p(2), of sample_identity]
  show ?thesis by (auto simp: sample_identity_def c_string_def)
qed


end
