(* ===== verification/Calendar.thy ===== *)
theory Calendar
  imports Json
begin

text \<open>
  \<^verbatim>\<open>time.Time\<close> in JSON: the RFC 3339 form \<^verbatim>\<open>MarshalJSON\<close> prints for an instant in UTC and the strict
  parse of \<^verbatim>\<open>UnmarshalJSON\<close> (offsets and fractions included), with the proleptic Gregorian calendar as
  package \<^verbatim>\<open>time\<close> computes it, and the round trip for whole seconds up to the year 9999.
\<close>

section \<open>The calendar\<close>

definition leap_year :: "nat \<Rightarrow> bool" where
  "leap_year y \<longleftrightarrow> y mod 4 = 0 \<and> (y mod 100 \<noteq> 0 \<or> y mod 400 = 0)"

definition month_lengths :: "bool \<Rightarrow> nat list" where
  "month_lengths leap = [31, if leap then 29 else 28, 31, 30, 31, 30, 31, 31, 30, 31, 30, 31]"

text \<open>Days from the first day of year 1 to the first day of year \<open>Y + 1\<close>.\<close>

definition days_before :: "nat \<Rightarrow> nat" where
  "days_before Y = 365 * Y + Y div 4 - Y div 100 + Y div 400"

text \<open>The number of whole years before a day and the day of its year.\<close>

definition year_day :: "nat \<Rightarrow> nat \<times> nat" where
  "year_day n =
     (let a = n div 146097; r1 = n mod 146097;
          b = min (r1 div 36524) 3; r2 = r1 - 36524 * b;
          c = r2 div 1461; r3 = r2 mod 1461;
          e = min (r3 div 365) 3
      in (400 * a + 100 * b + 4 * c + e, r3 - 365 * e))"

text \<open>Month and day of month, both from 0, of a day of the year.\<close>

fun month_day :: "nat list \<Rightarrow> nat \<Rightarrow> nat \<times> nat" where
  "month_day [] d = (0, d)"
| "month_day (l # ls) d = (if d < l then (0, d) else case month_day ls (d - l) of (m, x) \<Rightarrow> (Suc m, x))"

lemma month_day_inverse:
  "d < sum_list ls \<Longrightarrow> month_day ls d = (m, x) \<Longrightarrow>
     m < length ls \<and> x < ls ! m \<and> sum_list (take m ls) + x = d"
proof (induction ls arbitrary: d m)
  case (Cons l ls)
  show ?case
  proof (cases "d < l")
    case False
    then obtain k where k: "month_day ls (d - l) = (k, x)" "m = Suc k"
      using Cons.prems(2) by (auto split: prod.splits)
    moreover have "d - l < sum_list ls" using False Cons.prems(1) by simp
    ultimately show ?thesis using False Cons.IH [of "d - l" k] by (simp, linarith)
  qed (use Cons.prems in auto)
qed simp

lemma year_day_parts:
  fixes n :: nat
  assumes "n = 146097 * a + r1" and "r1 < 146097" and "b = min (r1 div 36524) 3" and "r2 = r1 - 36524 * b"
    and "c = r2 div 1461" and "r3 = r2 mod 1461" and "e = min (r3 div 365) 3" and "d = r3 - 365 * e"
  shows "b \<le> 3 \<and> c \<le> 24 \<and> e \<le> 3 \<and> n = 146097 * a + 36524 * b + 1461 * c + 365 * e + d
    \<and> d < (if e = 3 \<and> (c \<noteq> 24 \<or> b = 3) then 366 else 365)"
proof -
  define q where "q = r1 div 36524"
  have q: "r1 = 36524 * q + r1 mod 36524" "r1 mod 36524 < 36524" by (simp_all add: q_def)
  have "b \<le> 3 \<and> r1 = 36524 * b + r2 \<and> (r2 < 36524 \<or> b = 3 \<and> r2 < 36525)"
  proof (cases "q \<le> 3")
    case True
    then have "b = q" using assms(3) q_def by simp
    with True q assms(4) show ?thesis by linarith
  next
    case False
    then have "b = 3" using assms(3) q_def by simp
    with False q assms(2,4) show ?thesis by linarith
  qed
  then have b: "b \<le> 3" and r2: "r1 = 36524 * b + r2" and r2b: "r2 < 36524 \<or> b = 3 \<and> r2 < 36525" by blast+
  have r3: "r2 = 1461 * c + r3" "r3 < 1461" using assms(5,6) by simp_all
  have c: "c \<le> 24" using r3 r2b by linarith
  define u where "u = r3 div 365"
  have u: "r3 = 365 * u + r3 mod 365" "r3 mod 365 < 365" by (simp_all add: u_def)
  have "e \<le> 3 \<and> r3 = 365 * e + d \<and> (d < 365 \<or> e = 3 \<and> d < 366)"
  proof (cases "u \<le> 3")
    case True
    then have "e = u" using assms(7) u_def by simp
    with True u assms(8) show ?thesis by linarith
  next
    case False
    then have "e = 3" using assms(7) u_def by simp
    with False u r3(2) assms(8) show ?thesis by linarith
  qed
  then have e: "e \<le> 3" and d: "r3 = 365 * e + d" and "d < 365 \<or> e = 3 \<and> d < 366" by blast+
  moreover have "d < 365" if "c = 24" "b \<noteq> 3" "e = 3" using that r2b r3 d by linarith
  moreover have "n = 146097 * a + 36524 * b + 1461 * c + 365 * e + d" using assms(1) r2 r3 d by linarith
  ultimately show ?thesis using b c e by auto
qed

lemma days_before_parts:
  assumes "b \<le> 3" "c \<le> 24" "e \<le> 3"
  shows "days_before (400 * a + 100 * b + 4 * c + e) = 146097 * a + 36524 * b + 1461 * c + 365 * e"
proof -
  let ?Y = "400 * a + 100 * b + 4 * c + e"
  have "?Y div 4 = 100 * a + 25 * b + c" and "?Y div 100 = 4 * a + b" and "?Y div 400 = a"
    using assms by (auto simp: div_nat_eqI)
  then show ?thesis by (simp add: days_before_def)
qed

lemma leap_year_parts:
  assumes "b \<le> 3" "c \<le> 24" "e \<le> 3"
  shows "leap_year (400 * a + 100 * b + 4 * c + e + 1) \<longleftrightarrow> e = 3 \<and> (c \<noteq> 24 \<or> b = 3)"
proof -
  have "(400 * a + 100 * b + 4 * c + e + 1) mod 4 = (e + 1) mod 4"
    using mod_mult_self1 [of "e + 1" "100 * a + 25 * b + c" 4] by (simp add: algebra_simps)
  moreover have "(400 * a + 100 * b + 4 * c + e + 1) mod 100 = (4 * c + e + 1) mod 100"
    using mod_mult_self1 [of "4 * c + e + 1" "4 * a + b" 100] by (simp add: algebra_simps)
  moreover have "(400 * a + 100 * b + 4 * c + e + 1) mod 400 = (100 * b + 4 * c + e + 1) mod 400"
    using mod_mult_self1 [of "100 * b + 4 * c + e + 1" a 400] by (simp add: algebra_simps)
  moreover have "(e + 1) mod 4 = 0 \<longleftrightarrow> e = 3"
    using assms(3) by (cases "e + 1 = 4") auto
  moreover have "(4 * c + e + 1) mod 100 = 0 \<longleftrightarrow> c = 24 \<and> e = 3"
    using assms(2,3) by (cases "4 * c + e + 1 = 100") (auto, presburger+)
  moreover have "(100 * b + 4 * c + e + 1) mod 400 = 0 \<longleftrightarrow> b = 3 \<and> c = 24 \<and> e = 3"
  proof (cases "100 * b + 4 * c + e + 1 = 400")
    case True
    then have "b = 3" using assms by linarith
    moreover have "c = 24" using True assms calculation by linarith
    ultimately show ?thesis using True by simp
  next
    case False
    then have "100 * b + 4 * c + e + 1 < 400" using assms by linarith
    then have "(100 * b + 4 * c + e + 1) mod 400 = 100 * b + 4 * c + e + 1" by (rule mod_less)
    then show ?thesis using False by auto
  qed
  ultimately show ?thesis by (auto simp: leap_year_def)
qed

lemma month_lengths_sum [simp]: "sum_list (month_lengths leap) = (if leap then 366 else 365)"
  by (simp add: month_lengths_def)

lemma year_day_inverse:
  assumes "year_day n = (Y, d)"
  shows "days_before Y + d = n \<and> d < sum_list (month_lengths (leap_year (Suc Y)))"
proof -
  define a where "a = n div 146097"
  define r1 where "r1 = n mod 146097"
  define b where "b = min (r1 div 36524) 3"
  define r2 where "r2 = r1 - 36524 * b"
  define c where "c = r2 div 1461"
  define r3 where "r3 = r2 mod 1461"
  define e where "e = min (r3 div 365) 3"
  have Y: "Y = 400 * a + 100 * b + 4 * c + e" and d: "d = r3 - 365 * e"
    using assms by (simp_all add: year_day_def Let_def a_def r1_def b_def r2_def c_def r3_def e_def)
  have "n = 146097 * a + r1" unfolding a_def r1_def by (rule mult_div_mod_eq [symmetric])
  moreover have "r1 < 146097" unfolding r1_def by (rule mod_less_divisor) simp
  ultimately have n: "n = 146097 * a + r1" "r1 < 146097" .
  from year_day_parts [OF n b_def r2_def c_def r3_def e_def d] Y
    days_before_parts [of b c e a] leap_year_parts [of b c e a]
  show ?thesis by auto
qed

lemma days_before_step:
  fixes y :: nat
  assumes "k \<le> Suc j" "p \<le> p1" "q1 \<le> q2"
  shows "y + p - j + q1 \<le> 365 + y + p1 - k + q2"
  using assms by (cases "j \<le> y + p") simp_all

lemma days_before_Suc: "days_before Y \<le> days_before (Suc Y)"
proof -
  have "Suc Y div 100 \<le> Suc (Y div 100)" and "Y div 4 \<le> Suc Y div 4" and "Y div 400 \<le> Suc Y div 400"
    by (simp_all add: div_le_mono)
  from days_before_step [OF this, of "365 * Y"] show ?thesis unfolding days_before_def mult_Suc_right .
qed

lemma days_before_bound:
  assumes "days_before Y \<le> n" and "n < 3652059"
  shows "Y < 9999"
proof (rule ccontr)
  assume "\<not> Y < 9999"
  then have "days_before 9999 \<le> days_before Y"
    using lift_Suc_mono_le [of days_before, OF days_before_Suc] by simp
  with assms show False by (simp add: days_before_def)
qed

section \<open>Printing and parsing\<close>

definition dec2 :: "nat \<Rightarrow> string" where
  "dec2 n = [char_of (48 + n div 10), char_of (48 + n mod 10)]"

definition dec4 :: "nat \<Rightarrow> string" where
  "dec4 n = dec2 (n div 100) @ dec2 (n mod 100)"

text \<open>The nanoseconds of a second, without trailing zeros.\<close>

definition fraction :: "nat \<Rightarrow> string" where
  "fraction ns =
     (if ns = 0 then []
      else CHR ''.'' # rev (dropWhile (\<lambda>c. c = CHR ''0'')
        (rev (map (\<lambda>k. char_of (48 + (ns div 10 ^ (8 - k)) mod 10)) [0..<9]))))"

text \<open>719162 days lie between the first day of year 1 and the Unix epoch.\<close>

definition rfc3339 :: "time \<Rightarrow> string" where
  "rfc3339 t =
     (let secs = t div 1000000000; ns = nat (t mod 1000000000);
          day = nat (secs div 86400 + 719162); sec = nat (secs mod 86400);
          (Y, d) = year_day day; (m, x) = month_day (month_lengths (leap_year (Suc Y))) d
      in dec4 (Suc Y) @ ''-'' @ dec2 (Suc m) @ ''-'' @ dec2 (Suc x) @ ''T'' @ dec2 (sec div 3600) @ '':''
         @ dec2 (sec div 60 mod 60) @ '':'' @ dec2 (sec mod 60) @ fraction ns @ ''Z'')"

definition digit_value :: "char \<Rightarrow> nat" where
  "digit_value c = byte c - 48"

definition read_dec :: "string \<Rightarrow> nat option" where
  "read_dec s =
     (if list_all digit s then Some (foldl (\<lambda>n c. 10 * n + digit_value c) 0 s) else None)"

text \<open>A number of \<open>n\<close> digits between two bounds, and the text after it.\<close>

definition read_field :: "nat \<Rightarrow> nat \<Rightarrow> nat \<Rightarrow> string \<Rightarrow> (nat \<times> string) option" where
  "read_field n lo hi s =
     (if length s < n then None
      else case read_dec (take n s) of
        None \<Rightarrow> None | Some v \<Rightarrow> if lo \<le> v \<and> v \<le> hi then Some (v, drop n s) else None)"

definition read_char :: "char \<Rightarrow> string \<Rightarrow> string option" where
  "read_char c s = (case s of d # r \<Rightarrow> if d = c then Some r else None | [] \<Rightarrow> None)"

text \<open>An optional fraction: a dot and digits, of which nine count.\<close>

definition read_fraction :: "string \<Rightarrow> int \<times> string" where
  "read_fraction s =
     (case s of
        c # r \<Rightarrow>
          if c = CHR ''.'' \<and> r \<noteq> [] \<and> digit (hd r)
          then (let ds = takeWhile digit r
                in (int (the (read_dec (take 9 (ds @ replicate 9 (CHR ''0''))))), dropWhile digit r))
          else (0, s)
      | [] \<Rightarrow> (0, []))"

text \<open>The offset from UTC in seconds; nothing may follow it.\<close>

definition read_zone :: "string \<Rightarrow> int option" where
  "read_zone s =
     (if s = ''Z'' then Some 0
      else case s of
        c # r \<Rightarrow>
          if c \<noteq> CHR ''+'' \<and> c \<noteq> CHR ''-'' then None
          else Option.bind (read_field 2 0 23 r) (\<lambda>(hh, r1). Option.bind (read_char CHR '':'' r1) (\<lambda>r2.
               Option.bind (read_field 2 0 59 r2) (\<lambda>(mm, r3).
               if r3 \<noteq> [] then None
               else Some ((if c = CHR ''-'' then - 1 else 1) * (int hh * 3600 + int mm * 60)))))
      | [] \<Rightarrow> None)"

definition unix_of :: "nat \<Rightarrow> nat \<Rightarrow> nat \<Rightarrow> nat \<Rightarrow> int" where
  "unix_of y m x sec =
     (int (sum_list (take (m - 1) (month_lengths (leap_year y))) + (x - 1))
      + (if y = 0 then - 366 else int (days_before (y - 1))) - 719162) * 86400 + int sec"

definition parse_rfc3339 :: "string \<Rightarrow> time option" where
  "parse_rfc3339 s =
     Option.bind (read_field 4 0 9999 s) (\<lambda>(y, s). Option.bind (read_char CHR ''-'' s) (\<lambda>s.
     Option.bind (read_field 2 1 12 s) (\<lambda>(m, s). Option.bind (read_char CHR ''-'' s) (\<lambda>s.
     Option.bind (read_field 2 1 (month_lengths (leap_year y) ! (m - 1)) s) (\<lambda>(x, s).
     Option.bind (read_char CHR ''T'' s) (\<lambda>s.
     Option.bind (read_field 2 0 23 s) (\<lambda>(hh, s). Option.bind (read_char CHR '':'' s) (\<lambda>s.
     Option.bind (read_field 2 0 59 s) (\<lambda>(mm, s). Option.bind (read_char CHR '':'' s) (\<lambda>s.
     Option.bind (read_field 2 0 59 s) (\<lambda>(ss, s).
     case read_fraction s of (ns, s) \<Rightarrow>
     Option.bind (read_zone s) (\<lambda>off.
     Some ((unix_of y m x (3600 * hh + 60 * mm + ss) - off) * 1000000000 + ns)))))))))))))"

section \<open>The round trip\<close>

lemma byte_digit: "n < 10 \<Longrightarrow> byte (char_of (48 + n)) = 48 + n"
  by simp

lemma dec2_digits: "n < 100 \<Longrightarrow> list_all digit (dec2 n)"
  by (simp add: dec2_def digit_def) presburger

lemma read_dec2: "n < 100 \<Longrightarrow> read_dec (dec2 n) = Some n"
  using dec2_digits [of n] by (simp add: read_dec_def) (simp add: dec2_def digit_value_def)

lemma read_field_dec2:
  "n < 100 \<Longrightarrow> lo \<le> n \<Longrightarrow> n \<le> hi \<Longrightarrow> read_field 2 lo hi (dec2 n @ r) = Some (n, r)"
  using read_dec2 [of n] by (simp add: read_field_def) (simp add: dec2_def)

lemma read_dec4: "n < 10000 \<Longrightarrow> read_dec (dec4 n) = Some n"
  using dec2_digits [of "n div 100"] dec2_digits [of "n mod 100"]
  by (simp add: read_dec_def dec4_def) (simp add: dec2_def digit_value_def)

lemma read_field_dec4: "n < 10000 \<Longrightarrow> read_field 4 0 9999 (dec4 n @ r) = Some (n, r)"
  using read_dec4 [of n] by (simp add: read_field_def dec4_def) (simp add: dec2_def)

lemma read_char_Cons [simp]: "read_char c (c # r) = Some r"
  by (simp add: read_char_def)

lemma month_length_two_digits: "ls = month_lengths l \<Longrightarrow> m < length ls \<Longrightarrow> ls ! m \<le> 31"
  by (auto simp: month_lengths_def less_Suc_eq nth_Cons')

lemma rfc3339_fields:
  assumes "0 \<le> s" and "s \<le> 253402300799"
  obtains Y m x sec where
    "rfc3339 (seconds s) = dec4 (Suc Y) @ CHR ''-'' # dec2 (Suc m) @ CHR ''-'' # dec2 (Suc x) @ CHR ''T'' #
      dec2 (sec div 3600) @ CHR '':'' # dec2 (sec div 60 mod 60) @ CHR '':'' # dec2 (sec mod 60) @ ''Z''"
    "Suc Y < 10000" "m < 12" "x < month_lengths (leap_year (Suc Y)) ! m" "Suc x \<le> 31"
    "sec div 3600 < 24" "sec div 60 mod 60 < 60" "sec mod 60 < 60" "unix_of (Suc Y) (Suc m) (Suc x) sec = s"
proof -
  define day sec where "day = nat (s div 86400 + 719162)" and "sec = nat (s mod 86400)"
  obtain Y d where yd: "year_day day = (Y, d)" by (cases "year_day day")
  obtain m x where mx: "month_day (month_lengths (leap_year (Suc Y))) d = (m, x)"
    by (cases "month_day (month_lengths (leap_year (Suc Y))) d")
  note cal = year_day_inverse [OF yd]
  have md: "m < 12" "x < month_lengths (leap_year (Suc Y)) ! m"
    "sum_list (take m (month_lengths (leap_year (Suc Y)))) + x = d"
    using month_day_inverse [OF _ mx] cal by (auto simp: month_lengths_def)
  have "m < length (month_lengths (leap_year (Suc Y)))" using md(1) by (simp add: month_lengths_def)
  with md(2) month_length_two_digits [OF HOL.refl this] have x: "Suc x \<le> 31" by linarith
  have "s div 86400 \<le> 253402300799 div 86400" using assms(2) by (rule zdiv_mono1) simp
  then have "s div 86400 \<le> 2932896" by simp
  then have "day < 3652059" using assms(1) by (auto simp: day_def)
  then have y: "Suc Y < 10000" using days_before_bound [of Y day] cal by auto
  have "sec < 86400" by (simp add: sec_def nat_less_iff)
  then have sec: "sec div 3600 < 24" "sec div 60 mod 60 < 60" "sec mod 60 < 60" by simp_all
  have print: "rfc3339 (seconds s) = dec4 (Suc Y) @ CHR ''-'' # dec2 (Suc m) @ CHR ''-'' # dec2 (Suc x) @ CHR ''T'' #
      dec2 (sec div 3600) @ CHR '':'' # dec2 (sec div 60 mod 60) @ CHR '':'' # dec2 (sec mod 60) @ ''Z''"
    using yd mx by (simp add: rfc3339_def seconds_def Let_def fraction_def day_def sec_def)
  have unix: "unix_of (Suc Y) (Suc m) (Suc x) sec = s"
  proof -
    have "int (days_before Y) + int d = s div 86400 + 719162"
      using cal assms(1) by (simp add: day_def flip: of_nat_add)
    moreover have "unix_of (Suc Y) (Suc m) (Suc x) sec = (int d + int (days_before Y) - 719162) * 86400 + s mod 86400"
      using md(3) by (simp add: unix_of_def sec_def)
    moreover have "int d + int (days_before Y) - 719162 = s div 86400" using calculation(1) by linarith
    ultimately show ?thesis by simp
  qed
  show ?thesis by (rule that [OF print y md(1,2) x sec unix])
qed

lemma rfc3339_roundtrip:
  assumes "0 \<le> s" and "s \<le> 253402300799"
  shows "parse_rfc3339 (rfc3339 (seconds s)) = Some (seconds s)"
proof -
  obtain Y m x sec where print:
    "rfc3339 (seconds s) = dec4 (Suc Y) @ CHR ''-'' # dec2 (Suc m) @ CHR ''-'' # dec2 (Suc x) @ CHR ''T'' #
      dec2 (sec div 3600) @ CHR '':'' # dec2 (sec div 60 mod 60) @ CHR '':'' # dec2 (sec mod 60) @ ''Z''"
    and bounds: "Suc Y < 10000" "m < 12" "x < month_lengths (leap_year (Suc Y)) ! m" "Suc x \<le> 31"
      "sec div 3600 < 24" "sec div 60 mod 60 < 60" "sec mod 60 < 60"
    and unix: "unix_of (Suc Y) (Suc m) (Suc x) sec = s"
    by (rule rfc3339_fields [OF assms])
  have "3600 * (sec div 3600) + 60 * (sec div 60 mod 60) + sec mod 60 = sec"
  proof -
    have "sec = 60 * (sec div 60) + sec mod 60" and "sec div 60 = 60 * (sec div 60 div 60) + sec div 60 mod 60" by simp_all
    moreover have "sec div 60 div 60 = sec div 3600" by (simp add: div_mult2_eq [symmetric])
    ultimately show ?thesis by linarith
  qed
  with unix show ?thesis
    unfolding parse_rfc3339_def print using bounds
    by (simp add: read_field_dec2 read_field_dec4 read_fraction_def read_zone_def seconds_def)
qed

lemma ascii_dec2: "n < 100 \<Longrightarrow> ascii (dec2 n)"
  using dec2_digits [of n] by (auto simp: ascii_def digit_def list_all_iff)

lemma ascii_rfc3339:
  assumes "0 \<le> s" and "s \<le> 253402300799"
  shows "ascii (rfc3339 (seconds s))"
proof -
  obtain Y m x sec where print:
    "rfc3339 (seconds s) = dec4 (Suc Y) @ CHR ''-'' # dec2 (Suc m) @ CHR ''-'' # dec2 (Suc x) @ CHR ''T'' #
      dec2 (sec div 3600) @ CHR '':'' # dec2 (sec div 60 mod 60) @ CHR '':'' # dec2 (sec mod 60) @ ''Z''"
    and "Suc Y < 10000" "m < 12" "x < month_lengths (leap_year (Suc Y)) ! m" "Suc x \<le> 31"
      "sec div 3600 < 24" "sec div 60 mod 60 < 60" "sec mod 60 < 60" "unix_of (Suc Y) (Suc m) (Suc x) sec = s"
    by (rule rfc3339_fields [OF assms])
  then have "Suc Y div 100 < 100" "Suc Y mod 100 < 100" "Suc m < 100" "Suc x < 100" "sec div 3600 < 100"
    "sec div 60 mod 60 < 100" "sec mod 60 < 100" by simp_all
  from this [THEN ascii_dec2] show ?thesis unfolding print dec4_def by (simp del: of_nat_Suc)
qed

end
