(* ===== verification/Json_Utf8.thy ===== *)
theory Json_Utf8
  imports Json
begin

text \<open>
  Quoting and unquoting any valid UTF-8 text: runes of more than one byte decode and encode back to the same
  bytes, so \<open>json_quote\<close> loses nothing.
\<close>

lemma mod64: "b < 64 \<Longrightarrow> (a * 64 + b) mod 64 = (b :: nat)"
  by simp

lemma rune2:
  fixes x y :: nat
  assumes "x < 32" "2 \<le> x" "y < 64"
  shows "128 \<le> x * 64 + y" "x * 64 + y < 2048" "(x * 64 + y) div 64 = x" "(x * 64 + y) mod 64 = y"
  using assms by auto

lemma rune3:
  fixes x y z :: nat
  assumes "x < 16" "y < 64" "z < 64"
  shows "x * 4096 + y * 64 + z < 65536" "(x * 4096 + y * 64 + z) div 4096 = x"
    "(x * 4096 + y * 64 + z) div 64 mod 64 = y" "(x * 4096 + y * 64 + z) mod 64 = z"
proof -
  have low: "y * 64 + z < 4096" using assms by simp
  have d: "(x * 4096 + y * 64 + z) div 64 = x * 64 + y" using assms by simp
  show "x * 4096 + y * 64 + z < 65536" using assms by simp
  show "(x * 4096 + y * 64 + z) div 4096 = x" using low by (simp add: add.assoc)
  show "(x * 4096 + y * 64 + z) div 64 mod 64 = y" unfolding d using assms by simp
  have e: "x * 4096 + y * 64 + z = (x * 64 + y) * 64 + z" by simp
  show "(x * 4096 + y * 64 + z) mod 64 = z" unfolding e by (rule mod64 [OF assms(3)])
qed

lemma rune4:
  fixes w x y z :: nat
  assumes "w < 8" "x < 64" "y < 64" "z < 64"
  shows "(w * 262144 + x * 4096 + y * 64 + z) div 262144 = w"
    "(w * 262144 + x * 4096 + y * 64 + z) div 4096 mod 64 = x"
    "(w * 262144 + x * 4096 + y * 64 + z) div 64 mod 64 = y"
    "(w * 262144 + x * 4096 + y * 64 + z) mod 64 = z"
proof -
  have low: "x * 4096 + y * 64 + z < 262144" "y * 64 + z < 4096" using assms by simp_all
  have d1: "(w * 262144 + x * 4096 + y * 64 + z) div 4096 = w * 64 + x"
  proof -
    have "w * 262144 + x * 4096 + y * 64 + z = (w * 64 + x) * 4096 + (y * 64 + z)" by simp
    show ?thesis unfolding \<open>w * 262144 + x * 4096 + y * 64 + z = (w * 64 + x) * 4096 + (y * 64 + z)\<close> using low(2) by simp
  qed
  have d2: "(w * 262144 + x * 4096 + y * 64 + z) div 64 = (w * 4096 + x * 64) + y" using assms by simp
  show "(w * 262144 + x * 4096 + y * 64 + z) div 262144 = w" using low(1) by (simp add: add.assoc)
  show "(w * 262144 + x * 4096 + y * 64 + z) div 4096 mod 64 = x" unfolding d1 using assms by simp
  show "(w * 262144 + x * 4096 + y * 64 + z) div 64 mod 64 = y" 
  proof -
    have e: "w * 4096 + x * 64 + y = (w * 64 + x) * 64 + y" by simp
    show ?thesis unfolding d2 e by (rule mod64 [OF assms(3)])
  qed
  have e: "w * 262144 + x * 4096 + y * 64 + z = (w * 4096 + x * 64 + y) * 64 + z" by simp
  show "(w * 262144 + x * 4096 + y * 64 + z) mod 64 = z" unfolding e by (rule mod64 [OF assms(4)])
qed

lemma char_of_eqI: "byte c = n \<Longrightarrow> char_of n = c"
  by auto

lemma cont_offset: "cont c \<Longrightarrow> \<exists>q < 64. byte c = 128 + q"
  by (intro exI [of _ "byte c - 128"]) (auto simp: cont_def)

lemma wide_rune2:
  assumes "194 \<le> byte a" "byte a \<le> 223" "cont b"
  obtains r where "\<forall>t. decode_rune (a # b # t) = (r, 2)" "encode_rune r = [a, b]"
proof -
  obtain q where q: "q < 64" "byte b = 128 + q" using cont_offset [OF assms(3)] by blast
  obtain p where p: "byte a = 192 + p" "2 \<le> p" "p < 32"
    using assms(1,2) by (intro that [of "byte a - 192"]) auto
  note r = rune2 [OF p(3,2) q(1)]
  show ?thesis
  proof (rule that)
    show "\<forall>t. decode_rune (a # b # t) = (p * 64 + q, 2)"
      using assms p q by (simp add: decode_rune_def)
    show "encode_rune (p * 64 + q) = [a, b]"
      unfolding encode_rune_def r(3,4) using r(1,2) char_of_eqI [OF p(1)] char_of_eqI [OF q(2)] by simp
  qed
qed

lemma wide_rune3:
  assumes "224 \<le> byte a" "byte a \<le> 239" "cont b" "cont c" "byte a = 224 \<longrightarrow> 160 \<le> byte b" "byte a = 237 \<longrightarrow> byte b \<le> 159"
  obtains r where "\<forall>t. decode_rune (a # b # c # t) = (r, 3)" "encode_rune r = [a, b, c]"
proof -
  obtain x where x: "x < 64" "byte b = 128 + x" using cont_offset [OF assms(3)] by blast
  obtain y where y: "y < 64" "byte c = 128 + y" using cont_offset [OF assms(4)] by blast
  obtain p where p: "byte a = 224 + p" "p < 16"
    using assms(1,2) by (intro that [of "byte a - 224"]) auto
  note r = rune3 [OF p(2) x(1) y(1)]
  have lo: "2048 \<le> p * 4096 + x * 64 + y" using assms(5) p(1) x(2) by (cases p) auto
  have hi: "\<not> (55296 \<le> p * 4096 + x * 64 + y \<and> p * 4096 + x * 64 + y \<le> 57343)"
  proof -
    consider "p < 13" | "p = 13" | "13 < p" by linarith
    then show ?thesis using assms(6) p(1) x y(1) by cases auto
  qed
  show ?thesis
  proof (rule that)
    show "\<forall>t. decode_rune (a # b # c # t) = (p * 4096 + x * 64 + y, 3)"
      using assms p x y by (simp add: decode_rune_def)
    show "encode_rune (p * 4096 + x * 64 + y) = [a, b, c]"
      unfolding encode_rune_def r(2,3,4)
      using lo hi r(1) char_of_eqI [OF p(1)] char_of_eqI [OF x(2)] char_of_eqI [OF y(2)] by auto
  qed
qed

lemma wide_rune4:
  assumes "240 \<le> byte a" "byte a \<le> 244" "cont b" "cont c" "cont d" "byte a = 240 \<longrightarrow> 144 \<le> byte b" "byte a = 244 \<longrightarrow> byte b \<le> 143"
  obtains r where "\<forall>t. decode_rune (a # b # c # d # t) = (r, 4)" "encode_rune r = [a, b, c, d]"
proof -
  obtain x where x: "x < 64" "byte b = 128 + x" using cont_offset [OF assms(3)] by blast
  obtain y where y: "y < 64" "byte c = 128 + y" using cont_offset [OF assms(4)] by blast
  obtain z where z: "z < 64" "byte d = 128 + z" using cont_offset [OF assms(5)] by blast
  obtain p where p: "byte a = 240 + p" "p \<le> 4"
    using assms(1,2) by (intro that [of "byte a - 240"]) auto
  then have "p < 8" by simp
  note r = rune4 [OF this x(1) y(1) z(1)]
  have lo: "65536 \<le> p * 262144 + x * 4096 + y * 64 + z" using assms(6) p(1) x(2) by (cases p) auto
  have hi: "p * 262144 + x * 4096 + y * 64 + z < 1114112"
    using assms(7) p x y(1) z(1) by (cases "p = 4") auto
  show ?thesis
  proof (rule that)
    show "\<forall>t. decode_rune (a # b # c # d # t) = (p * 262144 + x * 4096 + y * 64 + z, 4)"
      using assms p x y z by (simp add: decode_rune_def)
    show "encode_rune (p * 262144 + x * 4096 + y * 64 + z) = [a, b, c, d]"
      unfolding encode_rune_def r
      using lo hi char_of_eqI [OF p(1)] char_of_eqI [OF x(2)] char_of_eqI [OF y(2)] char_of_eqI [OF z(2)] by simp
  qed
qed

text \<open>A valid rune of several bytes: its bytes, and what decoding and encoding make of them.\<close>

lemma wide_rune:
  assumes "128 \<le> byte a" "decode_rune (a # s) = (r, w)" "\<not> (r = rune_error \<and> w = 1)"
  obtains m t where "s = m @ t" "w = Suc (length m)" "encode_rune r = a # m" "\<forall>x\<in>set (a # m). 128 \<le> byte x"
    "\<And>u. decode_rune (a # m @ u) = (r, w)"
proof -
  consider b t where "s = b # t" "194 \<le> byte a" "byte a \<le> 223" "cont b"
  | b c t where "s = b # c # t" "224 \<le> byte a" "byte a \<le> 239" "cont b" "cont c"
      "byte a = 224 \<longrightarrow> 160 \<le> byte b" "byte a = 237 \<longrightarrow> byte b \<le> 159"
  | b c d t where "s = b # c # d # t" "240 \<le> byte a" "byte a \<le> 244" "cont b" "cont c" "cont d"
      "byte a = 240 \<longrightarrow> 144 \<le> byte b" "byte a = 244 \<longrightarrow> byte b \<le> 143"
    using assms by (auto simp: decode_rune_def Let_def split: list.splits if_splits)
  then show ?thesis
  proof cases
    case 1
    from wide_rune2 [OF 1(2-4)] obtain k where k: "\<forall>t. decode_rune (a # b # t) = (k, 2)" "encode_rune k = [a, b]" by blast
    show ?thesis by (rule that [of "[b]" t]) (use 1 k assms(1,2) in \<open>auto simp: cont_def\<close>)
  next
    case 2
    from wide_rune3 [OF 2(2-7)] obtain k where k: "\<forall>t. decode_rune (a # b # c # t) = (k, 3)" "encode_rune k = [a, b, c]" by blast
    show ?thesis by (rule that [of "[b, c]" t]) (use 2 k assms(1,2) in \<open>auto simp: cont_def\<close>)
  next
    case 3
    from wide_rune4 [OF 3(2-8)] obtain k where k: "\<forall>t. decode_rune (a # b # c # d # t) = (k, 4)" "encode_rune k = [a, b, c, d]" by blast
    show ?thesis by (rule that [of "[b, c, d]" t]) (use 3 k assms(1,2) in \<open>auto simp: cont_def\<close>)
  qed
qed

section \<open>One step of quoting\<close>

lemma scan_str_wide:
  "\<forall>x\<in>set m. 128 \<le> byte x \<Longrightarrow> scan_str (m @ t) = map_option (\<lambda>(a, r). (m @ a, r)) (scan_str t)"
proof (induction m)
  case Nil
  then show ?case by (cases "scan_str t") auto
next
  case (Cons x m)
  have "x \<noteq> QUOTE" "x \<noteq> BACKSLASH" "\<not> byte x < 32" using Cons.prems by auto
  with Cons show ?case by (cases "scan_str t") (auto simp: Let_def)
qed

lemma unquote_wide:
  assumes "128 \<le> byte a" "encode_rune r = a # m" "decode_rune (a # m @ u) = (r, Suc (length m))"
  shows "unquote (a # m @ u) = a # m @ unquote u"
proof -
  have "unquote_step (a # m @ u) = (a # m, Suc (length m))"
    using assms by (auto simp: unquote_step_def)
  then show ?thesis by (subst unquote.simps) simp
qed

lemma unquote_separator:
  "unquote (BACKSLASH # ''u2028'' @ t) = encode_rune 8232 @ unquote t"
  "unquote (BACKSLASH # ''u2029'' @ t) = encode_rune 8233 @ unquote t"
proof -
  have "get_u4 (BACKSLASH # ''u2028'' @ t) = Some 8232" "get_u4 (BACKSLASH # ''u2029'' @ t) = Some 8233"
    by (simp_all add: get_u4_def is_hex_def hex4_def hex_value_def)
  then have "unquote_step (BACKSLASH # ''u2028'' @ t) = (encode_rune 8232, 6)"
    "unquote_step (BACKSLASH # ''u2029'' @ t) = (encode_rune 8233, 6)"
    by (simp_all add: unquote_step_def surrogate_def)
  then show "unquote (BACKSLASH # ''u2028'' @ t) = encode_rune 8232 @ unquote t"
    "unquote (BACKSLASH # ''u2029'' @ t) = encode_rune 8233 @ unquote t"
    by (subst unquote.simps; simp)+
qed

lemma scan_separator:
  "scan_str (BACKSLASH # ''u2028'' @ t) = map_option (\<lambda>(a, r). (BACKSLASH # ''u2028'' @ a, r)) (scan_str t)"
  "scan_str (BACKSLASH # ''u2029'' @ t) = map_option (\<lambda>(a, r). (BACKSLASH # ''u2029'' @ a, r)) (scan_str t)"
  by (simp_all add: is_hex_def hex_value_def simple_escapes_def)

lemma quote_step_valid:
  assumes "utf8_valid s" "s \<noteq> []"
  obtains x t where "s = x @ t" "utf8_valid t" "snd (quote_step s) = length x"
    "\<And>u. unquote (fst (quote_step s) @ u) = x @ unquote u"
    "\<And>u. scan_str (fst (quote_step s) @ u) = map_option (\<lambda>(a, r). (fst (quote_step s) @ a, r)) (scan_str u)"
proof -
  obtain a s1 where s: "s = a # s1" using assms(2) by (cases s) auto
  show ?thesis
  proof (cases "byte a < 128")
    case True
    then have q: "quote_step s = (quote_char a, 1)" by (simp add: quote_step_def s)
    show ?thesis
      by (rule that [of "[a]" s1]) (use assms True q s in \<open>simp_all add: unquote_quote_char scan_quote_char\<close>)
  next
    case False
    obtain r w where d: "decode_rune s = (r, w)" by (cases "decode_rune s")
    have ok: "\<not> (r = rune_error \<and> w = 1)" and v: "utf8_valid (drop w s)"
      using assms d by (subst (asm) utf8_valid.simps; auto split: if_splits)+
    from False d ok s obtain m t where m: "s1 = m @ t" "w = Suc (length m)" "encode_rune r = a # m"
        "\<forall>x\<in>set (a # m). 128 \<le> byte x" "\<And>u. decode_rune (a # m @ u) = (r, w)"
      using wide_rune [of a s1 r w] by auto
    have t: "utf8_valid t" using v s m by simp
    consider "r = 8232" | "r = 8233" | "r \<noteq> 8232" "r \<noteq> 8233" by blast
    then show ?thesis
    proof cases
      case 1
      have "length (encode_rune 8232) = 3" by (simp add: encode_rune_def)
      then have "w = 3" using m 1 by simp
      then have q: "quote_step s = (BACKSLASH # ''u2028'', 3)"
        using False d ok 1 by (simp add: quote_step_def s rune_error_def)
      show ?thesis
        by (rule that [of "a # m" t])
          (use s m t q \<open>w = 3\<close> 1 unquote_separator(1) scan_separator(1) in \<open>auto\<close>)
    next
      case 2
      have "length (encode_rune 8233) = 3" by (simp add: encode_rune_def)
      then have "w = 3" using m 2 by simp
      then have q: "quote_step s = (BACKSLASH # ''u2029'', 3)"
        using False d ok 2 by (simp add: quote_step_def s rune_error_def)
      show ?thesis
        by (rule that [of "a # m" t])
          (use s m t q \<open>w = 3\<close> 2 unquote_separator(2) scan_separator(2) in \<open>auto\<close>)
    next
      case 3
      have q: "quote_step s = (a # m, length (a # m))"
        using False d ok 3 m by (auto simp: quote_step_def s)
      show ?thesis
      proof (rule that [of "a # m" t])
        show "unquote (fst (quote_step s) @ u) = (a # m) @ unquote u" for u
          using unquote_wide [of a r m u] False m by (simp add: q)
        show "scan_str (fst (quote_step s) @ u) = map_option (\<lambda>(x, r). (fst (quote_step s) @ x, r)) (scan_str u)" for u
          using scan_str_wide [OF m(4), of u] by (simp add: q)
      qed (use s m t q in auto)
    qed
  qed
qed

lemma quote_raw_valid:
  "utf8_valid s \<Longrightarrow> unquote (quote_raw s) = s \<and> scan_str (quote_raw s @ QUOTE # r) = Some (quote_raw s, r)"
proof (induction "length s" arbitrary: s rule: less_induct)
  case less
  show ?case
  proof (cases "s = []")
    case False
    from quote_step_valid [OF less.prems False] obtain x t where
      s: "s = x @ t" "utf8_valid t" "snd (quote_step s) = length x"
      and u: "\<And>u. unquote (fst (quote_step s) @ u) = x @ unquote u"
      and sc: "\<And>u. scan_str (fst (quote_step s) @ u) = map_option (\<lambda>(a, r). (fst (quote_step s) @ a, r)) (scan_str u)"
      by blast
    have "0 < snd (quote_step s)" using False by (auto simp: quote_step_def split: list.splits prod.splits)
    then have "length t < length s" using s(1,3) by simp
    from less.hyps [OF this s(2)] have IH: "unquote (quote_raw t) = t" "scan_str (quote_raw t @ QUOTE # r) = Some (quote_raw t, r)"
      by blast+
    have "drop (snd (quote_step s)) s = t" unfolding s(3) using s(1) by simp
    then have q: "quote_raw s = fst (quote_step s) @ quote_raw t"
      using False by (subst quote_raw.simps) simp
    have "unquote (quote_raw s) = s" unfolding q u IH using s(1) by simp
    moreover have "scan_str (quote_raw s @ QUOTE # r) = Some (quote_raw s, r)"
      unfolding q append_assoc sc IH by simp
    ultimately show ?thesis ..
  qed simp
qed

lemma tokens_quote_valid:
  assumes "utf8_valid s"
  shows "tokens (json_quote s @ r) = map_option ((#) (TVal (JStr s))) (tokens r)"
  using quote_raw_valid [OF assms]
  by (simp add: json_quote_def json_space_def scan_token_def punct_def)

text \<open>A byte takes at most six bytes of quoted text.\<close>

lemma quote_step_length: "s \<noteq> [] \<Longrightarrow> length (fst (quote_step s)) \<le> 6 * length (take (snd (quote_step s)) s)"
proof -
  assume "s \<noteq> []"
  then obtain c cs where s: "s = c # cs" by (cases s) auto
  have q: "length (quote_char c) \<le> 6" by (simp add: quote_char_def u00_def)
  show ?thesis using q
    by (auto simp: quote_step_def s min_def split: prod.splits)
qed

lemma length_quote_raw: "length (quote_raw s) \<le> 6 * length s"
proof (induction "length s" arbitrary: s rule: less_induct)
  case less
  show ?case
  proof (cases "s = []")
    case False
    let ?n = "snd (quote_step s)"
    have "0 < ?n" using False by (auto simp: quote_step_def split: list.splits prod.splits)
    then have "length (drop ?n s) < length s" using False by (cases s) auto
    from less.hyps [OF this] have "length (quote_raw (drop ?n s)) \<le> 6 * length (drop ?n s)" .
    moreover have "length (take ?n s) + length (drop ?n s) = length s"
      by (metis append_take_drop_id length_append)
    moreover have "quote_raw s = fst (quote_step s) @ quote_raw (drop ?n s)" using False by (subst quote_raw.simps) simp
    ultimately show ?thesis using quote_step_length [OF False] by simp
  qed simp
qed

lemma length_json_quote: "length (json_quote s) \<le> 6 * length s + 2"
  using length_quote_raw [of s] by (simp add: json_quote_def)

lemma ascii_valid [simp]: "ascii s \<Longrightarrow> utf8_valid s"
  by (rule utf8_valid_all_ascii) (simp add: ascii_def list_all_iff)

end
