(* ===== verification/Json_Print.thy ===== *)
theory Json_Print
  imports Json_Value Json_Utf8
begin

text \<open>
  \<^verbatim>\<open>json.Marshal\<close> of structs: members in field order. Printing a tree of UTF-8 strings and parsing the text
  gives the tree back.
\<close>

fun json_print :: "json \<Rightarrow> string" where
  "json_print JNull = ''null''"
| "json_print (JBool b) = (if b then ''true'' else ''false'')"
| "json_print (JNum s) = s"
| "json_print (JStr s) = json_quote s"
| "json_print (JArr vs) = ''['' @ commas (map json_print vs) @ '']''"
| "json_print (JObj ms) = ''{'' @ commas (map (\<lambda>(k, v). json_quote k @ '':'' @ json_print v) ms) @ ''}''"

definition num_ok :: "string \<Rightarrow> bool" where
  "num_ok s = (case s of [] \<Rightarrow> False | c # cs \<Rightarrow> list_all digit cs \<and> digit c \<and> (c = CHR ''0'' \<longrightarrow> cs = []))"

fun printable :: "nat \<Rightarrow> json \<Rightarrow> bool" where
  "printable n (JNum s) = num_ok s"
| "printable n (JStr s) = utf8_valid s"
| "printable n (JArr vs) = (0 < n \<and> list_all (printable (n - 1)) vs)"
| "printable n (JObj ms) = (0 < n \<and> list_all (\<lambda>(k, v). utf8_valid k \<and> printable (n - 1) v) ms)"
| "printable n _ = True"

fun json_tokens :: "json \<Rightarrow> token list" where
  "json_tokens (JArr vs) =
     TOpenArr # (case map json_tokens vs of [] \<Rightarrow> [] | x # ys \<Rightarrow> x @ concat (map ((#) TComma) ys)) @ [TCloseArr]"
| "json_tokens (JObj ms) =
     TOpenObj # (case map (\<lambda>(k, v). TVal (JStr k) # TColon # json_tokens v) ms of
        [] \<Rightarrow> [] | x # ys \<Rightarrow> x @ concat (map ((#) TComma) ys)) @ [TCloseObj]"
| "json_tokens j = [TVal j]"

definition before :: "token list \<Rightarrow> token list option \<Rightarrow> token list option" where
  "before ts x = map_option ((@) ts) x"

lemma before_simps [simp]: "before [] x = x" "before a (before b x) = before (a @ b) x" "before a (Some b) = Some (a @ b)"
  by (cases x; simp add: before_def)+

lemma map_option_before: "map_option ((#) t) x = before [t] x"
  by (cases x) (simp_all add: before_def)

text \<open>A value is followed by the end of the text or a delimiter.\<close>

definition ends :: "string \<Rightarrow> bool" where
  "ends r \<longleftrightarrow> r = [] \<or> hd r \<in> set '',]}''"

lemma ends_simps [simp]: "ends []" "ends (CHR '','' # r)" "ends (CHR '']'' # r)" "ends (CHR ''}'' # r)"
  by (simp_all add: ends_def)

lemma scan_num_digits:
  "list_all digit cs \<Longrightarrow> ends r \<Longrightarrow> scan_num NInt (cs @ r) = Some (cs, r)"
proof (induction cs)
  case Nil
  then show ?case by (cases r) (auto simp: ends_def digit_def exp_mark_def)
qed simp

lemma scan_num_zero: "ends r \<Longrightarrow> scan_num NZero r = Some ([], r)"
  by (cases r) (auto simp: ends_def exp_mark_def)

lemma digit_not: "digit c \<Longrightarrow> byte k < 48 \<or> 57 < byte k \<Longrightarrow> c \<noteq> k"
  by (auto simp: digit_def)

lemma digit_plain:
  assumes "digit c"
  shows "\<not> json_space c" and "punct c = None" and "c \<noteq> QUOTE" and "c \<noteq> CHR ''-''" and "c \<noteq> CHR ''t''"
    and "c \<noteq> CHR ''f''" and "c \<noteq> CHR ''n''"
  using digit_not [OF assms] by (simp_all add: json_space_def punct_def)

lemma tokens_num:
  assumes "num_ok s" and "ends r"
  shows "tokens (s @ r) = before [(TVal (JNum s))] (tokens r)"
proof -
  obtain c cs where s: "s = c # cs" "list_all digit cs" "digit c" "c = CHR ''0'' \<longrightarrow> cs = []"
    using assms(1) by (auto simp: num_ok_def split: list.splits)
  have "scan_token c (cs @ r) = Some (TVal (JNum s), r)"
    using s digit_plain [OF s(3)] scan_num_digits [OF s(2) assms(2)] scan_num_zero [OF assms(2)]
    by (auto simp: scan_token_def)
  then show ?thesis using s digit_plain [OF s(3)] by (simp add: map_option_before)
qed

lemma tokens_words:
  "tokens (''null'' @ r) = before [(TVal JNull)] (tokens r)"
  "tokens (''true'' @ r) = before [(TVal (JBool True))] (tokens r)"
  "tokens (''false'' @ r) = before [(TVal (JBool False))] (tokens r)"
  by (simp_all add: json_space_def scan_token_def punct_def map_option_before)

declare tokens.simps(2) [simp del]

lemma tokens_puncts:
  "tokens (CHR ''{'' # r) = before [TOpenObj] (tokens r)" "tokens (CHR ''}'' # r) = before [TCloseObj] (tokens r)"
  "tokens (CHR ''['' # r) = before [TOpenArr] (tokens r)" "tokens (CHR '']'' # r) = before [TCloseArr] (tokens r)"
  "tokens (CHR '':'' # r) = before [TColon] (tokens r)" "tokens (CHR '','' # r) = before [TComma] (tokens r)"
  by (simp_all add: tokens_punct punct_def map_option_before)

definition prints :: "string \<Rightarrow> token list \<Rightarrow> bool" where
  "prints s ts \<longleftrightarrow> (\<forall>r. ends r \<longrightarrow> tokens (s @ r) = before ts (tokens r))"

lemma tokens_str: "utf8_valid s \<Longrightarrow> tokens (json_quote s @ r) = before [TVal (JStr s)] (tokens r)"
  by (simp add: tokens_quote_valid map_option_before)

lemma printsD: "prints s ts \<Longrightarrow> ends r \<Longrightarrow> tokens (s @ r) = before ts (tokens r)"
  by (simp add: prints_def)

lemma prints_more:
  "list_all2 prints ss tss \<Longrightarrow> ends r \<Longrightarrow>
     tokens (concat (map ((#) CHR '','') ss) @ r) = before (concat (map ((#) TComma) tss)) (tokens r)
     \<and> ends (concat (map ((#) CHR '','') ss) @ r)"
proof (induction ss tss rule: list_all2_induct)
  case Nil
  then show ?case by simp
next
  case (Cons s ss ts tss)
  then show ?case by (simp add: tokens_puncts printsD)
qed

lemma prints_commas:
  assumes "list_all2 prints ss tss" and "ends r"
  shows "tokens (commas ss @ r) =
    before (case tss of [] \<Rightarrow> [] | x # ys \<Rightarrow> x @ concat (map ((#) TComma) ys)) (tokens r)"
proof (cases ss)
  case Nil
  with assms show ?thesis by (simp add: commas_def)
next
  case (Cons s ss1)
  with assms(1) obtain ts tss1 where t: "tss = ts # tss1" "prints s ts" "list_all2 prints ss1 tss1"
    by (auto simp: list_all2_Cons1)
  with Cons printsD [OF t(2)] prints_more [OF t(3) assms(2)] show ?thesis
    by (simp add: commas_def)
qed

lemma json_print_tokens: "printable n j \<Longrightarrow> prints (json_print j) (json_tokens j)"
proof (induction n j rule: printable.induct)
  case (3 n vs)
  then have "list_all2 prints (map json_print vs) (map json_tokens vs)"
    by (auto simp: list_all2_conv_all_nth list_all_length)
  from prints_commas [OF this] show ?case
    by (simp add: prints_def tokens_puncts)
next
  case (4 n ms)
  have "prints (json_quote k @ '':'' @ json_print v) (TVal (JStr k) # TColon # json_tokens v)" if "(k, v) \<in> set ms" for k v
  proof -
    have "utf8_valid k" "prints (json_print v) (json_tokens v)"
      using 4 that by (auto simp: list_all_iff)
    then show ?thesis by (simp add: prints_def tokens_str tokens_puncts)
  qed
  then have "list_all2 prints (map (\<lambda>(k, v). json_quote k @ '':'' @ json_print v) ms)
      (map (\<lambda>(k, v). TVal (JStr k) # TColon # json_tokens v) ms)"
    by (auto simp: list_all2_conv_all_nth split: prod.splits) (metis nth_mem)
  from prints_commas [OF this] show ?case
    by (simp add: prints_def tokens_puncts)
qed (auto simp: prints_def tokens_num tokens_str tokens_words [simplified])

section \<open>Running the parser\<close>

text \<open>The tokens of a value are read as that value.\<close>

definition runs :: "nat \<Rightarrow> token list \<Rightarrow> json \<Rightarrow> bool" where
  "runs n ts j \<longleftrightarrow> (\<forall>m st us. (m = MValue \<or> m = MValueOrClose) \<longrightarrow> length st + n \<le> max_depth \<longrightarrow>
     json_run (m, st) (ts @ us) = (case finish_value j st of None \<Rightarrow> None | Some s \<Rightarrow> json_run s us))"

lemma runs_array_rest:
  assumes "\<forall>v\<in>set vs. runs n (json_tokens v) v" and "length st + Suc n \<le> max_depth"
  shows "json_run (MAfter, FArr acc # st) (concat (map ((#) TComma) (map json_tokens vs)) @ TCloseArr # us) =
    (case finish_value (JArr (rev acc @ vs)) st of None \<Rightarrow> None | Some s \<Rightarrow> json_run s us)"
  using assms
proof (induction vs arbitrary: acc)
  case (Cons v vs)
  have "json_run (MValue, FArr acc # st) (json_tokens v @ concat (map ((#) TComma) (map json_tokens vs)) @ TCloseArr # us) =
      json_run (MAfter, FArr (v # acc) # st) (concat (map ((#) TComma) (map json_tokens vs)) @ TCloseArr # us)"
    using Cons.prems by (simp add: runs_def)
  with Cons show ?case by simp
qed simp

lemma runs_object_rest:
  assumes "\<forall>(k, v)\<in>set ms. runs n (json_tokens v) v" and "length st + Suc n \<le> max_depth"
  shows "json_run (MAfter, FObj acc # st)
      (concat (map ((#) TComma) (map (\<lambda>(k, v). TVal (JStr k) # TColon # json_tokens v) ms)) @ TCloseObj # us) =
    (case finish_value (JObj (rev acc @ ms)) st of None \<Rightarrow> None | Some s \<Rightarrow> json_run s us)"
  using assms
proof (induction ms arbitrary: acc)
  case (Cons kv ms)
  obtain k v where kv: "kv = (k, v)" by (cases kv)
  have "json_run (MValue, FKey acc k # st) (json_tokens v @
        concat (map ((#) TComma) (map (\<lambda>(k, v). TVal (JStr k) # TColon # json_tokens v) ms)) @ TCloseObj # us) =
      json_run (MAfter, FObj ((k, v) # acc) # st)
        (concat (map ((#) TComma) (map (\<lambda>(k, v). TVal (JStr k) # TColon # json_tokens v) ms)) @ TCloseObj # us)"
    using Cons.prems by (simp add: runs_def kv)
  with Cons show ?case by (simp add: kv read_key_def)
qed simp

lemma json_tokens_run: "printable n j \<Longrightarrow> runs n (json_tokens j) j"
proof (induction n j rule: printable.induct)
  case (3 n vs)
  then have vs: "\<forall>v\<in>set vs. runs (n - 1) (json_tokens v) v" and n: "0 < n" by (auto simp: list_all_iff)
  show ?case unfolding runs_def
  proof (intro allI impI)
    fix m us and st :: "frame list" assume m: "m = MValue \<or> m = MValueOrClose" and d: "length st + n \<le> max_depth"
    have d1: "length st + Suc (n - 1) \<le> max_depth" using d n by simp
    have op: "json_step (m, st) TOpenArr = Some (MValueOrClose, FArr [] # st)"
      using m d n by (auto simp: read_value_def open_frame_def)
    show "json_run (m, st) (json_tokens (JArr vs) @ us) =
        (case finish_value (JArr vs) st of None \<Rightarrow> None | Some s \<Rightarrow> json_run s us)"
    proof (cases vs)
      case Nil
      with op show ?thesis by simp
    next
      case (Cons v ws)
      have "json_run (MValueOrClose, FArr [] # st) (json_tokens v @ concat (map ((#) TComma) (map json_tokens ws)) @ TCloseArr # us) =
          json_run (MAfter, FArr [v] # st) (concat (map ((#) TComma) (map json_tokens ws)) @ TCloseArr # us)"
        using vs d1 by (simp add: runs_def Cons)
      with op runs_array_rest [of ws "n - 1" st "[v]" us] vs d1 show ?thesis by (simp add: Cons)
    qed
  qed
next
  case (4 n ms)
  then have ms: "\<forall>(k, v)\<in>set ms. runs (n - 1) (json_tokens v) v" and n: "0 < n" by (auto simp: list_all_iff)
  show ?case unfolding runs_def
  proof (intro allI impI)
    fix m us and st :: "frame list" assume m: "m = MValue \<or> m = MValueOrClose" and d: "length st + n \<le> max_depth"
    have d1: "length st + Suc (n - 1) \<le> max_depth" using d n by simp
    have op: "json_step (m, st) TOpenObj = Some (MKeyOrClose, FObj [] # st)"
      using m d n by (auto simp: read_value_def open_frame_def)
    show "json_run (m, st) (json_tokens (JObj ms) @ us) =
        (case finish_value (JObj ms) st of None \<Rightarrow> None | Some s \<Rightarrow> json_run s us)"
    proof (cases ms)
      case Nil
      with op show ?thesis by simp
    next
      case (Cons kv ws)
      obtain k v where kv: "kv = (k, v)" by (cases kv)
      let ?rest = "concat (map ((#) TComma) (map (\<lambda>(k, v). TVal (JStr k) # TColon # json_tokens v) ws)) @ TCloseObj # us"
      have "json_run (MValue, FKey [] k # st) (json_tokens v @ ?rest) = json_run (MAfter, FObj [(k, v)] # st) ?rest"
        using ms d1 by (simp add: runs_def Cons kv)
      with op runs_object_rest [of ws "n - 1" st "[(k, v)]" us] ms d1 show ?thesis
        by (simp add: Cons kv read_key_def)
    qed
  qed
qed (auto simp: runs_def read_value_def)

theorem json_print_parse:
  assumes "printable n j" and "n \<le> max_depth"
  shows "json_parse (json_print j) = Some j"
proof -
  have "tokens (json_print j) = Some (json_tokens j)"
    using printsD [OF json_print_tokens [OF assms(1)], of "[]"] by simp
  moreover have "json_run (MValue, []) (json_tokens j) = Some j"
  proof -
    have "length ([] :: frame list) + n \<le> max_depth" using assms(2) by simp
    then have "json_run (MValue, []) (json_tokens j @ []) =
        (case finish_value j [] of None \<Rightarrow> None | Some s \<Rightarrow> json_run s [])"
      using json_tokens_run [OF assms(1)] unfolding runs_def by blast
    then show ?thesis by simp
  qed
  ultimately show ?thesis by (simp add: json_parse_def)
qed

end
