(* ===== verification/Vault.thy ===== *)
theory Vault
  imports Go_Errors
begin

text \<open>
  Package \<^verbatim>\<open>credentialstore\<close>: the \<^verbatim>\<open>Vault\<close> interface as a locale, and the Keychain that implements it
  (\<^verbatim>\<open>keychain_darwin.go\<close>, with its C helpers). The system's Security framework is the parameter of the
  locale \<open>keychain_api\<close>; its laws are the documented ones. A vault reads what was last written, and a write
  that fails changes nothing.
\<close>

section \<open>The interface\<close>

definition credential_MaxBytes :: int where "credential_MaxBytes = 512 * 1024"

definition Service :: string where "Service = ''com.bazzi.codex-switcher.accounts.v1''"

datatype vault_err = VNotFound | VUnavailable | VInvalid

record 'v vault =
  vRead :: "'v \<Rightarrow> (vault_err + string) \<times> 'v"
  vWrite :: "string \<Rightarrow> 'v \<Rightarrow> vault_err option \<times> 'v"

locale vault_laws =
  fixes V :: "'v vault" and view :: "'v \<Rightarrow> string option"
  assumes read_view: "vRead V v = (x, v1) \<Longrightarrow> view v1 = view v"
    and read_data: "vRead V v = (Inr d, v1) \<Longrightarrow> view v = Some d"
    and read_missing: "vRead V v = (Inl VNotFound, v1) \<Longrightarrow> view v = None"
    and write_data: "vWrite V d v = (None, v1) \<Longrightarrow> view v1 = Some d"
    and write_bound: "vWrite V d v = (None, v1) \<Longrightarrow> int (length d) \<le> credential_MaxBytes"
    and write_failed: "vWrite V d v = (Some e, v1) \<Longrightarrow> view v1 = view v"

section \<open>The Keychain\<close>

text \<open>\<^verbatim>\<open>OSStatus\<close> values the code tests for.\<close>

definition errSecSuccess :: int where "errSecSuccess = 0"
definition errSecItemNotFound :: int where "errSecItemNotFound = - 25300"
definition errSecDuplicateItem :: int where "errSecDuplicateItem = - 25299"
definition errSecDecode :: int where "errSecDecode = - 26275"
definition errSecAllocate :: int where "errSecAllocate = - 108"

lemmas os_status = errSecSuccess_def errSecItemNotFound_def errSecDuplicateItem_def errSecDecode_def errSecAllocate_def

text \<open>What \<^verbatim>\<open>SecItemCopyMatching\<close> leaves in its result.\<close>

datatype cf_object = CFNull | CFData string | CFOther

text \<open>The query dictionary: class generic password and account \<^verbatim>\<open>registry\<close> are fixed, the service varies.\<close>

record 'k sec_api =
  copy_matching :: "string \<Rightarrow> 'k \<Rightarrow> int \<times> cf_object \<times> 'k"
  item_add :: "string \<Rightarrow> string \<Rightarrow> 'k \<Rightarrow> int \<times> 'k"
  item_update :: "string \<Rightarrow> string \<Rightarrow> 'k \<Rightarrow> int \<times> 'k"
  item_delete :: "string \<Rightarrow> 'k \<Rightarrow> int \<times> 'k"
  malloc_ok :: "nat \<Rightarrow> 'k \<Rightarrow> bool"

definition read_secret :: "'k sec_api \<Rightarrow> string \<Rightarrow> int \<Rightarrow> 'k \<Rightarrow> int \<times> string \<times> 'k" where
  "read_secret A service max_bytes k =
     (case copy_matching A service k of (status, result, k1) \<Rightarrow>
        if status \<noteq> errSecSuccess then (status, [], k1)
        else case result of
          CFNull \<Rightarrow> (errSecDecode, [], k1)
        | CFOther \<Rightarrow> (errSecDecode, [], k1)
        | CFData d \<Rightarrow>
            if int (length d) \<le> 0 \<or> max_bytes < int (length d) then (errSecDecode, [], k1)
            else if \<not> malloc_ok A (length d) k1 then (errSecAllocate, [], k1)
            else (errSecSuccess, d, k1))"

definition write_secret :: "'k sec_api \<Rightarrow> string \<Rightarrow> string \<Rightarrow> 'k \<Rightarrow> int \<times> 'k" where
  "write_secret A service d k =
     (case item_add A service d k of (status, k1) \<Rightarrow>
        if status = errSecDuplicateItem then item_update A service d k1 else (status, k1))"

definition Keychain_Read :: "'k sec_api \<Rightarrow> string \<Rightarrow> 'k \<Rightarrow> (vault_err + string) \<times> 'k" where
  "Keychain_Read A service k =
     (case read_secret A service credential_MaxBytes k of (status, d, k1) \<Rightarrow>
        (if status = errSecItemNotFound then Inl VNotFound
         else if status \<noteq> errSecSuccess then Inl VUnavailable else Inr d, k1))"

definition Keychain_Write :: "'k sec_api \<Rightarrow> string \<Rightarrow> string \<Rightarrow> 'k \<Rightarrow> vault_err option \<times> 'k" where
  "Keychain_Write A service d k =
     (if d = [] \<or> credential_MaxBytes < int (length d) then (Some VInvalid, k)
      else case write_secret A service d k of (status, k1) \<Rightarrow>
        (if status \<noteq> errSecSuccess then Some VUnavailable else None, k1))"

definition Keychain_delete :: "'k sec_api \<Rightarrow> string \<Rightarrow> 'k \<Rightarrow> vault_err option \<times> 'k" where
  "Keychain_delete A service k =
     (case item_delete A service k of (status, k1) \<Rightarrow>
        (if status \<noteq> errSecSuccess \<and> status \<noteq> errSecItemNotFound then Some VUnavailable else None, k1))"

definition Keychain :: "'k sec_api \<Rightarrow> string \<Rightarrow> 'k vault" where
  "Keychain A service = \<lparr>vRead = Keychain_Read A service, vWrite = Keychain_Write A service\<rparr>"

text \<open>The documented behaviour of the Security framework on generic passwords: a query reports the stored
  data, success of an addition or update means the data is stored, and a failing call changes no item.\<close>

locale keychain_api =
  fixes A :: "'k sec_api" and item :: "string \<Rightarrow> 'k \<Rightarrow> string option"
  assumes copy_item: "copy_matching A s k = (st, r, k1) \<Longrightarrow> item t k1 = item t k"
    and copy_data: "copy_matching A s k = (errSecSuccess, CFData d, k1) \<Longrightarrow> item s k = Some d"
    and copy_missing: "copy_matching A s k = (errSecItemNotFound, r, k1) \<Longrightarrow> item s k = None"
    and add_data: "item_add A s d k = (errSecSuccess, k1) \<Longrightarrow> item s k1 = Some d"
    and add_failed: "item_add A s d k = (st, k1) \<Longrightarrow> st \<noteq> errSecSuccess \<Longrightarrow> item t k1 = item t k"
    and update_data: "item_update A s d k = (errSecSuccess, k1) \<Longrightarrow> item s k1 = Some d"
    and update_failed: "item_update A s d k = (st, k1) \<Longrightarrow> st \<noteq> errSecSuccess \<Longrightarrow> item t k1 = item t k"
begin

lemma read_secret_item:
  assumes "read_secret A s n k = (st, d, k1)"
  shows "item t k1 = item t k \<and> (st = errSecSuccess \<longrightarrow> item s k = Some d)
    \<and> (st = errSecItemNotFound \<longrightarrow> item s k = None)"
proof -
  obtain st0 r k0 where c: "copy_matching A s k = (st0, r, k0)" by (metis prod_cases3)
  show ?thesis
    using assms copy_item [OF c, of t] copy_data copy_missing c
    by (auto simp: read_secret_def os_status split: if_splits cf_object.splits)
qed

lemma write_secret_item:
  assumes "write_secret A s d k = (st, k1)"
  shows "(st = errSecSuccess \<longrightarrow> item s k1 = Some d) \<and> (st \<noteq> errSecSuccess \<longrightarrow> item t k1 = item t k)"
proof -
  obtain st0 k0 where a: "item_add A s d k = (st0, k0)" by (cases "item_add A s d k")
  have dup: "errSecDuplicateItem \<noteq> errSecSuccess" by (simp add: os_status)
  show ?thesis
  proof (cases "st0 = errSecDuplicateItem")
    case True
    then have "item_update A s d k0 = (st, k1)" using assms a by (simp add: write_secret_def)
    then show ?thesis
      using add_failed [OF a, of t] True dup update_data update_failed by metis
  next
    case False
    then show ?thesis using assms a add_data add_failed by (auto simp: write_secret_def)
  qed
qed

end

sublocale keychain_api \<subseteq> kc: vault_laws "Keychain A s" "item s" for s
proof (unfold_locales, goal_cases)
  case (1 v x v1)
  then show ?case using read_secret_item [of s credential_MaxBytes v]
    by (auto simp: Keychain_def Keychain_Read_def split: prod.splits)
next
  case (2 v d v1)
  then show ?case using read_secret_item [of s credential_MaxBytes v]
    by (auto simp: Keychain_def Keychain_Read_def split: prod.splits if_splits)
next
  case (3 v v1)
  then show ?case using read_secret_item [of s credential_MaxBytes v]
    by (auto simp: Keychain_def Keychain_Read_def split: prod.splits if_splits)
next
  case (4 d v v1)
  then show ?case using write_secret_item [of s d v]
    by (auto simp: Keychain_def Keychain_Write_def split: prod.splits if_splits)
next
  case (5 d v v1)
  then show ?case by (auto simp: Keychain_def Keychain_Write_def split: if_splits)
next
  case (6 d v e v1)
  then show ?case using write_secret_item [of s d v]
    by (auto simp: Keychain_def Keychain_Write_def split: prod.splits if_splits)
qed

context keychain_api
begin

lemma keychain_laws: "vault_laws (Keychain A s) (item s)"
  by unfold_locales

end

lemma keychain_vault: "keychain_api A item \<Longrightarrow> vault_laws (Keychain A s) (item s)"
  by (rule keychain_api.keychain_laws)

section \<open>A Keychain of a test machine\<close>

text \<open>Items in a map and a script of statuses: each call takes the next status, which fails it when it is
  not success.\<close>

record test_keychain =
  Items :: "string \<rightharpoonup> string"
  Script :: "int list"

definition next_status :: "test_keychain \<Rightarrow> int \<times> test_keychain" where
  "next_status k = (case Script k of [] \<Rightarrow> (errSecSuccess, k) | st # r \<Rightarrow> (st, k\<lparr>Script := r\<rparr>))"

definition status_unavailable :: "int \<Rightarrow> int" where
  "status_unavailable st = (if st = errSecItemNotFound \<or> st = errSecDuplicateItem then errSecAllocate else st)"

definition test_api :: "test_keychain sec_api" where
  "test_api = \<lparr>
     copy_matching = (\<lambda>s k. case next_status k of (st, k1) \<Rightarrow>
       if st \<noteq> errSecSuccess then (status_unavailable st, CFNull, k1)
       else case Items k1 s of None \<Rightarrow> (errSecItemNotFound, CFNull, k1) | Some d \<Rightarrow> (errSecSuccess, CFData d, k1)),
     item_add = (\<lambda>s d k. case next_status k of (st, k1) \<Rightarrow>
       if st \<noteq> errSecSuccess then (status_unavailable st, k1)
       else if Items k1 s \<noteq> None then (errSecDuplicateItem, k1)
       else (errSecSuccess, k1\<lparr>Items := (Items k1)(s \<mapsto> d)\<rparr>)),
     item_update = (\<lambda>s d k. case next_status k of (st, k1) \<Rightarrow>
       if st \<noteq> errSecSuccess then (status_unavailable st, k1)
       else if Items k1 s = None then (errSecItemNotFound, k1)
       else (errSecSuccess, k1\<lparr>Items := (Items k1)(s \<mapsto> d)\<rparr>)),
     item_delete = (\<lambda>s k. case next_status k of (st, k1) \<Rightarrow>
       if st \<noteq> errSecSuccess then (status_unavailable st, k1)
       else if Items k1 s = None then (errSecItemNotFound, k1)
       else (errSecSuccess, k1\<lparr>Items := (Items k1)(s := None)\<rparr>)),
     malloc_ok = (\<lambda>n k. True)\<rparr>"

lemma next_status_items: "next_status k = (st, k1) \<Longrightarrow> Items k1 = Items k"
  by (auto simp: next_status_def split: list.splits)

interpretation test_kc: keychain_api test_api "\<lambda>s k. Items k s"
  by unfold_locales
    (auto simp: test_api_def status_unavailable_def os_status next_status_items
      split: prod.splits if_splits option.splits)

abbreviation test_vault :: "test_keychain vault" where
  "test_vault \<equiv> Keychain test_api Service"

end
