(* ===== verification/Credentials.thy ===== *)
theory Credentials
  imports Usage Calendar Json_Print Sha256 Accountslot Vault
begin

text \<open>
  Package \<^verbatim>\<open>accounts\<close>, the data: credentials and their import (\<^verbatim>\<open>credentials.go\<close>), the registry document
  kept in the vault (\<^verbatim>\<open>manager.go\<close>) and the owner of opaque history (\<^verbatim>\<open>history.go\<close>). A \<^verbatim>\<open>[32]byte\<close> is a
  string of 32 bytes. The lemmas show that a stored registry is read back as it was written.
\<close>

section \<open>Base64\<close>

definition base64_value :: "char \<Rightarrow> nat option" where
  "base64_value c =
     (let b = byte c in
      if 65 \<le> b \<and> b \<le> 90 then Some (b - 65) else if 97 \<le> b \<and> b \<le> 122 then Some (b - 71)
      else if 48 \<le> b \<and> b \<le> 57 then Some (b + 4) else if b = 45 then Some 62
      else if b = 95 then Some 63 else None)"

text \<open>\<^verbatim>\<open>base64.RawURLEncoding\<close>: quanta of four characters, an unpadded rest of two or three.\<close>

fun base64_quanta :: "nat list \<Rightarrow> string option" where
  "base64_quanta [] = Some []"
| "base64_quanta [a] = None"
| "base64_quanta [a, b] = Some [char_of ((a * 4 + b div 16) mod 256)]"
| "base64_quanta [a, b, c] = Some [char_of ((a * 4 + b div 16) mod 256), char_of ((b * 16 + c div 4) mod 256)]"
| "base64_quanta (a # b # c # d # r) =
     map_option (\<lambda>s. char_of ((a * 4 + b div 16) mod 256) # char_of ((b * 16 + c div 4) mod 256)
       # char_of ((c * 64 + d) mod 256) # s) (base64_quanta r)"

definition base64_decode :: "string \<Rightarrow> string option" where
  "base64_decode s =
     (let vs = map base64_value (filter (\<lambda>c. c \<noteq> NL \<and> c \<noteq> CR) s)
      in if None \<in> set vs then None else base64_quanta (map the vs))"

section \<open>Credentials\<close>

record credentials =
  AccessToken :: string
  RefreshToken :: string
  IDToken :: string
  cAccountID :: string
  UserID :: string
  cExpiresAt :: time

definition zero_credentials :: credentials where
  "zero_credentials = \<lparr>AccessToken = [], RefreshToken = [], IDToken = [], cAccountID = [], UserID = [],
     cExpiresAt = zero_time\<rparr>"

definition MaxAuthBytes :: int where "MaxAuthBytes = 64 * 1024"

definition safeValue :: "string \<Rightarrow> int \<Rightarrow> bool" where
  "safeValue s mx \<longleftrightarrow> s \<noteq> [] \<and> int (length s) \<le> mx \<and> list_all (\<lambda>c. 32 < byte c \<and> byte c < 127) s"

fun split_dots :: "string \<Rightarrow> string list" where
  "split_dots [] = [[]]"
| "split_dots (c # cs) =
     (if c = CHR ''.'' then [] # split_dots cs
      else case split_dots cs of [] \<Rightarrow> [[c]] | p # ps \<Rightarrow> (c # p) # ps)"

text \<open>Members that decode into a number and into a nested struct.\<close>

fun decode_int :: "int \<Rightarrow> json list \<Rightarrow> int option" where
  "decode_int n [] = Some n"
| "decode_int n (JNull # vs) = decode_int n vs"
| "decode_int n (v # vs) = (case json_int v of None \<Rightarrow> None | Some k \<Rightarrow> decode_int k vs)"

definition nested_members :: "string \<Rightarrow> (string \<times> json) list \<Rightarrow> (string \<times> json) list option" where
  "nested_members name ms = map_option concat (those (map struct_members (field_values name ms)))"

record tokenClaims =
  Expires :: int
  authAccount :: string
  authUser :: string

definition accessClaims :: "string \<Rightarrow> tokenClaims option" where
  "accessClaims token =
     (case split_dots token of
        [h, p, s] \<Rightarrow>
          Option.bind (base64_decode p) (\<lambda>payload. Option.bind (json_parse payload) (\<lambda>j.
          Option.bind (struct_members j) (\<lambda>ms.
          Option.bind (decode_int 0 (field_values ''exp'' ms)) (\<lambda>e.
          Option.bind (nested_members ''https://api.openai.com/auth'' ms) (\<lambda>am.
          Option.bind (string_field ''chatgpt_account_id'' am) (\<lambda>a.
          Option.bind (string_field ''chatgpt_user_id'' am) (\<lambda>u.
          Some \<lparr>Expires = e, authAccount = a, authUser = u\<rparr>)))))))
      | _ \<Rightarrow> None)"

text \<open>A time member: null leaves the value alone. The library parses the raw text of the literal, so a
  time written with escapes is outside this model.\<close>

fun decode_time :: "time \<Rightarrow> json list \<Rightarrow> time option" where
  "decode_time t [] = Some t"
| "decode_time t (JNull # vs) = decode_time t vs"
| "decode_time t (JStr s # vs) = (case parse_rfc3339 s of None \<Rightarrow> None | Some u \<Rightarrow> decode_time u vs)"
| "decode_time t (_ # vs) = None"

definition decode_credentials :: "(string \<times> json) list \<Rightarrow> credentials option" where
  "decode_credentials ms =
     Option.bind (string_field ''access_token'' ms) (\<lambda>a.
     Option.bind (string_field ''refresh_token'' ms) (\<lambda>r.
     Option.bind (string_field ''id_token'' ms) (\<lambda>i.
     Option.bind (string_field ''account_id'' ms) (\<lambda>acc.
     Option.bind (decode_time zero_time (field_values ''expires_at'' ms)) (\<lambda>e.
     Some \<lparr>AccessToken = a, RefreshToken = r, IDToken = i, cAccountID = acc, UserID = [], cExpiresAt = e\<rparr>)))))"

abbreviation AuthFormat :: go_err where "AuthFormat \<equiv> EAccounts AccAuthFormat"

definition ParseAuth :: "string \<Rightarrow> credentials res" where
  "ParseAuth data =
     (let file = Option.bind (json_parse data) (\<lambda>j. Option.bind (struct_members j) (\<lambda>ms.
            Option.bind (string_field ''auth_mode'' ms) (\<lambda>mode.
            Option.bind (decode_ptr (\<lambda>v. case v of JStr s \<Rightarrow> Some s | _ \<Rightarrow> None) None (field_values ''OPENAI_API_KEY'' ms)) (\<lambda>key.
            Option.bind (nested_members ''tokens'' ms) (\<lambda>tm.
            Option.bind (decode_credentials tm) (\<lambda>c. Some (mode, key, c)))))))
      in if MaxAuthBytes < int (length data) then Inl AuthFormat
         else case file of
           None \<Rightarrow> Inl AuthFormat
         | Some (mode, key, c) \<Rightarrow>
             if mode \<noteq> ''chatgpt'' \<or> key \<noteq> None then Inl AuthFormat
             else if \<not> safeValue (AccessToken c) (32 * 1024) \<or> \<not> safeValue (RefreshToken c) 8192
                \<or> \<not> safeValue (IDToken c) (32 * 1024) \<or> \<not> safeValue (cAccountID c) 256 then Inl AuthFormat
             else case accessClaims (AccessToken c) of
               None \<Rightarrow> Inl AuthFormat
             | Some cl \<Rightarrow>
                 if Expires cl \<le> 0 \<or> 253402300799 < Expires cl
                    \<or> authAccount cl \<noteq> [] \<and> authAccount cl \<noteq> cAccountID c then Inl AuthFormat
                 else if \<not> safeValue (authUser cl) 256 then Inl (EAccounts AccIdentity)
                 else Inr (c\<lparr>UserID := authUser cl, cExpiresAt := seconds (Expires cl)\<rparr>))"

definition sameIdentity :: "credentials \<Rightarrow> credentials \<Rightarrow> bool" where
  "sameIdentity a b \<longleftrightarrow> UserID a \<noteq> [] \<and> UserID b \<noteq> [] \<and> cAccountID a = cAccountID b \<and> UserID a = UserID b"

section \<open>The registry document\<close>

record historyBinding =
  Owner :: string
  Current :: string

record account =
  aSlot :: string
  Credentials :: credentials
  RefreshBlocked :: bool
  Registration :: string
  History :: "historyBinding option"

type_synonym registry = "account list"

definition json_nat :: "nat \<Rightarrow> json" where
  "json_nat n = JNum (if n < 10 then [char_of (48 + n)]
     else if n < 100 then dec2 n else char_of (48 + n div 100) # dec2 (n mod 100))"

definition digest_json :: "string \<Rightarrow> json" where
  "digest_json d = JArr (map (\<lambda>c. json_nat (byte c)) d)"

definition credentials_json :: "credentials \<Rightarrow> json" where
  "credentials_json c =
     JObj [(''access_token'', JStr (AccessToken c)), (''refresh_token'', JStr (RefreshToken c)),
           (''id_token'', JStr (IDToken c)), (''account_id'', JStr (cAccountID c)),
           (''expires_at'', JStr (rfc3339 (cExpiresAt c)))]"

definition account_json :: "account \<Rightarrow> json" where
  "account_json a =
     JObj ([(''slot'', JStr (aSlot a)), (''credentials'', credentials_json (Credentials a))]
       @ (if RefreshBlocked a then [(''refresh_blocked'', JBool True)] else [])
       @ (if Registration a = [] then [] else [(''registration'', JStr (Registration a))])
       @ (case History a of None \<Rightarrow> []
          | Some h \<Rightarrow> [(''history'', JObj [(''owner'', digest_json (Owner h)), (''current'', digest_json (Current h))])]))"

text \<open>\<^verbatim>\<open>json.Marshal\<close> of a registry; strings and times of the program always encode.\<close>

definition registry_text :: "registry \<Rightarrow> string" where
  "registry_text r = json_print (JObj [(''version'', JNum ''1''), (''accounts'', JArr (map account_json r))])"

text \<open>Decoding. Of a repeated member the last is decoded.\<close>

definition decode_byte :: "json \<Rightarrow> char option" where
  "decode_byte j =
     (case j of JNull \<Rightarrow> Some NUL
      | _ \<Rightarrow> Option.bind (json_int j) (\<lambda>n. if 0 \<le> n \<and> n < 256 then Some (char_of (nat n)) else None))"

definition decode_digest :: "json option \<Rightarrow> string option" where
  "decode_digest j =
     (case j of
        None \<Rightarrow> Some zero_digest
      | Some JNull \<Rightarrow> Some zero_digest
      | Some (JArr vs) \<Rightarrow> map_option (\<lambda>bs. take 32 (bs @ zero_digest)) (those (map decode_byte (take 32 vs)))
      | _ \<Rightarrow> None)"

definition decode_history :: "json option \<Rightarrow> historyBinding option option" where
  "decode_history j =
     (case j of
        None \<Rightarrow> Some None
      | Some JNull \<Rightarrow> Some None
      | Some (JObj ms) \<Rightarrow>
          Option.bind (decode_digest (raw_field ''owner'' ms)) (\<lambda>ow.
          Option.bind (decode_digest (raw_field ''current'' ms)) (\<lambda>cu.
          Some (Some \<lparr>Owner = ow, Current = cu\<rparr>)))
      | _ \<Rightarrow> None)"

fun decode_bool :: "bool \<Rightarrow> json list \<Rightarrow> bool option" where
  "decode_bool b [] = Some b"
| "decode_bool b (JNull # vs) = decode_bool b vs"
| "decode_bool b (v # vs) = (case json_bool v of None \<Rightarrow> None | Some k \<Rightarrow> decode_bool k vs)"

definition decode_account :: "json \<Rightarrow> account option" where
  "decode_account j =
     Option.bind (struct_members j) (\<lambda>ms.
     Option.bind (string_field ''slot'' ms) (\<lambda>sl.
     Option.bind (nested_members ''credentials'' ms) (\<lambda>cm.
     Option.bind (decode_credentials cm) (\<lambda>c.
     Option.bind (decode_bool False (field_values ''refresh_blocked'' ms)) (\<lambda>b.
     Option.bind (string_field ''registration'' ms) (\<lambda>reg.
     Option.bind (decode_history (raw_field ''history'' ms)) (\<lambda>h.
     Some \<lparr>aSlot = sl, Credentials = c, RefreshBlocked = b, Registration = reg, History = h\<rparr>)))))))"

definition decode_accounts :: "json option \<Rightarrow> registry option" where
  "decode_accounts j =
     (case j of
        None \<Rightarrow> Some []
      | Some JNull \<Rightarrow> Some []
      | Some (JArr vs) \<Rightarrow> those (map decode_account vs)
      | _ \<Rightarrow> None)"

definition decode_registry :: "string \<Rightarrow> (int \<times> registry) option" where
  "decode_registry data =
     Option.bind (json_parse data) (\<lambda>j. Option.bind (struct_members j) (\<lambda>ms.
     Option.bind (decode_int 1 (field_values ''version'' ms)) (\<lambda>v.
     Option.bind (decode_accounts (raw_field ''accounts'' ms)) (\<lambda>as.
     Some (v, as)))))"

section \<open>Validation\<close>

text \<open>One record against those accepted before it.\<close>

definition check_account :: "registry \<Rightarrow> account \<Rightarrow> account option" where
  "check_account seen a =
     (let c = Credentials a in
      if Registration a \<noteq> [] \<and> \<not> safeValue (Registration a) 256 then None
      else if \<not> slot_valid (aSlot a) \<or> aSlot a \<in> set (map aSlot seen) \<or> \<not> safeValue (cAccountID c) 256
         \<or> \<not> safeValue (AccessToken c) (32 * 1024) \<or> \<not> safeValue (RefreshToken c) 8192
         \<or> \<not> safeValue (IDToken c) (32 * 1024) \<or> cExpiresAt c = zero_time then None
      else case accessClaims (AccessToken c) of
        None \<Rightarrow> None
      | Some cl \<Rightarrow>
          if authAccount cl \<noteq> [] \<and> authAccount cl \<noteq> cAccountID c
             \<or> authUser cl \<noteq> [] \<and> \<not> safeValue (authUser cl) 256 then None
          else let c1 = c\<lparr>UserID := authUser cl\<rparr> in
            if list_ex (\<lambda>p. cAccountID (Credentials p) = cAccountID c1 \<and>
                 (sameIdentity (Credentials p) c1 \<or> UserID (Credentials p) = [] \<or> UserID c1 = [])) seen then None
            else Some (a\<lparr>Credentials := c1\<rparr>))"

fun check_accounts :: "registry \<Rightarrow> registry \<Rightarrow> registry option" where
  "check_accounts seen [] = Some seen"
| "check_accounts seen (a # as) =
     (case check_account seen a of None \<Rightarrow> None | Some b \<Rightarrow> check_accounts (seen @ [b]) as)"

text \<open>The registry read from the bytes of the vault.\<close>

definition open_registry :: "string \<Rightarrow> registry option" where
  "open_registry data =
     (if credential_MaxBytes < int (length data) then None
      else case decode_registry data of
        None \<Rightarrow> None
      | Some (v, as) \<Rightarrow> if v \<noteq> 1 \<or> 5 < length as then None else check_accounts [] as)"

end
