(* ===== verification/Accounts.thy ===== *)
theory Accounts
  imports Credentials
begin

text \<open>
  Package \<^verbatim>\<open>accounts\<close>, the operations on the vault: the manager of up to five accounts (\<^verbatim>\<open>manager.go\<close>),
  the owner of opaque history (\<^verbatim>\<open>history.go\<close>), the cancellable operation lock (\<^verbatim>\<open>operation.go\<close>) and the
  import of a login. The vault is a parameter; the browser login, the file system and the clock are fields
  of an environment record that an operation reads.
\<close>

section \<open>The manager\<close>

record 'v manager =
  store :: 'v
  tempParent :: string
  hasRefresher :: bool
  refreshSlot :: string

definition manager_New :: "'v \<Rightarrow> string \<Rightarrow> 'v manager" where
  "manager_New v dir = \<lparr>store = v, tempParent = dir, hasRefresher = False, refreshSlot = []\<rparr>"

definition NewRefreshing :: "'v \<Rightarrow> string \<Rightarrow> bool \<Rightarrow> 'v manager" where
  "NewRefreshing v dir refresher = (manager_New v dir)\<lparr>hasRefresher := refresher\<rparr>"

definition manager_read :: "'v vault \<Rightarrow> 'v manager \<Rightarrow> registry res \<times> 'v manager" where
  "manager_read V m =
     (case vRead V (store m) of (x, v) \<Rightarrow>
       (case x of
          Inl e \<Rightarrow> if e = VNotFound then Inr [] else Inl (EAccounts AccStore)
        | Inr data \<Rightarrow> (case open_registry data of None \<Rightarrow> Inl (EAccounts AccStore) | Some r \<Rightarrow> Inr r),
        m\<lparr>store := v\<rparr>))"

definition save_registry :: "'v vault \<Rightarrow> registry \<Rightarrow> 'v manager \<Rightarrow> go_err option \<times> 'v manager" where
  "save_registry V r m =
     (case vWrite V (registry_text r) (store m) of (e, v) \<Rightarrow>
       (if e = None then None else Some (EAccounts AccStore), m\<lparr>store := v\<rparr>))"

text \<open>The record of a slot; a registry that was read has one at most.\<close>

definition slot_record :: "string \<Rightarrow> registry \<Rightarrow> account option" where
  "slot_record slot r = find (\<lambda>a. aSlot a = slot) r"

section \<open>Local status and access\<close>

record account_status =
  stSlot :: string
  stRegistered :: bool
  stState :: string
  stExpires :: "time option"

definition record_status :: "time \<Rightarrow> account \<Rightarrow> account_status" where
  "record_status now a =
     \<lparr>stSlot = aSlot a, stRegistered = True,
      stState = (if RefreshBlocked a \<or> \<not> now < cExpiresAt (Credentials a) then ''expired'' else ''stored_unverified''),
      stExpires = Some (cExpiresAt (Credentials a))\<rparr>"

definition manager_Status :: "'v vault \<Rightarrow> time \<Rightarrow> 'v manager \<Rightarrow> account_status list res \<times> 'v manager" where
  "manager_Status V now m =
     (case manager_read V m of
        (Inl e, m1) \<Rightarrow> (Inl e, m1)
      | (Inr r, m1) \<Rightarrow>
          (Inr (map (\<lambda>slot. foldl (\<lambda>s a. if aSlot a = stSlot s then record_status now a else s)
             \<lparr>stSlot = slot, stRegistered = False, stState = ''not_registered'', stExpires = None\<rparr> r) slot_all), m1))"

text \<open>\<^verbatim>\<open>Access\<close>: what a request needs, with the unexported ownership data.\<close>

record owned_access = access +
  xUserID :: string
  xRegistration :: string
  xHistory :: "historyBinding option"

definition record_access :: "account \<Rightarrow> owned_access" where
  "record_access a =
     \<lparr>Token = AccessToken (Credentials a), AccountID = cAccountID (Credentials a), ExpiresAt = cExpiresAt (Credentials a),
      xUserID = UserID (Credentials a), xRegistration = Registration a, xHistory = History a\<rparr>"

definition manager_Access :: "'v vault \<Rightarrow> string \<Rightarrow> time \<Rightarrow> 'v manager \<Rightarrow> owned_access res \<times> 'v manager" where
  "manager_Access V slot now m =
     (if \<not> slot_valid slot then (Inl (EAccounts AccSlot), m)
      else case manager_read V m of
        (Inl e, m1) \<Rightarrow> (Inl e, m1)
      | (Inr r, m1) \<Rightarrow>
          (case slot_record slot r of
             None \<Rightarrow> (Inl (EAccounts AccNotRegistered), m1)
           | Some a \<Rightarrow>
               if RefreshBlocked a \<or> \<not> now + 30 * 1000000000 < cExpiresAt (Credentials a)
               then (Inl (EAccounts AccExpired), m1)
               else (Inr (record_access a), m1)))"

section \<open>The owner of opaque history\<close>

definition credentialDigest :: "owned_access \<Rightarrow> string" where
  "credentialDigest a =
     (if \<not> safeValue (Token a) (32 * 1024) \<or> \<not> safeValue (AccountID a) 256 \<or> \<not> safeValue (xUserID a) 256
      then zero_digest
      else sha256 (json_print (JArr (map JStr
        [''codex-switcher/history-owner/v1'', AccountID a, xUserID a, xRegistration a, Token a]))))"

definition access_owner :: "owned_access \<Rightarrow> string" where
  "access_owner a =
     (let current = credentialDigest a
      in if current = zero_digest then current
         else case xHistory a of
           None \<Rightarrow> current
         | Some h \<Rightarrow> if Current h = current \<and> Owner h \<noteq> zero_digest then Owner h else current)"

definition HistoryCredential :: "'v vault \<Rightarrow> string \<Rightarrow> 'v manager \<Rightarrow> string res \<times> 'v manager" where
  "HistoryCredential V slot m =
     (if \<not> slot_valid slot then (Inl (EAccounts AccSlot), m)
      else case manager_read V m of
        (Inl e, m1) \<Rightarrow> (Inl e, m1)
      | (Inr r, m1) \<Rightarrow>
          (case slot_record slot r of
             None \<Rightarrow> (Inl (EAccounts AccNotRegistered), m1)
           | Some a \<Rightarrow>
               if RefreshBlocked a \<and> refreshSlot m1 \<noteq> slot then (Inl ERefresh, m1)
               else (Inr (access_owner (record_access a)), m1)))"

section \<open>Logout\<close>

fun drop_first :: "('a \<Rightarrow> bool) \<Rightarrow> 'a list \<Rightarrow> 'a list" where
  "drop_first P [] = []"
| "drop_first P (x # xs) = (if P x then xs else x # drop_first P xs)"

definition Logout :: "'v vault \<Rightarrow> string \<Rightarrow> 'v manager \<Rightarrow> go_err option \<times> 'v manager" where
  "Logout V slot m =
     (if \<not> slot_valid slot then (Some (EAccounts AccSlot), m)
      else case manager_read V m of
        (Inl e, m1) \<Rightarrow> (Some e, m1)
      | (Inr r, m1) \<Rightarrow>
          if slot_record slot r = None then (None, m1)
          else save_registry V (drop_first (\<lambda>a. aSlot a = slot) r) m1)"

section \<open>The browser login\<close>

text \<open>\<^verbatim>\<open>CodexRunner.Run\<close>: whether the command started and ended well; the result is its error and whether
  \<^verbatim>\<open>waiting\<close> was called.\<close>

definition loginEnvironment :: "(string \<Rightarrow> string option) \<Rightarrow> string \<Rightarrow> string list" where
  "loginEnvironment lookup dir =
     (''CODEX_HOME='' @ dir) # concat (map (\<lambda>key. case lookup key of None \<Rightarrow> [] | Some v \<Rightarrow> [key @ ''='' @ v])
       [''HOME'', ''PATH'', ''TMPDIR'', ''LANG'', ''LC_ALL'', ''SSL_CERT_FILE'', ''SSL_CERT_DIR''])"

definition CodexRunner_Run :: "bool \<Rightarrow> bool \<Rightarrow> go_err option \<times> bool" where
  "CodexRunner_Run started ended =
     (if \<not> started then (Some (EAccounts AccLogin), False)
      else if \<not> ended then (Some (EAccounts AccLogin), True) else (None, True))"

section \<open>Login\<close>

datatype login_state = Launching | BrowserWaiting | Importing | Succeeded | Failed | Cancelled

text \<open>What the login meets: whether the context is cancelled at its four checks, the file system's answers,
  the outcome of the browser login (waiting reported, run succeeded) and the file it left.\<close>

record auth_file =
  open_ok :: bool
  regular :: bool
  size :: int
  own_uid :: bool
  links :: nat
  chmod_ok :: bool
  content :: "string option"

record login_env =
  cancelled1 :: bool
  mkdir_ok :: bool
  dir_chmod_ok :: bool
  config_ok :: bool
  waited :: bool
  run_ok :: bool
  cancelled2 :: bool
  auth :: auth_file
  clock :: time
  remove_ok :: bool
  cancelled3 :: bool
  rand_text :: string
  cleanup_ok :: bool

definition readAuth :: "auth_file \<Rightarrow> string res" where
  "readAuth f =
     (if \<not> open_ok f then Inl AuthFormat
      else if \<not> regular f \<or> MaxAuthBytes < size f then Inl AuthFormat
      else if \<not> own_uid f \<or> links f \<noteq> 1 then Inl AuthFormat
      else if \<not> chmod_ok f then Inl AuthFormat
      else case content f of
        None \<Rightarrow> Inl AuthFormat
      | Some d \<Rightarrow>
          (let d1 = take (nat (MaxAuthBytes + 1)) d
           in if MaxAuthBytes < int (length d1) then Inl AuthFormat else Inr d1))"

text \<open>The first account of another slot that has the same workspace account and clashes.\<close>

fun identity_clash :: "string \<Rightarrow> credentials \<Rightarrow> registry \<Rightarrow> go_err option" where
  "identity_clash slot c [] = None"
| "identity_clash slot c (a # r) =
     (if aSlot a \<noteq> slot \<and> cAccountID (Credentials a) = cAccountID c then
        if UserID (Credentials a) = [] then Some (EAccounts AccIdentity)
        else if sameIdentity (Credentials a) c then Some (EAccounts AccDuplicate)
        else identity_clash slot c r
      else identity_clash slot c r)"

text \<open>The body between the creation of the private directory and its removal.\<close>

definition import_login :: "string \<Rightarrow> bool \<Rightarrow> login_env \<Rightarrow> registry \<Rightarrow> registry res \<times> login_state list" where
  "import_login slot replace env r =
     (if \<not> dir_chmod_ok env \<or> \<not> config_ok env then (Inl (EAccounts AccLogin), [])
      else let st = Launching # (if waited env then [BrowserWaiting] else []) in
      if \<not> run_ok env then (Inl (EAccounts (if cancelled2 env then AccCancelled else AccLogin)), st)
      else if cancelled2 env then (Inl (EAccounts AccCancelled), st)
      else let st1 = st @ [Importing] in
      case bind_r (readAuth (auth env)) ParseAuth of
        Inl e \<Rightarrow> (Inl e, st1)
      | Inr c \<Rightarrow>
          if \<not> clock env + 30 * 1000000000 < cExpiresAt c then (Inl (EAccounts AccExpired), st1)
          else case (if replace then slot_record slot r else None) of
            Some old \<Rightarrow>
              if UserID (Credentials old) = [] then (Inl (EAccounts AccIdentity), st1)
              else if \<not> sameIdentity (Credentials old) c then (Inl (EAccounts AccMismatch), st1)
              else if identity_clash slot c r \<noteq> None then (Inl (the (identity_clash slot c r)), st1)
              else if \<not> remove_ok env then (Inl (EAccounts AccCleanup), st1)
              else if cancelled3 env then (Inl (EAccounts AccCancelled), st1)
              else (Inr (map (\<lambda>a. if aSlot a = slot
                     then a\<lparr>Credentials := c, RefreshBlocked := False, Registration := rand_text env, History := None\<rparr>
                     else a) r), st1)
          | None \<Rightarrow>
              if identity_clash slot c r \<noteq> None then (Inl (the (identity_clash slot c r)), st1)
              else if \<not> remove_ok env then (Inl (EAccounts AccCleanup), st1)
              else if cancelled3 env then (Inl (EAccounts AccCancelled), st1)
              else (Inr (r @ [\<lparr>aSlot = slot, Credentials = c, RefreshBlocked = False,
                     Registration = rand_text env, History = None\<rparr>]), st1))"

definition final_state :: "go_err option \<Rightarrow> login_state" where
  "final_state e =
     (case e of None \<Rightarrow> Succeeded
      | Some x \<Rightarrow> if errors_is x (EAccounts AccCancelled) then Cancelled else Failed)"

text \<open>\<^verbatim>\<open>login\<close>: the error, the reported states and the manager. Removing the private directory may replace
  the outcome, whatever it was; the final state is reported after that.\<close>

definition login :: "'v vault \<Rightarrow> string \<Rightarrow> bool \<Rightarrow> login_env \<Rightarrow> 'v manager \<Rightarrow> go_err option \<times> login_state list \<times> 'v manager" where
  "login V slot replace env m =
     (let finish = (\<lambda>e st m1. (e, st @ [final_state e], m1)) in
      if \<not> slot_valid slot then finish (Some (EAccounts AccSlot)) [] m
      else case manager_read V m of
        (Inl e, m1) \<Rightarrow> finish (Some e) [] m1
      | (Inr r, m1) \<Rightarrow>
          if slot_record slot r \<noteq> None \<and> \<not> replace then finish (Some (EAccounts AccOccupied)) [] m1
          else if replace \<and> slot_record slot r = None then finish (Some (EAccounts AccNotRegistered)) [] m1
          else if cancelled1 env then finish (Some (EAccounts AccCancelled)) [] m1
          else if \<not> mkdir_ok env then finish (Some (EAccounts AccLogin)) [] m1
          else let cleaned = (\<lambda>e. if cleanup_ok env then e else Some (EAccounts AccCleanup)) in
            case import_login slot replace env r of
              (Inl e, st) \<Rightarrow> finish (cleaned (Some e)) st m1
            | (Inr r1, st) \<Rightarrow>
                (case save_registry V r1 m1 of (e, m2) \<Rightarrow> finish (cleaned e) st m2))"

definition Login :: "'v vault \<Rightarrow> string \<Rightarrow> login_env \<Rightarrow> 'v manager \<Rightarrow> go_err option \<times> login_state list \<times> 'v manager" where
  "Login V slot env m = login V slot False env m"

definition Reauthenticate :: "'v vault \<Rightarrow> string \<Rightarrow> login_env \<Rightarrow> 'v manager \<Rightarrow> go_err option \<times> login_state list \<times> 'v manager" where
  "Reauthenticate V slot env m = login V slot True env m"

end
