(* ===== verification/Account_Refresh.thy ===== *)
theory Account_Refresh
  imports Accounts
begin

text \<open>
  Package \<^verbatim>\<open>accounts\<close>, the verified refresh (\<^verbatim>\<open>refresh.go\<close>): the token exchange, the durable intent that
  precedes it and the commit that follows; the locks it takes (\<^verbatim>\<open>operation.go\<close>, package \<^verbatim>\<open>applock\<close>) and
  the progress it reports (\<^verbatim>\<open>progress.go\<close>).
\<close>

section \<open>The process lock\<close>

text \<open>What the file system answers about the state directory and its lock file, and whether another
  descriptor holds the lock.\<close>

record lock_files =
  dir_made :: bool
  dir_private :: bool
  dir_owned :: bool
  dir_opened :: bool
  file_opened :: bool
  file_private :: bool
  file_owned :: bool
  flock_works :: bool

definition Acquire :: "lock_files \<Rightarrow> bool \<Rightarrow> unit res \<times> bool" where
  "Acquire f held =
     (if \<not> dir_made f \<or> \<not> dir_private f \<or> \<not> dir_owned f \<or> \<not> dir_opened f \<or> \<not> file_opened f
        \<or> \<not> file_private f \<or> \<not> file_owned f then (Inl ELockStorage, held)
      else if held then (Inl ELockBusy, held)
      else if \<not> flock_works f then (Inl ELockStorage, held)
      else (Inr (), True))"

text \<open>The lease of a turn and the test for idle accounts.\<close>

definition BeginTurn :: "'v manager \<Rightarrow> lock_files \<Rightarrow> bool \<Rightarrow> bool res \<times> bool" where
  "BeginTurn m f held =
     (if tempParent m = [] then (Inr False, held)
      else case Acquire f held of (Inl e, h) \<Rightarrow> (Inl e, h) | (Inr _, h) \<Rightarrow> (Inr True, h))"

definition AccountsIdle :: "lock_files \<Rightarrow> bool \<Rightarrow> bool \<times> bool" where
  "AccountsIdle f held = (case Acquire f held of (Inl e, h) \<Rightarrow> (False, h) | (Inr _, h) \<Rightarrow> (True, False))"

section \<open>The operation lock\<close>

text \<open>\<^verbatim>\<open>LockContext\<close> on a gate: \<open>live1\<close> and \<open>live2\<close> are the context before and after the wait, \<open>entered\<close>
  whether the select took the gate, which it can when the gate is free.\<close>

definition LockContext :: "bool \<Rightarrow> bool \<Rightarrow> bool \<Rightarrow> bool \<Rightarrow> go_err option \<times> bool" where
  "LockContext live1 entered live2 gate =
     (if \<not> live1 then (Some EContext, gate)
      else if \<not> entered then (Some EContext, gate)
      else if \<not> live2 then (Some EContext, False)
      else (None, True))"

section \<open>The token exchange\<close>

definition refresh_payload :: "credentials \<Rightarrow> string" where
  "refresh_payload old =
     json_marshal (JObj [(''grant_type'', JStr ''refresh_token''), (''client_id'', JStr ''app_EMoamEEZ73f0CkXaXp7hrann''),
       (''refresh_token'', JStr (RefreshToken old))])"

text \<open>The answer of the endpoint: status, body and whether the body could be read to its end.\<close>

record token_response =
  tStatus :: int
  tBody :: string
  tBodyOk :: bool

definition OAuth_Refresh :: "(string \<Rightarrow> token_response option) \<Rightarrow> credentials \<Rightarrow> credentials res" where
  "OAuth_Refresh post old =
     (case post (refresh_payload old) of
        None \<Rightarrow> Inl ERefresh
      | Some resp \<Rightarrow>
          if tStatus resp \<noteq> 200 then Inl ERefresh
          else if \<not> tBodyOk resp \<or> MaxAuthBytes < int (length (tBody resp)) then Inl ERefresh
          else case Option.bind (json_parse (tBody resp)) (\<lambda>j. Option.bind (struct_members j) (\<lambda>ms.
                 Option.bind (string_field ''access_token'' ms) (\<lambda>a.
                 Option.bind (string_field ''refresh_token'' ms) (\<lambda>r.
                 Option.bind (string_field ''id_token'' ms) (\<lambda>i. Some (a, r, i)))))) of
               None \<Rightarrow> Inl ERefresh
             | Some (a, r, i) \<Rightarrow>
                 if a = [] then Inl ERefresh
                 else Inr (old\<lparr>AccessToken := a,
                        RefreshToken := (if r \<noteq> [] then r else RefreshToken old),
                        IDToken := (if i \<noteq> [] then i else IDToken old)\<rparr>))"

text \<open>The request body may be read after it was closed; nothing of it is left then.\<close>

record refreshBody =
  rbData :: string
  rbPos :: nat
  rbClosed :: bool

definition body_Read :: "nat \<Rightarrow> refreshBody \<Rightarrow> string \<times> bool \<times> refreshBody" where
  "body_Read n b =
     (if rbClosed b \<or> length (rbData b) \<le> rbPos b then ([], True, b)
      else (let p = take n (drop (rbPos b) (rbData b)) in (p, False, b\<lparr>rbPos := rbPos b + length p\<rparr>)))"

definition body_Close :: "refreshBody \<Rightarrow> refreshBody" where
  "body_Close b = b\<lparr>rbData := replicate (length (rbData b)) NUL, rbClosed := True\<rparr>"

section \<open>The refresh of one account\<close>

text \<open>What a request meets: the context at its checks, the process lock, the clock after the exchange and
  the answer of the refresher. \<open>others\<close> is what other processes and requests do to the vault while this one
  waits: before the mutation lock, before the process lock and during the exchange.\<close>

record 'v request_env =
  live :: "nat \<Rightarrow> bool"
  process_lock :: "unit res"
  after_clock :: time
  exchange :: "credentials \<Rightarrow> credentials res"
  others :: "nat \<Rightarrow> 'v manager \<Rightarrow> 'v manager"

definition mark_blocked :: "string \<Rightarrow> registry \<Rightarrow> registry" where
  "mark_blocked slot r = map (\<lambda>a. if aSlot a = slot then a\<lparr>RefreshBlocked := True\<rparr> else a) r"

definition commit_record :: "credentials \<Rightarrow> account \<Rightarrow> account" where
  "commit_record next a =
     (let a1 = a\<lparr>Credentials := next\<rparr>
      in a1\<lparr>History := Some \<lparr>Owner = access_owner (record_access a), Current = credentialDigest (record_access a1)\<rparr>,
            RefreshBlocked := False\<rparr>)"

definition commit_slot :: "string \<Rightarrow> credentials \<Rightarrow> registry \<Rightarrow> registry" where
  "commit_slot slot next r = map (\<lambda>a. if aSlot a = slot then commit_record next a else a) r"

text \<open>The exchanged credentials go through the import of a login file and must name the same user.\<close>

definition auth_document :: "credentials \<Rightarrow> string" where
  "auth_document c = json_print (JObj [(''auth_mode'', JStr ''chatgpt''), (''tokens'', credentials_json c)])"

definition verified_next :: "credentials \<Rightarrow> credentials \<Rightarrow> time \<Rightarrow> credentials res" where
  "verified_next old next now =
     (case ParseAuth (auth_document next) of
        Inl e \<Rightarrow> Inl ERefresh
      | Inr c \<Rightarrow>
          if \<not> sameIdentity old c \<or> \<not> now + 2 * 60 * 1000000000 < cExpiresAt c then Inl ERefresh else Inr c)"

text \<open>From the durable marker to the commit, under the mutation and process locks. The second component
  lists what was exchanged, with the manager as it was then.\<close>

definition exchange_record :: "'v vault \<Rightarrow> 'v request_env \<Rightarrow> string \<Rightarrow> registry \<Rightarrow> account \<Rightarrow> 'v manager
    \<Rightarrow> owned_access res \<times> (credentials \<times> 'v manager) list \<times> 'v manager" where
  "exchange_record V env slot r a m =
     (let old = Credentials a; r1 = mark_blocked slot r in
      case save_registry V r1 m of
        (Some e, m1) \<Rightarrow> (Inl e, [], m1)
      | (None, m1) \<Rightarrow>
          (let m2 = m1\<lparr>refreshSlot := slot\<rparr>; tr = [(old, m2)]; m3 = (others env 2 m2)\<lparr>refreshSlot := []\<rparr> in
           case exchange env old of
             Inl e \<Rightarrow> (Inl ERefresh, tr, m3)
           | Inr next0 \<Rightarrow>
               (case verified_next old next0 (after_clock env) of
                  Inl e \<Rightarrow> (Inl e, tr, m3)
                | Inr next \<Rightarrow>
                    (case save_registry V (commit_slot slot next r1) m3 of
                       (Some e, m4) \<Rightarrow> (Inl e, tr, m4)
                     | (None, m4) \<Rightarrow> (Inr (record_access (commit_record next (a\<lparr>RefreshBlocked := True\<rparr>))), tr, m4)))))"

text \<open>The part under the process lock, which starts by reading the vault again.\<close>

definition locked_refresh :: "'v vault \<Rightarrow> 'v request_env \<Rightarrow> string \<Rightarrow> time \<Rightarrow> 'v manager
    \<Rightarrow> owned_access res \<times> (credentials \<times> 'v manager) list \<times> 'v manager" where
  "locked_refresh V env slot now m =
     (case manager_read V m of
        (Inl e, m1) \<Rightarrow> (Inl e, [], m1)
      | (Inr r, m1) \<Rightarrow>
          (case slot_record slot r of
             None \<Rightarrow> (Inl (EAccounts AccNotRegistered), [], m1)
           | Some a \<Rightarrow>
               if RefreshBlocked a then (Inl ERefresh, [], m1)
               else if now + 2 * 60 * 1000000000 < cExpiresAt (Credentials a) then (Inr (record_access a), [], m1)
               else if \<not> live env 5 then (Inl EContext, [], m1)
               else exchange_record V env slot r a m1))"

text \<open>Only what is committed: the answer, or \<open>None\<close> when the request must join the mutations.\<close>

definition requestAccessWithoutRefresh :: "'v vault \<Rightarrow> 'v request_env \<Rightarrow> string \<Rightarrow> time \<Rightarrow> 'v manager
    \<Rightarrow> owned_access res option \<times> 'v manager" where
  "requestAccessWithoutRefresh V env slot now m =
     (if \<not> live env 1 \<or> \<not> live env 2 then (Some (Inl EContext), m)
      else if \<not> slot_valid slot then (Some (Inl (EAccounts AccSlot)), m)
      else if refreshSlot m = slot then (None, m)
      else case manager_read V m of
        (Inl e, m1) \<Rightarrow> (Some (Inl e), m1)
      | (Inr r, m1) \<Rightarrow>
          (case slot_record slot r of
             None \<Rightarrow> (Some (Inl (EAccounts AccNotRegistered)), m1)
           | Some a \<Rightarrow>
               if RefreshBlocked a then (Some (Inl ERefresh), m1)
               else if now + 2 * 60 * 1000000000 < cExpiresAt (Credentials a) then (Some (Inr (record_access a)), m1)
               else (None, m1)))"

definition request_access :: "'v vault \<Rightarrow> 'v request_env \<Rightarrow> string \<Rightarrow> time \<Rightarrow> 'v manager
    \<Rightarrow> owned_access res \<times> (credentials \<times> 'v manager) list \<times> 'v manager" where
  "request_access V env slot now m =
     (if \<not> live env 0 then (Inl EContext, [], m)
      else if \<not> hasRefresher m then (case manager_Access V slot now m of (a, m1) \<Rightarrow> (a, [], m1))
      else case requestAccessWithoutRefresh V env slot now m of
        (Some a, m1) \<Rightarrow> (a, [], m1)
      | (None, m1) \<Rightarrow>
          if \<not> live env 3 \<or> \<not> live env 4 then (Inl EContext, [], m1)
          else let m2 = others env 0 m1 in
            if \<not> slot_valid slot then (Inl (EAccounts AccSlot), [], m2)
            else case manager_read V m2 of
              (Inl e, m3) \<Rightarrow> (Inl e, [], m3)
            | (Inr r, m3) \<Rightarrow>
                (case slot_record slot r of
                   None \<Rightarrow> (Inl (EAccounts AccNotRegistered), [], m3)
                 | Some a \<Rightarrow>
                     if RefreshBlocked a then (Inl ERefresh, [], m3)
                     else if now + 2 * 60 * 1000000000 < cExpiresAt (Credentials a) then (Inr (record_access a), [], m3)
                     else if \<not> hasRefresher m3 \<or> tempParent m3 = [] then (Inl (EAccounts AccExpired), [], m3)
                     else case process_lock env of
                       Inl e \<Rightarrow> (Inl e, [], m3)
                     | Inr _ \<Rightarrow> locked_refresh V env slot now (others env 1 m3)))"

text \<open>A request whose context ended returns nothing, whatever was committed.\<close>

definition manager_RequestAccessContext :: "'v vault \<Rightarrow> 'v request_env \<Rightarrow> string \<Rightarrow> time \<Rightarrow> 'v manager
    \<Rightarrow> owned_access res \<times> (credentials \<times> 'v manager) list \<times> 'v manager" where
  "manager_RequestAccessContext V env slot now m =
     (case request_access V env slot now m of (a, tr, m1) \<Rightarrow> (if \<not> live env 6 then Inl EContext else a, tr, m1))"

section \<open>Authentication progress\<close>

text \<open>Counters per slot. A running refresh is identified by its request.\<close>

record authenticationProgress =
  waiting :: "int list"
  refreshing :: "nat option list"

definition progress_zero :: authenticationProgress where
  "progress_zero = \<lparr>waiting = replicate Capacity 0, refreshing = replicate Capacity None\<rparr>"

text \<open>\<^verbatim>\<open>begin\<close> answers the index whose callbacks it returns; for a foreign slot they do nothing.\<close>

definition progress_begin :: "string \<Rightarrow> authenticationProgress \<Rightarrow> nat option \<times> authenticationProgress" where
  "progress_begin slot p =
     (if slot \<notin> set slot_all then (None, p)
      else let i = length (takeWhile (\<lambda>s. s \<noteq> slot) slot_all)
           in (Some i, p\<lparr>waiting := (waiting p)[i := waiting p ! i + 1]\<rparr>))"

definition progress_refreshing :: "nat \<Rightarrow> nat \<Rightarrow> authenticationProgress \<Rightarrow> authenticationProgress" where
  "progress_refreshing i request p =
     p\<lparr>waiting := (waiting p)[i := waiting p ! i - 1], refreshing := (refreshing p)[i := Some request]\<rparr>"

definition progress_finish :: "nat \<Rightarrow> nat \<Rightarrow> bool \<Rightarrow> authenticationProgress \<Rightarrow> authenticationProgress" where
  "progress_finish i request started p =
     (if started then
        if refreshing p ! i = Some request then p\<lparr>refreshing := (refreshing p)[i := None]\<rparr> else p
      else p\<lparr>waiting := (waiting p)[i := waiting p ! i - 1]\<rparr>)"

record authentication_status =
  auSlot :: string
  auWaiting :: int
  auRefreshing :: bool
  auCanceled :: bool

definition AuthenticationStatus :: "(nat \<Rightarrow> bool) \<Rightarrow> authenticationProgress \<Rightarrow> authentication_status list" where
  "AuthenticationStatus cancelled p =
     concat (map (\<lambda>(i, slot).
       if waiting p ! i = 0 \<and> refreshing p ! i = None then []
       else [\<lparr>auSlot = slot, auWaiting = waiting p ! i, auRefreshing = refreshing p ! i \<noteq> None,
              auCanceled = (case refreshing p ! i of None \<Rightarrow> False | Some k \<Rightarrow> cancelled k)\<rparr>])
       (enumerate 0 slot_all))"

end
