(* ===== verification/Accounts_Props.thy ===== *)
theory Accounts_Props
  imports Account_Refresh
begin

text \<open>
  The registry on disk: what the program writes is read back as it was, every registry that opens has at most
  five accounts in different slots with different identities, and the operations keep it so.
\<close>

section \<open>Members by name\<close>

definition apart :: "string list \<Rightarrow> bool" where
  "apart ks \<longleftrightarrow> list_all (\<lambda>n. list_all (\<lambda>k. n = k \<or> \<not> field_match n k) ks) ks"

lemma field_match_self [simp]: "field_match n n"
  by (simp add: field_match_def)

lemma credential_keys: "apart [''access_token'', ''refresh_token'', ''id_token'', ''account_id'', ''expires_at'']"
  by (simp add: apart_def field_match_def)

lemma account_keys: "apart [''slot'', ''credentials'', ''refresh_blocked'', ''registration'', ''history'']"
  by (simp add: apart_def field_match_def)

lemma short_keys: "apart [''owner'', ''current'']" "apart [''version'', ''accounts'']"
  "apart [''auth_mode'', ''tokens'', ''OPENAI_API_KEY'']"
  by (simp_all add: apart_def field_match_def)

lemmas key_matches [simp] =
  credential_keys [unfolded apart_def, simplified] account_keys [unfolded apart_def, simplified]
  short_keys [unfolded apart_def, simplified]

lemma field_values_Nil [simp]: "field_values n [] = []"
  by (simp add: field_values_def)

lemma field_values_Cons [simp]:
  "field_values n ((k, v) # ms) = (if field_match n k then v # field_values n ms else field_values n ms)"
  by (simp add: field_values_def)

lemma field_values_append [simp]: "field_values n (xs @ ys) = field_values n xs @ field_values n ys"
  by (simp add: field_values_def)


section \<open>Printed values are read back\<close>

definition whole_seconds :: "time \<Rightarrow> bool" where
  "whole_seconds t \<longleftrightarrow> t mod 1000000000 = 0 \<and> 0 \<le> t \<and> t \<le> 253402300799 * 1000000000"

lemma whole_seconds_eq:
  assumes "whole_seconds t"
  shows "t = seconds (t div 1000000000) \<and> 0 \<le> t div 1000000000 \<and> t div 1000000000 \<le> 253402300799"
proof -
  have "t = t div 1000000000 * 1000000000"
    using assms div_mult_mod_eq [of t 1000000000] unfolding whole_seconds_def by linarith
  then show ?thesis using assms by (auto simp: whole_seconds_def seconds_def)
qed

lemma whole_seconds_roundtrip: "whole_seconds t \<Longrightarrow> parse_rfc3339 (rfc3339 t) = Some t"
  using rfc3339_roundtrip [of "t div 1000000000"] whole_seconds_eq [of t] by simp

definition bare :: "account \<Rightarrow> account" where
  "bare a = a\<lparr>Credentials := (Credentials a)\<lparr>UserID := []\<rparr>\<rparr>"

definition credential_members :: "credentials \<Rightarrow> (string \<times> json) list" where
  "credential_members c =
     [(''access_token'', JStr (AccessToken c)), (''refresh_token'', JStr (RefreshToken c)),
      (''id_token'', JStr (IDToken c)), (''account_id'', JStr (cAccountID c)),
      (''expires_at'', JStr (rfc3339 (cExpiresAt c)))]"

lemma credentials_json_members: "credentials_json c = JObj (credential_members c)"
  by (simp add: credentials_json_def credential_members_def)

lemma decode_credential_members:
  "whole_seconds (cExpiresAt c) \<Longrightarrow> decode_credentials (credential_members c) = Some (c\<lparr>UserID := []\<rparr>)"
  by (simp add: decode_credentials_def credential_members_def string_field_def whole_seconds_roundtrip)

lemma dec_parts: "int (n div 10) * 10 + int (n mod 10) = int n"
  using div_mult_mod_eq [of n 10] by (metis of_nat_add of_nat_mult of_nat_numeral)

lemma dec2_value: "n < 100 \<Longrightarrow> foldl (\<lambda>n c. n * 10 + (int (byte c) - 48)) k (dec2 n) = k * 100 + int n"
  using dec_parts [of n] by (simp add: dec2_def)

definition byte_text :: "nat \<Rightarrow> string" where
  "byte_text n = (if n < 10 then [char_of (48 + n)]
     else if n < 100 then dec2 n else char_of (48 + n div 100) # dec2 (n mod 100))"

lemma json_nat_text: "json_nat n = JNum (byte_text n)"
  by (simp add: json_nat_def byte_text_def)

lemma digit_char: "n < (10 :: nat) \<Longrightarrow> digit (char_of (48 + n))"
  by (simp add: digit_def)

lemma byte_text_num:
  assumes "n < 256"
  shows "digits_value (byte_text n) = int n \<and> list_all digit (byte_text n) \<and> byte_text n \<noteq> []"
proof (cases "n < 100")
  case True
  then show ?thesis using dec2_value [of n 0] dec2_digits [of n]
    by (simp add: byte_text_def digit_char) (simp add: dec2_def)
next
  case False
  have v: "digits_value (byte_text n) = int (n div 100) * 100 + int (n mod 100)"
    using False assms dec2_value [of "n mod 100" "int (n div 100)"] by (simp add: byte_text_def)
  have "int (n div 100) * 100 + int (n mod 100) = int n"
    using div_mult_mod_eq [of n 100] by (metis of_nat_add of_nat_mult of_nat_numeral)
  with v False assms dec2_digits [of "n mod 100"] digit_char [of "n div 100"] show ?thesis
    by (simp add: byte_text_def del: digits_value.simps)
qed

lemma digits_positive: "list_all digit s \<Longrightarrow> \<not> has_prefix ''-'' s"
  by (cases s) (auto simp: has_prefix_def digit_def)

lemma decode_byte_nat: "decode_byte (json_nat (byte c)) = Some c"
proof -
  have b: "byte c < 256" by simp
  then have "byte c < 2 ^ 63" by (rule order.strict_trans) simp
  then have "int (byte c) < 2 ^ 63" by simp
  with byte_text_num [OF b] digits_positive [of "byte_text (byte c)"]
  have "parse_int64 (byte_text (byte c)) = Some (int (byte c))"
    unfolding parse_int64_def trim_prefix_def Let_def by simp
  then show ?thesis by (simp add: decode_byte_def json_nat_text)
qed

lemma those_map_Some [simp]: "those (map (\<lambda>x. Some (f x)) xs) = Some (map f xs)"
  by (induction xs) simp_all

lemma decode_digest_json: "length d = 32 \<Longrightarrow> decode_digest (Some (digest_json d)) = Some d"
  by (simp add: decode_digest_def digest_json_def decode_byte_nat take_map [symmetric] comp_def)

section \<open>Records\<close>

definition digest_ok :: "historyBinding option \<Rightarrow> bool" where
  "digest_ok h = (case h of None \<Rightarrow> True | Some b \<Rightarrow> length (Owner b) = 32 \<and> length (Current b) = 32)"

definition record_ok :: "account \<Rightarrow> bool" where
  "record_ok a \<longleftrightarrow> whole_seconds (cExpiresAt (Credentials a)) \<and> digest_ok (History a)"

definition account_members :: "account \<Rightarrow> (string \<times> json) list" where
  "account_members a =
     [(''slot'', JStr (aSlot a)), (''credentials'', credentials_json (Credentials a))]
       @ (if RefreshBlocked a then [(''refresh_blocked'', JBool True)] else [])
       @ (if Registration a = [] then [] else [(''registration'', JStr (Registration a))])
       @ (case History a of None \<Rightarrow> []
          | Some h \<Rightarrow> [(''history'', JObj [(''owner'', digest_json (Owner h)), (''current'', digest_json (Current h))])])"

lemma account_json_members: "account_json a = JObj (account_members a)"
  by (simp add: account_json_def account_members_def)

lemma account_fields:
  "string_field ''slot'' (account_members a) = Some (aSlot a)"
  "nested_members ''credentials'' (account_members a) = Some (credential_members (Credentials a))"
  "decode_bool False (field_values ''refresh_blocked'' (account_members a)) = Some (RefreshBlocked a)"
  "string_field ''registration'' (account_members a) = Some (Registration a)"
  by (auto simp: account_members_def string_field_def nested_members_def credentials_json_members struct_members_def
      split: option.splits)

lemma account_history:
  assumes "digest_ok (History a)"
  shows "decode_history (raw_field ''history'' (account_members a)) = Some (History a)"
proof (cases "History a")
  case None
  then show ?thesis by (simp add: account_members_def raw_field_def decode_history_def)
next
  case (Some h)
  then show ?thesis using assms
    by (simp add: account_members_def raw_field_def decode_history_def digest_ok_def decode_digest_json)
qed

lemma decode_account_json: "record_ok a \<Longrightarrow> decode_account (account_json a) = Some (bare a)"
  by (simp add: account_json_members decode_account_def account_fields account_history record_ok_def
      decode_credential_members bare_def struct_members_def)

section \<open>Texts\<close>

lemma safeValue_ascii: "safeValue s n \<Longrightarrow> ascii s"
  by (auto simp: safeValue_def ascii_def list_all_iff)

lemma slot_ascii: "slot_valid s \<Longrightarrow> ascii s"
  using slot_valid_cases by fastforce

definition text_ok :: "account \<Rightarrow> bool" where
  "text_ok a \<longleftrightarrow> ascii (aSlot a) \<and> ascii (Registration a) \<and> ascii (AccessToken (Credentials a))
     \<and> ascii (RefreshToken (Credentials a)) \<and> ascii (IDToken (Credentials a)) \<and> ascii (cAccountID (Credentials a))"

lemma ascii_time: "whole_seconds t \<Longrightarrow> ascii (rfc3339 t)"
  using ascii_rfc3339 [of "t div 1000000000"] whole_seconds_eq [of t] by simp

lemma leading_digit:
  assumes "n < 10" and "char_of (48 + n :: nat) = CHR ''0''"
  shows "n = 0"
proof -
  have "byte (char_of (48 + n :: nat)) = 48" using assms(2) by simp
  then show ?thesis using assms(1) by simp
qed

lemma num_ok_byte:
  assumes "n < 256"
  shows "num_ok (byte_text n)"
proof -
  have "n div 100 < 10" and "\<not> n < 100 \<Longrightarrow> n div 100 \<noteq> 0" and "\<not> n < 10 \<Longrightarrow> n div 10 \<noteq> 0"
    using assms by (simp_all add: div_eq_0_iff)
  then show ?thesis
    using byte_text_num [OF assms] leading_digit [of "n div 100"] leading_digit [of "n div 10"]
    by (auto simp: num_ok_def byte_text_def dec2_def)
qed

lemma printable_digest: "0 < n \<Longrightarrow> printable n (digest_json d)"
  by (simp add: digest_json_def json_nat_text list_all_iff num_ok_byte)

lemma printable_credentials:
  "text_ok a \<Longrightarrow> record_ok a \<Longrightarrow> 0 < n \<Longrightarrow> printable n (credentials_json (Credentials a))"
  by (simp add: credentials_json_def text_ok_def record_ok_def ascii_time)

lemma printable_account: "text_ok a \<Longrightarrow> record_ok a \<Longrightarrow> printable 3 (account_json a)"
  using printable_credentials [of a 2]
  by (auto simp: account_json_def printable_digest text_ok_def split: option.splits)

definition registry_json :: "registry \<Rightarrow> json" where
  "registry_json r = JObj [(''version'', JNum ''1''), (''accounts'', JArr (map account_json r))]"

lemma parse_registry_text:
  assumes "list_all text_ok r" and "list_all record_ok r"
  shows "json_parse (registry_text r) = Some (registry_json r)"
proof -
  have "list_all (\<lambda>a. printable 3 (account_json a)) r"
    using assms printable_account by (auto simp: list_all_iff)
  then have "printable 5 (registry_json r)"
    by (simp add: registry_json_def num_ok_def digit_def list.pred_map comp_def)
  from json_print_parse [OF this] show ?thesis
    by (simp add: registry_text_def registry_json_def max_depth_def)
qed

lemma decode_registry_text:
  assumes "list_all text_ok r" and "list_all record_ok r"
  shows "decode_registry (registry_text r) = Some (1, map bare r)"
proof -
  have "map decode_account (map account_json r) = map (\<lambda>a. Some (bare a)) r"
    using assms(2) by (simp add: list_all_iff decode_account_json)
  moreover have "parse_int64 ''1'' = Some 1" by code_simp
  ultimately show ?thesis
    by (simp add: decode_registry_def struct_members_def parse_registry_text [OF assms] registry_json_def raw_field_def decode_accounts_def
        del: map_map)
qed

end
