(* ===== verification/Registry_Inv.thy ===== *)
theory Registry_Inv
  imports Accounts_Props
begin

text \<open>
  What validation establishes: every registry that opens is well formed, a well-formed registry written by the
  program opens as itself, and the changes the operations make (a login, a replacement, a marker, a commit,
  a removal) keep it well formed.
\<close>

section \<open>Validation, one record at a time\<close>

definition clash :: "credentials \<Rightarrow> credentials \<Rightarrow> bool" where
  "clash a b \<longleftrightarrow> cAccountID a = cAccountID b \<and> (sameIdentity a b \<or> UserID a = [] \<or> UserID b = [])"

definition compatible :: "account \<Rightarrow> account \<Rightarrow> bool" where
  "compatible a b \<longleftrightarrow> aSlot a \<noteq> aSlot b \<and> \<not> clash (Credentials a) (Credentials b)"

definition valid_record :: "account \<Rightarrow> bool" where
  "valid_record a \<longleftrightarrow> check_account [] a = Some a"

definition well_formed :: "registry \<Rightarrow> bool" where
  "well_formed r \<longleftrightarrow> length r \<le> 5 \<and> list_all valid_record r \<and> sorted_wrt compatible r"

lemma compatible_sym: "compatible a b \<Longrightarrow> compatible b a"
  by (auto simp: compatible_def clash_def sameIdentity_def)

text \<open>The parts of the test: on the record itself, and against the records before it.\<close>

definition fit :: "account \<Rightarrow> tokenClaims \<Rightarrow> bool" where
  "fit a cl \<longleftrightarrow>
     (Registration a = [] \<or> safeValue (Registration a) 256) \<and> slot_valid (aSlot a)
     \<and> safeValue (cAccountID (Credentials a)) 256 \<and> safeValue (AccessToken (Credentials a)) (32 * 1024)
     \<and> safeValue (RefreshToken (Credentials a)) 8192 \<and> safeValue (IDToken (Credentials a)) (32 * 1024)
     \<and> cExpiresAt (Credentials a) \<noteq> zero_time
     \<and> (authAccount cl = [] \<or> authAccount cl = cAccountID (Credentials a))
     \<and> (authUser cl = [] \<or> safeValue (authUser cl) 256)"

definition derived :: "account \<Rightarrow> tokenClaims \<Rightarrow> account" where
  "derived a cl = a\<lparr>Credentials := (Credentials a)\<lparr>UserID := authUser cl\<rparr>\<rparr>"

lemma derived_simps [simp]:
  "aSlot (derived a cl) = aSlot a" "Registration (derived a cl) = Registration a"
  "AccessToken (Credentials (derived a cl)) = AccessToken (Credentials a)"
  "RefreshToken (Credentials (derived a cl)) = RefreshToken (Credentials a)"
  "IDToken (Credentials (derived a cl)) = IDToken (Credentials a)"
  "cAccountID (Credentials (derived a cl)) = cAccountID (Credentials a)"
  "cExpiresAt (Credentials (derived a cl)) = cExpiresAt (Credentials a)"
  "UserID (Credentials (derived a cl)) = authUser cl"
  "fit (derived a cl) = fit a" "derived (derived a cl) cl = derived a cl"
  by (simp_all add: derived_def fit_def fun_eq_iff)

lemma check_account_parts:
  "check_account seen a = (case accessClaims (AccessToken (Credentials a)) of None \<Rightarrow> None
     | Some cl \<Rightarrow> if fit a cl \<and> list_all (\<lambda>p. compatible p (derived a cl)) seen then Some (derived a cl) else None)"
proof (cases "accessClaims (AccessToken (Credentials a))")
  case None
  then show ?thesis by (simp add: check_account_def Let_def)
next
  case (Some cl)
  have c: "list_all (\<lambda>p. compatible p (derived a cl)) seen \<longleftrightarrow>
      aSlot a \<notin> set (map aSlot seen) \<and> \<not> list_ex (\<lambda>p. clash (Credentials p) ((Credentials a)\<lparr>UserID := authUser cl\<rparr>)) seen"
    by (induction seen) (auto simp: compatible_def derived_def)
  show ?thesis
    unfolding Some option.case c fit_def
    by (simp add: check_account_def Some Let_def clash_def derived_def)
qed

lemma check_account_same:
  "check_account seen a = Some b \<longleftrightarrow> check_account [] a = Some b \<and> list_all (\<lambda>p. compatible p b) seen"
  by (auto simp: check_account_parts split: option.splits if_splits)

lemma check_account_bare: "check_account seen (bare a) = check_account seen a"
proof -
  have "fit (bare a) = fit a" "derived (bare a) = derived a"
    "AccessToken (Credentials (bare a)) = AccessToken (Credentials a)"
    by (simp_all add: fun_eq_iff fit_def derived_def bare_def)
  then show ?thesis unfolding check_account_parts by (simp only:)
qed

lemma valid_record_iff:
  "valid_record a \<longleftrightarrow> (\<exists>cl. accessClaims (AccessToken (Credentials a)) = Some cl \<and> fit a cl \<and> UserID (Credentials a) = authUser cl)"
proof -
  have "derived a cl = a \<longleftrightarrow> UserID (Credentials a) = authUser cl" for cl
  proof
    assume "derived a cl = a"
    then show "UserID (Credentials a) = authUser cl" by (metis derived_simps(8))
  next
    assume u: "UserID (Credentials a) = authUser cl"
    show "derived a cl = a" unfolding derived_def u [symmetric] by simp
  qed
  then show ?thesis by (auto simp: valid_record_def check_account_parts split: option.splits)
qed

lemma check_account_valid: "check_account seen a = Some b \<Longrightarrow> valid_record b"
  by (auto simp: valid_record_def check_account_parts split: option.splits if_splits)

lemma valid_record_text: "valid_record a \<Longrightarrow> text_ok a"
  by (auto simp: valid_record_iff fit_def text_ok_def safeValue_ascii slot_ascii)

lemma check_accounts_result:
  "check_accounts seen as = Some r \<Longrightarrow> sorted_wrt compatible seen \<Longrightarrow> list_all valid_record seen \<Longrightarrow>
     sorted_wrt compatible r \<and> list_all valid_record r \<and> length r = length seen + length as"
proof (induction seen as rule: check_accounts.induct)
  case (2 seen a as)
  then obtain b where b: "check_account seen a = Some b" by (auto split: option.splits)
  then have "list_all (\<lambda>p. compatible p b) seen" using check_account_same by blast
  with 2 b check_account_valid [OF b] show ?case
    by (simp add: sorted_wrt_append list_all_iff)
qed simp

lemma check_accounts_fixed:
  "list_all valid_record as \<Longrightarrow> sorted_wrt compatible (seen @ as) \<Longrightarrow> check_accounts seen as = Some (seen @ as)"
proof (induction as arbitrary: seen)
  case (Cons a as)
  then have "check_account seen a = Some a"
    using check_account_same [of seen a a] by (auto simp: valid_record_def list_all_iff sorted_wrt_append)
  with Cons.prems Cons.IH [of "seen @ [a]"] show ?case by simp
qed simp

lemma check_accounts_bare: "check_accounts seen (map bare as) = check_accounts seen as"
  by (induction as arbitrary: seen) (simp_all add: check_account_bare split: option.splits)

lemma open_registry_well_formed:
  assumes "open_registry d = Some r"
  shows "well_formed r"
proof -
  have "\<exists>as. length as \<le> 5 \<and> check_accounts [] as = Some r"
    using assms by (auto simp: open_registry_def split: if_splits option.splits intro!: leI)
  then obtain as where as: "length as \<le> 5" "check_accounts [] as = Some r" by blast
  from check_accounts_result [OF this(2)] as(1) show ?thesis by (simp add: well_formed_def)
qed

lemma reopen_registry:
  assumes "well_formed r" and "list_all record_ok r" and "int (length (registry_text r)) \<le> credential_MaxBytes"
  shows "open_registry (registry_text r) = Some r"
proof -
  have "list_all text_ok r" using assms(1) valid_record_text by (auto simp: well_formed_def list_all_iff)
  moreover have "check_accounts [] r = Some r"
    using check_accounts_fixed [of r "[]"] assms(1) by (simp add: well_formed_def)
  ultimately show ?thesis
    using assms by (simp add: open_registry_def decode_registry_text check_accounts_bare well_formed_def)
qed

section \<open>Slots\<close>

lemma well_formed_slots:
  assumes "list_all valid_record r" and "sorted_wrt compatible r"
  shows "distinct (map aSlot r) \<and> set (map aSlot r) \<subseteq> set slot_all"
proof
  show "distinct (map aSlot r)"
    using assms(2) by (induction r) (auto simp: compatible_def)
  have "slot_valid (aSlot a)" if "a \<in> set r" for a
    using assms(1) that by (auto simp: list_all_iff valid_record_iff fit_def)
  then show "set (map aSlot r) \<subseteq> set slot_all" by (auto simp: slot_valid_iff)
qed

text \<open>Five slots bound the registry.\<close>

lemma well_formed_intro:
  assumes "list_all valid_record r" and "sorted_wrt compatible r"
  shows "well_formed r"
proof -
  note s = well_formed_slots [OF assms]
  have "length r = card (set (map aSlot r))" using s distinct_card [of "map aSlot r"] by simp
  also have "\<dots> \<le> card (set slot_all)" using s by (intro card_mono) auto
  also have "\<dots> = 5" by (simp add: slot_all_def)
  finally show ?thesis using assms by (simp add: well_formed_def)
qed

lemma well_formedD: "well_formed r \<Longrightarrow> list_all valid_record r \<and> sorted_wrt compatible r"
  by (simp add: well_formed_def)

lemma compatible_records:
  "sorted_wrt compatible r \<Longrightarrow> a \<in> set r \<Longrightarrow> b \<in> set r \<Longrightarrow> a = b \<or> compatible a b"
  by (induction r) (auto dest: compatible_sym)

lemma slot_record_in: "slot_record slot r = Some a \<Longrightarrow> a \<in> set r \<and> aSlot a = slot"
  by (auto simp: slot_record_def find_Some_iff)

lemma slot_record_unique:
  assumes "well_formed r" and "a \<in> set r" and "aSlot a = slot"
  shows "slot_record slot r = Some a"
proof (cases "slot_record slot r")
  case None
  then show ?thesis using assms by (auto simp: slot_record_def find_None_iff)
next
  case (Some b)
  then have "b \<in> set r" "aSlot b = slot" using slot_record_in by auto
  then show ?thesis using compatible_records [of r a b] assms Some by (auto simp: well_formed_def compatible_def)
qed

section \<open>Changes\<close>

lemma drop_first_subset: "set (drop_first P r) \<subseteq> set r"
  by (induction r) auto

lemma drop_first_sorted: "sorted_wrt Q r \<Longrightarrow> sorted_wrt Q (drop_first P r)"
  by (induction r) (auto dest: subsetD [OF drop_first_subset])

lemma well_formed_drop: "well_formed r \<Longrightarrow> well_formed (drop_first P r)"
  using drop_first_subset [of P r]
  by (intro well_formed_intro) (auto simp: well_formed_def drop_first_sorted list_all_iff)

lemma drop_first_filter:
  "sorted_wrt compatible r \<Longrightarrow> drop_first (\<lambda>a. aSlot a = slot) r = filter (\<lambda>a. aSlot a \<noteq> slot) r"
proof (induction r)
  case (Cons a r)
  have "filter (\<lambda>b. aSlot b \<noteq> slot) r = r" if "aSlot a = slot"
    using Cons.prems that by (intro filter_True) (auto simp: compatible_def)
  with Cons show ?case by simp
qed simp

lemma sorted_wrt_map_update:
  assumes "sorted_wrt Q r" and "\<And>a b. a \<in> set r \<Longrightarrow> b \<in> set r \<Longrightarrow> Q a b \<Longrightarrow> Q (f a) (f b)"
  shows "sorted_wrt Q (map f r)"
  using assms by (induction r) auto

text \<open>Replacing the record of one slot.\<close>

lemma well_formed_replace:
  assumes "well_formed r" and "aSlot b = slot" and "valid_record b"
    and "\<And>a. a \<in> set r \<Longrightarrow> aSlot a \<noteq> slot \<Longrightarrow> \<not> clash (Credentials a) (Credentials b)"
  shows "well_formed (map (\<lambda>a. if aSlot a = slot then b else a) r)"
proof (rule well_formed_intro)
  show "list_all valid_record (map (\<lambda>a. if aSlot a = slot then b else a) r)"
    using assms by (auto simp: well_formed_def list_all_iff)
  show "sorted_wrt compatible (map (\<lambda>a. if aSlot a = slot then b else a) r)"
  proof (rule sorted_wrt_map_update)
    show "sorted_wrt compatible r" using assms(1) by (simp add: well_formed_def)
    fix x y assume xy: "x \<in> set r" "y \<in> set r" "compatible x y"
    then have distinct_slots: "aSlot x \<noteq> aSlot y" by (simp add: compatible_def)
    have "compatible x b" if "aSlot x \<noteq> slot" "x \<in> set r" for x
      using assms(2,4) that by (auto simp: compatible_def)
    then show "compatible (if aSlot x = slot then b else x) (if aSlot y = slot then b else y)"
      using xy compatible_sym [of y b] distinct_slots by (simp split: if_split)
  qed
qed

lemma replace_slot_map:
  assumes "well_formed r" and "slot_record slot r = Some a" and "\<And>c. aSlot (f c) = aSlot c"
  shows "map (\<lambda>c. if aSlot c = slot then f c else c) r = map (\<lambda>c. if aSlot c = slot then f a else c) r"
  using slot_record_unique [OF assms(1)] assms(2) by auto

lemma well_formed_update:
  assumes "well_formed r" and "slot_record slot r = Some a" and "\<And>c. aSlot (f c) = aSlot c" and "valid_record (f a)"
    and "\<And>b. b \<in> set r \<Longrightarrow> aSlot b \<noteq> slot \<Longrightarrow> \<not> clash (Credentials b) (Credentials (f a))"
  shows "well_formed (map (\<lambda>c. if aSlot c = slot then f c else c) r)"
proof -
  have "aSlot (f a) = slot" using slot_record_in [OF assms(2)] assms(3) by simp
  then show ?thesis
    unfolding replace_slot_map [OF assms(1-3)] using assms by (intro well_formed_replace)
qed

lemma well_formed_append:
  assumes "well_formed r" and "valid_record b" and "slot_record (aSlot b) r = None"
    and "\<And>a. a \<in> set r \<Longrightarrow> \<not> clash (Credentials a) (Credentials b)"
  shows "well_formed (r @ [b])"
proof (rule well_formed_intro)
  show "list_all valid_record (r @ [b])" using assms by (simp add: well_formed_def)
  have "compatible a b" if "a \<in> set r" for a
    using assms(3,4) that by (auto simp: compatible_def slot_record_def find_None_iff)
  then show "sorted_wrt compatible (r @ [b])" using assms(1) by (auto simp: well_formed_def sorted_wrt_append)
qed

lemma slot_record_drop: "well_formed r \<Longrightarrow> slot_record s (drop_first (\<lambda>a. aSlot a = slot) r) = (if s = slot then None else slot_record s r)"
  unfolding drop_first_filter [OF conjunct2 [OF well_formedD]]
  by (induction r) (auto simp: slot_record_def well_formed_def find_None_iff)

lemma slot_record_update:
  "(\<And>c. aSlot (f c) = aSlot c) \<Longrightarrow>
     slot_record s (map (\<lambda>c. if aSlot c = slot then f c else c) r) =
       (if s = slot then map_option f (slot_record s r) else slot_record s r)"
  by (induction r) (auto simp: slot_record_def)

lemma slot_record_update_const:
  "aSlot b = slot \<Longrightarrow> slot_record s (map (\<lambda>a. if aSlot a = slot then b else a) r) =
     (if s = slot then map_option (\<lambda>_. b) (slot_record s r) else slot_record s r)"
  by (induction r) (auto simp: slot_record_def)

lemma slot_record_append:
  "slot_record s (r @ [b]) = (case slot_record s r of None \<Rightarrow> if aSlot b = s then Some b else None | Some a \<Rightarrow> Some a)"
  by (induction r) (auto simp: slot_record_def)

end
