(* ===== verification/Account_Vault.thy ===== *)
theory Account_Vault
  imports Registry_Inv
begin

text \<open>
  The manager over a vault that keeps its laws: what a registry read from it is, what a save leaves in it, and
  the effect of every mutation. The lemmas are proved once in the locale of the vault and reach the program's
  Keychain through its \<open>sublocale\<close>.
\<close>

section \<open>Imported credentials\<close>

lemma ParseAuth_ok:
  assumes "ParseAuth d = Inr c"
  obtains cl where "accessClaims (AccessToken c) = Some cl" and "UserID c = authUser cl" and "safeValue (authUser cl) 256"
    and "authAccount cl = [] \<or> authAccount cl = cAccountID c"
    and "safeValue (AccessToken c) (32 * 1024)" "safeValue (RefreshToken c) 8192" "safeValue (IDToken c) (32 * 1024)"
      "safeValue (cAccountID c) 256"
    and "cExpiresAt c = seconds (Expires cl)" "0 < Expires cl" "Expires cl \<le> 253402300799"
  using assms by (auto simp: ParseAuth_def Let_def split: option.splits prod.splits if_splits)

lemma whole_seconds_of: "0 < n \<Longrightarrow> n \<le> 253402300799 \<Longrightarrow> whole_seconds (seconds n) \<and> seconds n \<noteq> zero_time"
  by (simp add: whole_seconds_def seconds_def zero_time_def)

lemma imported_record:
  assumes "ParseAuth d = Inr c" and "Credentials b = c" and "slot_valid (aSlot b)" and "digest_ok (History b)"
    and "Registration b = [] \<or> safeValue (Registration b) 256"
  shows "valid_record b \<and> record_ok b"
proof -
  obtain cl where "accessClaims (AccessToken c) = Some cl" and "UserID c = authUser cl" and "safeValue (authUser cl) 256"
    and "authAccount cl = [] \<or> authAccount cl = cAccountID c"
    and "safeValue (AccessToken c) (32 * 1024)" "safeValue (RefreshToken c) 8192" "safeValue (IDToken c) (32 * 1024)"
      "safeValue (cAccountID c) 256"
    and t: "cExpiresAt c = seconds (Expires cl)" "0 < Expires cl" "Expires cl \<le> 253402300799"
    by (rule ParseAuth_ok [OF assms(1)])
  then show ?thesis
    using whole_seconds_of [OF t(2,3)] assms(2-) by (simp add: valid_record_iff fit_def record_ok_def)
qed

lemma ParseAuth_user: "ParseAuth d = Inr c \<Longrightarrow> UserID c \<noteq> []"
  by (erule ParseAuth_ok) (auto simp: safeValue_def)

section \<open>What a vault holds\<close>

definition good :: "registry \<Rightarrow> bool" where
  "good r \<longleftrightarrow> well_formed r \<and> list_all record_ok r"

definition holds :: "('v \<Rightarrow> string option) \<Rightarrow> 'v \<Rightarrow> registry \<Rightarrow> bool" where
  "holds view v r \<longleftrightarrow> good r \<and>
     (case view v of None \<Rightarrow> r = []
      | Some d \<Rightarrow> d = registry_text r \<and> int (length d) \<le> credential_MaxBytes)"

lemma holds_view: "holds view v r \<Longrightarrow> view v1 = view v \<Longrightarrow> holds view v1 r"
  by (simp add: holds_def)

lemma holds_open: "holds view v r \<Longrightarrow> view v = Some d \<Longrightarrow> open_registry d = Some r"
  by (auto simp: holds_def good_def reopen_registry)

lemma holds_good: "holds view v r \<Longrightarrow> good r"
  by (simp add: holds_def)

lemma good_empty: "good []"
  by (simp add: good_def well_formed_def)

context vault_laws
begin

lemma read_store:
  assumes "manager_read V m = (x, m1)"
  shows "view (store m1) = view (store m) \<and> m1 = m\<lparr>store := store m1\<rparr>"
  using assms read_view [of "store m"] by (auto simp: manager_read_def split: prod.splits)

lemma read_registry:
  assumes "manager_read V m = (x, m1)" and "holds view (store m) r"
  shows "x = Inr r \<or> x = Inl (EAccounts AccStore)"
  using assms(1) read_data [of "store m"] read_missing [of "store m"] assms(2) holds_open [OF assms(2)]
  by (auto simp: manager_read_def holds_def split: prod.splits sum.splits option.splits if_splits)

lemma save_store:
  assumes "save_registry V r1 m = (e, m1)"
  shows "(e = None \<longrightarrow> view (store m1) = Some (registry_text r1) \<and> int (length (registry_text r1)) \<le> credential_MaxBytes)
    \<and> (e \<noteq> None \<longrightarrow> e = Some (EAccounts AccStore) \<and> view (store m1) = view (store m)) \<and> m1 = m\<lparr>store := store m1\<rparr>"
proof -
  obtain e0 v where w: "vWrite V (registry_text r1) (store m) = (e0, v)"
    by (cases "vWrite V (registry_text r1) (store m)")
  then have x: "e = (if e0 = None then None else Some (EAccounts AccStore))" "m1 = m\<lparr>store := v\<rparr>"
    using assms by (auto simp: save_registry_def)
  show ?thesis
  proof (cases e0)
    case None
    then show ?thesis using w x write_data write_bound by simp
  next
    case (Some y)
    then show ?thesis using w x write_failed by simp
  qed
qed

lemma save_holds:
  assumes "save_registry V r1 m = (e, m1)" and "good r1" and "holds view (store m) r"
  shows "if e = None then holds view (store m1) r1 else e = Some (EAccounts AccStore) \<and> holds view (store m1) r"
  using save_store [OF assms(1)] assms(2,3) by (auto simp: holds_def)

end

section \<open>Logout\<close>

context vault_laws
begin

lemma logout_registry:
  assumes "Logout V slot m = (e, m1)" and "holds view (store m) r"
  shows "if e = None then holds view (store m1) (filter (\<lambda>a. aSlot a \<noteq> slot) r) else holds view (store m1) r"
proof (cases "slot_valid slot")
  case False
  then show ?thesis using assms by (auto simp: Logout_def)
next
  case True
  obtain x m2 where rd: "manager_read V m = (x, m2)" by (cases "manager_read V m")
  have h: "holds view (store m2) r" using read_store [OF rd] assms(2) holds_view by metis
  have g: "good r" using assms(2) by (rule holds_good)
  show ?thesis
  proof (cases x)
    case (Inl y)
    then show ?thesis using assms(1) True rd h by (auto simp: Logout_def)
  next
    case (Inr y)
    then have y: "y = r" using read_registry [OF rd assms(2)] by auto
    show ?thesis
    proof (cases "slot_record slot r")
      case None
      then have "filter (\<lambda>a. aSlot a \<noteq> slot) r = r"
        by (auto simp: slot_record_def find_None_iff intro: filter_True)
      then show ?thesis using None Inr y assms(1) True rd h by (auto simp: Logout_def)
    next
      case (Some a)
      have "drop_first (\<lambda>a. aSlot a = slot) r = filter (\<lambda>a. aSlot a \<noteq> slot) r"
        using g by (auto simp: good_def well_formed_def drop_first_filter)
      moreover have "good (drop_first (\<lambda>a. aSlot a = slot) r)"
        using g drop_first_subset [of _ r] by (auto simp: good_def well_formed_drop list_all_iff)
      moreover have "save_registry V (drop_first (\<lambda>a. aSlot a = slot) r) m2 = (e, m1)"
        using Some Inr y assms(1) True rd by (simp add: Logout_def)
      ultimately show ?thesis using save_holds [OF _ _ h] by (metis (full_types))
    qed
  qed
qed

end

section \<open>Login\<close>

text \<open>A clash with another slot's account stops the import; what remains is compatible.\<close>

lemma identity_clash_none:
  "identity_clash slot c r = None \<Longrightarrow> UserID c \<noteq> [] \<Longrightarrow> a \<in> set r \<Longrightarrow> aSlot a \<noteq> slot \<Longrightarrow> \<not> clash (Credentials a) c"
  by (induction r) (auto simp: clash_def sameIdentity_def split: if_splits)

definition imported :: "string \<Rightarrow> login_env \<Rightarrow> credentials \<Rightarrow> account" where
  "imported slot env c =
     \<lparr>aSlot = slot, Credentials = c, RefreshBlocked = False, Registration = rand_text env, History = None\<rparr>"

definition login_file :: "login_env \<Rightarrow> credentials res" where
  "login_file env = bind_r (readAuth (auth env)) ParseAuth"

lemma import_login_cases:
  assumes "import_login slot replace env r = (Inr r1, st)" and "replace \<longleftrightarrow> slot_record slot r \<noteq> None"
  obtains c where "login_file env = Inr c" and "identity_clash slot c r = None" and "clock env + 30 * 1000000000 < cExpiresAt c"
    and "slot_record slot r = None \<or> (\<exists>old. slot_record slot r = Some old \<and> sameIdentity (Credentials old) c)"
    and "r1 = (if replace then map (\<lambda>a. if aSlot a = slot then imported slot env c else a) r else r @ [imported slot env c])"
proof -
  obtain c where c: "bind_r (readAuth (auth env)) ParseAuth = Inr c"
    using assms(1) by (auto simp: import_login_def Let_def split: if_splits sum.splits)
  have m: "map (\<lambda>a. if aSlot a = slot then a\<lparr>Credentials := c, RefreshBlocked := False,
      Registration := rand_text env, History := None\<rparr> else a) r =
    map (\<lambda>a. if aSlot a = slot then imported slot env c else a) r"
    by (simp add: imported_def)
  show ?thesis
  proof (cases "slot_record slot r")
    case None
    then show ?thesis
      using assms c by (intro that [of c])
        (auto simp: import_login_def Let_def login_file_def imported_def split: if_splits)
  next
    case (Some old)
    then show ?thesis
      using assms c m by (intro that [of c])
        (auto simp: import_login_def Let_def login_file_def split: if_splits)
  qed
qed

lemma import_login_good:
  assumes "import_login slot replace env r = (Inr r1, st)" and "replace \<longleftrightarrow> slot_record slot r \<noteq> None"
    and "good r" and "slot_valid slot" and "safeValue (rand_text env) 256"
  shows "good r1 \<and> (\<exists>c. login_file env = Inr c \<and> slot_record slot r1 = Some (imported slot env c))
    \<and> (\<forall>s. s \<noteq> slot \<longrightarrow> slot_record s r1 = slot_record s r)"
proof -
  obtain c where c: "login_file env = Inr c" and cl: "identity_clash slot c r = None"
    and r1: "r1 = (if replace then map (\<lambda>a. if aSlot a = slot then imported slot env c else a) r else r @ [imported slot env c])"
    by (rule import_login_cases [OF assms(1,2)])
  obtain d where d: "ParseAuth d = Inr c"
    using c by (auto simp: login_file_def bind_r_def split: sum.splits)
  have slot: "aSlot (imported slot env c) = slot" by (simp add: imported_def)
  have new: "valid_record (imported slot env c) \<and> record_ok (imported slot env c)"
    using assms(4,5) by (intro imported_record [OF d]) (simp_all add: imported_def digest_ok_def)
  have apart: "\<not> clash (Credentials a) (Credentials (imported slot env c))" if "a \<in> set r" "aSlot a \<noteq> slot" for a
    using identity_clash_none [OF cl ParseAuth_user [OF d]] that by (simp add: imported_def)
  show ?thesis
  proof (cases replace)
    case True
    have "well_formed r1"
      using well_formed_replace [of r "imported slot env c" slot] apart slot new assms(3) r1 True
      by (simp add: good_def)
    moreover have "list_all record_ok r1" using new assms(3) r1 True by (auto simp: good_def list_all_iff)
    moreover have "slot_record slot r1 = Some (imported slot env c)"
      using assms(2) True slot r1 slot_record_update_const [of "imported slot env c" slot slot r] by auto
    moreover have "\<forall>s. s \<noteq> slot \<longrightarrow> slot_record s r1 = slot_record s r"
      using r1 True slot slot_record_update_const [of "imported slot env c" slot _ r] by auto
    ultimately show ?thesis using c by (simp add: good_def)
  next
    case False
    then have none: "slot_record slot r = None" using assms(2) by simp
    have "\<not> clash (Credentials a) (Credentials (imported slot env c))" if "a \<in> set r" for a
      using apart [OF that] none that by (auto simp: slot_record_def find_None_iff)
    then have "well_formed r1"
      using well_formed_append [of r "imported slot env c"] none slot new assms(3) r1 False by (simp add: good_def)
    moreover have "list_all record_ok r1" using new assms(3) r1 False by (simp add: good_def)
    ultimately show ?thesis using c r1 False none slot by (auto simp: good_def slot_record_append split: option.splits)
  qed
qed

text \<open>What a completed login of a slot leaves: the imported record there and the other slots as they were.\<close>

definition logged_in :: "string \<Rightarrow> login_env \<Rightarrow> registry \<Rightarrow> registry \<Rightarrow> bool" where
  "logged_in slot env r r1 \<longleftrightarrow>
     (\<exists>c. login_file env = Inr c \<and> slot_record slot r1 = Some (imported slot env c))
     \<and> (\<forall>s. s \<noteq> slot \<longrightarrow> slot_record s r1 = slot_record s r)"

text \<open>Up to the import nothing is written.\<close>

lemma login_import:
  assumes "login V slot replace env m = (e, st, m1)"
  obtains (stopped) x where "manager_read V m = (x, m1)" "e \<noteq> None"
    | (invalid) "m1 = m" "e \<noteq> None"
    | (saved) r m2 r1 st1 e1 where "slot_valid slot" "manager_read V m = (Inr r, m2)" "replace \<longleftrightarrow> slot_record slot r \<noteq> None"
        "import_login slot replace env r = (Inr r1, st1)" "save_registry V r1 m2 = (e1, m1)"
        "e = (if cleanup_ok env then e1 else Some (EAccounts AccCleanup))"
proof -
  obtain x m2 where rd: "manager_read V m = (x, m2)" by (cases "manager_read V m")
  show ?thesis
  proof (cases "slot_valid slot")
    case False
    then show ?thesis using assms by (intro invalid) (auto simp: login_def Let_def)
  next
    case valid: True
    show ?thesis
    proof (cases x)
      case (Inl y)
      then show ?thesis using assms valid rd by (intro stopped [of x]) (auto simp: login_def Let_def)
    next
      case (Inr r)
      show ?thesis
      proof (cases "(replace \<longleftrightarrow> slot_record slot r \<noteq> None) \<and> \<not> cancelled1 env \<and> mkdir_ok env")
        case False
        then show ?thesis using assms valid rd Inr
          by (intro stopped [of x]) (auto simp: login_def Let_def split: if_splits)
      next
        case go: True
        obtain z st1 where im: "import_login slot replace env r = (z, st1)" by (cases "import_login slot replace env r")
        show ?thesis
        proof (cases z)
          case (Inl y)
          then show ?thesis using assms valid rd Inr go im
            by (intro stopped [of x]) (auto simp: login_def Let_def split: if_splits)
        next
          case (Inr r1)
          obtain e1 m3 where sv: "save_registry V r1 m2 = (e1, m3)" by (cases "save_registry V r1 m2")
          have "m3 = m1" "e = (if cleanup_ok env then e1 else Some (EAccounts AccCleanup))"
            using assms valid rd \<open>x = Inr r\<close> go im Inr sv by (auto simp: login_def Let_def split: if_splits)
          then show ?thesis using valid rd \<open>x = Inr r\<close> go im Inr sv by (intro saved) auto
        qed
      qed
    qed
  qed
qed

context vault_laws
begin

lemma login_registry:
  assumes "login V slot replace env m = (e, st, m1)" and "holds view (store m) r" and "safeValue (rand_text env) 256"
  shows "e \<noteq> None \<and> holds view (store m1) r
    \<or> (e = None \<or> e = Some (EAccounts AccCleanup)) \<and> (\<exists>r1. holds view (store m1) r1 \<and> logged_in slot env r r1)"
  using assms(1)
proof (cases rule: login_import)
  case (stopped x)
  then show ?thesis using read_store [OF stopped(1)] assms(2) holds_view by metis
next
  case invalid
  then show ?thesis using assms(2) by simp
next
  case (saved r0 m2 r1 st1 e1)
  have h: "holds view (store m2) r" using read_store [OF saved(2)] assms(2) holds_view by metis
  have r0: "r0 = r" using read_registry [OF saved(2) assms(2)] by auto
  have g: "good r1 \<and> logged_in slot env r r1"
    using import_login_good [OF saved(4,3)] holds_good [OF assms(2)] saved(1) assms(3) r0
    by (simp add: logged_in_def)
  show ?thesis
  proof (cases e1)
    case None
    then have "holds view (store m1) r1" using save_holds [OF saved(5) _ h] g by simp
    then show ?thesis using g saved(6) None by (auto split: if_splits)
  next
    case (Some y)
    then have "holds view (store m1) r" using save_holds [OF saved(5) _ h] g by simp
    then show ?thesis using saved(6) Some by (auto split: if_splits)
  qed
qed

end

section \<open>The verified refresh\<close>

lemma mark_blocked_slots [simp]: "slot_record s (mark_blocked slot r) =
    (if s = slot then map_option (\<lambda>a. a\<lparr>RefreshBlocked := True\<rparr>) (slot_record s r) else slot_record s r)"
  unfolding mark_blocked_def by (rule slot_record_update) simp

lemma valid_record_blocked: "valid_record a \<Longrightarrow> valid_record (a\<lparr>RefreshBlocked := b\<rparr>)"
  by (auto simp: valid_record_iff fit_def)

lemma good_block: "good r \<Longrightarrow> good (mark_blocked slot r)"
proof -
  assume g: "good r"
  have "sorted_wrt compatible (mark_blocked slot r)"
    using g unfolding mark_blocked_def good_def well_formed_def
    by (intro sorted_wrt_map_update) (auto simp: compatible_def)
  moreover have "list_all valid_record (mark_blocked slot r)" "list_all record_ok (mark_blocked slot r)"
    using g by (auto simp: mark_blocked_def good_def well_formed_def list_all_iff valid_record_blocked record_ok_def)
  ultimately show ?thesis by (simp add: good_def well_formed_intro)
qed

lemma commit_record_simps [simp]:
  "aSlot (commit_record c a) = aSlot a" "Credentials (commit_record c a) = c"
  "Registration (commit_record c a) = Registration a" "RefreshBlocked (commit_record c a) = False"
  by (simp_all add: commit_record_def Let_def)

lemma commit_slot_slots [simp]: "slot_record s (commit_slot slot c r) =
    (if s = slot then map_option (commit_record c) (slot_record s r) else slot_record s r)"
  unfolding commit_slot_def by (rule slot_record_update) simp

lemma length_zero_digest [simp]: "length zero_digest = 32"
  by (simp add: zero_digest_def)

lemma length_digest: "length (credentialDigest a) = 32"
  by (simp add: credentialDigest_def length_sha256)

lemma length_owner: "digest_ok (xHistory a) \<Longrightarrow> length (access_owner a) = 32"
  by (auto simp: access_owner_def Let_def length_digest digest_ok_def split: option.splits)

lemma verified_next_ok:
  assumes "verified_next old next0 now = Inr c"
  shows "ParseAuth (auth_document next0) = Inr c \<and> sameIdentity old c \<and> now + 2 * 60 * 1000000000 < cExpiresAt c"
  using assms by (auto simp: verified_next_def split: sum.splits if_splits)

lemma clash_same_identity: "sameIdentity a b \<Longrightarrow> clash x b \<longleftrightarrow> clash x a"
  by (auto simp: clash_def sameIdentity_def)

lemma good_commit:
  assumes "good r" and "slot_record slot r = Some a" and "verified_next (Credentials a) next0 now = Inr c"
  shows "good (commit_slot slot c r)"
proof -
  note a = slot_record_in [OF assms(2)]
  note v = verified_next_ok [OF assms(3)]
  have ok: "valid_record a" "record_ok a" using a assms(1) by (auto simp: good_def well_formed_def list_all_iff)
  have "digest_ok (History (commit_record c a))"
    using ok(2) by (simp add: commit_record_def Let_def digest_ok_def length_digest length_owner record_access_def record_ok_def)
  then have new: "valid_record (commit_record c a) \<and> record_ok (commit_record c a)"
    using ok(1) v by (intro imported_record [of "auth_document next0" c]) (auto simp: valid_record_iff fit_def)
  have "\<not> clash (Credentials b) c" if "b \<in> set r" "aSlot b \<noteq> slot" for b
  proof -
    have "compatible b a" using compatible_records [of r b a] a assms(1) that by (auto simp: good_def well_formed_def)
    then show ?thesis using clash_same_identity v by (auto simp: compatible_def)
  qed
  then have "well_formed (commit_slot slot c r)"
    unfolding commit_slot_def
    using well_formed_update [of r slot a "commit_record c"] assms(1,2) new by (simp add: good_def)
  moreover have "map (\<lambda>b. if aSlot b = slot then commit_record c b else b) r =
      map (\<lambda>b. if aSlot b = slot then commit_record c a else b) r"
    using assms(1,2) by (intro replace_slot_map) (auto simp: good_def)
  then have "list_all record_ok (commit_slot slot c r)"
    unfolding commit_slot_def using assms(1) new by (auto simp only: list_all_iff good_def set_map split: if_splits)
  ultimately show ?thesis by (simp add: good_def)
qed

text \<open>A request that is to join the mutations writes nothing but in \<open>locked_refresh\<close>.\<close>

lemma request_access_locked:
  assumes "request_access V env slot now m = (x, tr, m1)" and "tr \<noteq> []"
  obtains m2 where "locked_refresh V env slot now m2 = (x, tr, m1)"
  using assms
  by (auto simp: request_access_def Let_def split: prod.splits option.splits sum.splits if_splits)

lemma locked_refresh_cases:
  assumes "locked_refresh V env slot now m = (x, tr, m1)"
  obtains (quiet) y where "manager_read V m = (y, m1)" "tr = []"
    | (exchange) r a m2 where "manager_read V m = (Inr r, m2)" "slot_record slot r = Some a" "\<not> RefreshBlocked a"
        "cExpiresAt (Credentials a) \<le> now + 2 * 60 * 1000000000" "exchange_record V env slot r a m2 = (x, tr, m1)"
proof -
  obtain y m2 where rd: "manager_read V m = (y, m2)" by (cases "manager_read V m")
  show ?thesis
  proof (cases y)
    case (Inl e)
    then show ?thesis using assms rd by (intro quiet [of y]) (auto simp: locked_refresh_def)
  next
    case (Inr r)
    show ?thesis
    proof (cases "slot_record slot r")
      case None
      then show ?thesis using assms rd Inr by (intro quiet [of y]) (auto simp: locked_refresh_def)
    next
      case (Some a)
      show ?thesis
      proof (cases "RefreshBlocked a \<or> now + 2 * 60 * 1000000000 < cExpiresAt (Credentials a) \<or> \<not> live env 5")
        case True
        then show ?thesis using assms rd Inr Some
          by (intro quiet [of y]) (auto simp: locked_refresh_def split: if_splits)
      next
        case False
        then show ?thesis using assms rd Inr Some by (intro exchange) (auto simp: locked_refresh_def)
      qed
    qed
  qed
qed

text \<open>While the exchange runs, other requests only read.\<close>

definition exchange_quiet :: "('v \<Rightarrow> string option) \<Rightarrow> 'v request_env \<Rightarrow> bool" where
  "exchange_quiet view env \<longleftrightarrow> (\<forall>m. view (store (others env 2 m)) = view (store m))"

context vault_laws
begin

lemma exchange_trace:
  assumes "exchange_record V env slot r a m = (x, tr, m1)"
  shows "tr = [] \<and> isl x \<and> view (store m1) = view (store m)
    \<or> (\<exists>mx. tr = [(Credentials a, mx)] \<and> view (store mx) = Some (registry_text (mark_blocked slot r)))"
proof -
  obtain e m2 where sv: "save_registry V (mark_blocked slot r) m = (e, m2)"
    by (cases "save_registry V (mark_blocked slot r) m")
  show ?thesis
  proof (cases e)
    case (Some y)
    then show ?thesis using assms sv save_store [OF sv] by (auto simp: exchange_record_def)
  next
    case None
    then show ?thesis using assms sv save_store [OF sv]
      by (auto simp: exchange_record_def Let_def split: sum.splits option.splits prod.splits)
  qed
qed

lemma exchange_outcome:
  assumes "exchange_record V env slot r a m = (x, tr, m1)" and "slot_record slot r = Some a"
    and "holds view (store m) r" and "exchange_quiet view env"
  shows "tr = [] \<and> holds view (store m1) r
    \<or> tr \<noteq> [] \<and> isl x \<and> holds view (store m1) (mark_blocked slot r)
    \<or> tr \<noteq> [] \<and> (\<exists>c. x = Inr (record_access (commit_record c (a\<lparr>RefreshBlocked := True\<rparr>)))
         \<and> sameIdentity (Credentials a) c \<and> after_clock env + 2 * 60 * 1000000000 < cExpiresAt c
         \<and> holds view (store m1) (commit_slot slot c (mark_blocked slot r)))"
proof -
  let ?r1 = "mark_blocked slot r"
  note g = holds_good [OF assms(3)]
  obtain e m2 where sv: "save_registry V ?r1 m = (e, m2)" by (cases "save_registry V ?r1 m")
  note h = save_holds [OF sv good_block [OF g] assms(3)]
  show ?thesis
  proof (cases e)
    case (Some y)
    then show ?thesis using assms(1) sv h by (auto simp: exchange_record_def)
  next
    case None
    define m3 where "m3 = (others env 2 (m2\<lparr>refreshSlot := slot\<rparr>))\<lparr>refreshSlot := []\<rparr>"
    have h3: "holds view (store m3) ?r1"
      using h None assms(4) holds_view [of view "store m2" ?r1 "store m3"] by (simp add: m3_def exchange_quiet_def)
    show ?thesis
    proof (cases "exchange env (Credentials a)")
      case (Inl y)
      then show ?thesis using assms(1) sv None h3 by (auto simp: exchange_record_def Let_def m3_def)
    next
      case (Inr next0)
      show ?thesis
      proof (cases "verified_next (Credentials a) next0 (after_clock env)")
        case (Inl y)
        then show ?thesis using assms(1) sv None h3 Inr by (auto simp: exchange_record_def Let_def m3_def)
      next
        case v: (Inr c)
        obtain e2 m4 where sv2: "save_registry V (commit_slot slot c ?r1) m3 = (e2, m4)"
          by (cases "save_registry V (commit_slot slot c ?r1) m3")
        have b: "slot_record slot ?r1 = Some (a\<lparr>RefreshBlocked := True\<rparr>)" using assms(2) by simp
        have v1: "verified_next (Credentials (a\<lparr>RefreshBlocked := True\<rparr>)) next0 (after_clock env) = Inr c"
          using v by simp
        note h4 = save_holds [OF sv2 good_commit [OF good_block [OF g] b v1] h3]
        show ?thesis
          using assms(1) sv None Inr v sv2 h4 verified_next_ok [OF v]
          by (auto simp: exchange_record_def Let_def m3_def [symmetric] split: option.splits)
      qed
    qed
  qed
qed

lemma locked_refresh_outcome:
  assumes "locked_refresh V env slot now m = (x, tr, m1)" and "holds view (store m) r" and "exchange_quiet view env"
  shows "tr = [] \<and> holds view (store m1) r
    \<or> tr \<noteq> [] \<and> (\<exists>a. slot_record slot r = Some a \<and> \<not> RefreshBlocked a \<and>
        (isl x \<and> holds view (store m1) (mark_blocked slot r)
         \<or> (\<exists>c. x = Inr (record_access (commit_record c (a\<lparr>RefreshBlocked := True\<rparr>)))
             \<and> sameIdentity (Credentials a) c \<and> after_clock env + 2 * 60 * 1000000000 < cExpiresAt c
             \<and> holds view (store m1) (commit_slot slot c (mark_blocked slot r)))))"
  using assms(1)
proof (cases rule: locked_refresh_cases)
  case (quiet y)
  then show ?thesis using read_store [OF quiet(1)] assms(2) holds_view by metis
next
  case (exchange r0 a m2)
  have "r0 = r" using read_registry [OF exchange(1) assms(2)] by auto
  moreover have "holds view (store m2) r" using read_store [OF exchange(1)] assms(2) holds_view by metis
  ultimately show ?thesis
    using exchange_outcome [OF exchange(5,2)] exchange(2,3) assms(3) by blast
qed

end

end
