(* ===== verification/Account_Runs.thy ===== *)
theory Account_Runs
  imports Account_Vault
begin

text \<open>
  The manager over the program's Keychain: the effect of every operation, and the runs of a helper. In a run
  mutations follow one another (the callers hold the process lock), and a helper may die after the durable
  marker of a refresh. A failed or lost exchange is not repeated until the slot is registered again.
\<close>

section \<open>The Keychain as the vault of the manager\<close>

abbreviation registry_of :: "(string \<Rightarrow> 'k \<Rightarrow> string option) \<Rightarrow> 'k manager \<Rightarrow> registry \<Rightarrow> bool" where
  "registry_of item m r \<equiv> holds (item Service) (store m) r"

section \<open>Runs\<close>

datatype account_event = Registered string | Exchanged string bool

definition slot_changed :: "(string \<Rightarrow> 'k \<Rightarrow> string option) \<Rightarrow> 'k manager \<Rightarrow> 'k manager \<Rightarrow> bool" where
  "slot_changed item m m1 \<longleftrightarrow> item Service (store m1) \<noteq> item Service (store m)"

text \<open>A step and what it shows: a login that wrote the vault registers its slot, a refresh that reached the
  endpoint is an exchange, with the outcome the caller sees. A read may also restart the helper.\<close>

inductive account_step :: "'k sec_api \<Rightarrow> (string \<Rightarrow> 'k \<Rightarrow> string option) \<Rightarrow> 'k manager \<Rightarrow> account_event list \<Rightarrow> 'k manager \<Rightarrow> bool"
  for A item where
  Read: "item Service (store m1) = item Service (store m) \<Longrightarrow> account_step A item m [] m1"
| Log_in: "login (Keychain A Service) slot replace env m = (e, st, m1) \<Longrightarrow> safeValue (rand_text env) 256 \<Longrightarrow>
    account_step A item m (if slot_changed item m m1 then [Registered slot] else []) m1"
| Log_out: "Logout (Keychain A Service) slot m = (e, m1) \<Longrightarrow> account_step A item m [] m1"
| Refresh: "locked_refresh (Keychain A Service) env slot now m = (x, tr, m1) \<Longrightarrow> exchange_quiet (item Service) env \<Longrightarrow>
    account_step A item m (if tr = [] then [] else [Exchanged slot (is_ok x)]) m1"
| Crash: "manager_read (Keychain A Service) m = (Inr r, m2) \<Longrightarrow> slot_record slot r = Some a \<Longrightarrow> \<not> RefreshBlocked a \<Longrightarrow>
    save_registry (Keychain A Service) (mark_blocked slot r) m2 = (None, m1) \<Longrightarrow>
    account_step A item m [Exchanged slot False] m1"

inductive account_run :: "'k sec_api \<Rightarrow> (string \<Rightarrow> 'k \<Rightarrow> string option) \<Rightarrow> 'k manager \<Rightarrow> account_event list \<Rightarrow> 'k manager \<Rightarrow> bool"
  for A item where
  Start: "account_run A item m [] m"
| Step: "account_run A item m evs m1 \<Longrightarrow> account_step A item m1 es m2 \<Longrightarrow> account_run A item m (evs @ es) m2"

inductive_cases account_stepE: "account_step A item m es m1"

text \<open>The slots whose last exchange failed and that were not registered since.\<close>

definition settle :: "string set \<Rightarrow> account_event \<Rightarrow> string set" where
  "settle S e = (case e of Registered s \<Rightarrow> S - {s} | Exchanged s ok \<Rightarrow> if ok then S else insert s S)"

definition owing :: "account_event list \<Rightarrow> string set" where
  "owing evs = foldl settle {} evs"

lemma owing_simps [simp]: "owing [] = {}" "owing (evs @ [e]) = settle (owing evs) e"
  by (simp_all add: owing_def)

lemma owing_until_registered:
  "s \<in> owing evs \<Longrightarrow> Registered s \<notin> set mid \<Longrightarrow> s \<in> owing (evs @ mid)"
proof (induction mid rule: rev_induct)
  case (snoc e mid)
  have "owing (evs @ mid @ [e]) = settle (owing (evs @ mid)) e" using owing_simps(2) [of "evs @ mid" e] by simp
  with snoc show ?case by (auto simp: settle_def split: account_event.splits)
qed simp

definition blocked_slots :: "string set \<Rightarrow> registry \<Rightarrow> bool" where
  "blocked_slots S r \<longleftrightarrow> (\<forall>s\<in>S. case slot_record s r of None \<Rightarrow> True | Some a \<Rightarrow> RefreshBlocked a)"

lemma blocked_slots_exchange:
  "blocked_slots S r \<Longrightarrow> slot_record s r = Some a \<Longrightarrow> \<not> RefreshBlocked a \<Longrightarrow> s \<notin> S"
  by (auto simp: blocked_slots_def)

text \<open>One step from a state in which every owing slot is blocked.\<close>

lemma account_step_short: "account_step A item m es m1 \<Longrightarrow> es = [] \<or> (\<exists>e. es = [e])"
  by (erule account_stepE) (auto split: if_splits)

lemma account_step_blocked:
  assumes k: "keychain_api A item" and "account_step A item m es m1"
    and h: "registry_of item m r" and b: "blocked_slots S r"
  shows "(\<exists>r1. registry_of item m1 r1 \<and> blocked_slots (foldl settle S es) r1)
    \<and> (\<forall>s ok. Exchanged s ok \<in> set es \<longrightarrow> s \<notin> S)"
  using assms(2)
proof (cases rule: account_step.cases)
  case Read
  then have "registry_of item m1 r" using holds_view [OF h] by simp
  then show ?thesis using Read b by auto
next
  case (Log_in slot replace env e st)
  note L = vault_laws.login_registry [OF keychain_vault [OF k] Log_in(2) h Log_in(3)]
  show ?thesis
  proof (cases "slot_changed item m m1")
    case False
    then have "registry_of item m1 r" using h holds_view by (metis slot_changed_def)
    then show ?thesis using Log_in(1) False b by auto
  next
    case True
    from L obtain r1 where r1: "registry_of item m1 r1" "r1 = r \<or> (\<forall>s. s \<noteq> slot \<longrightarrow> slot_record s r1 = slot_record s r)"
      unfolding logged_in_def by blast
    then have "blocked_slots (S - {slot}) r1" using b by (auto simp: blocked_slots_def)
    then show ?thesis using Log_in(1) True r1(1) by (auto simp: settle_def)
  qed
next
  case (Log_out slot e)
  note L = vault_laws.logout_registry [OF keychain_vault [OF k] Log_out(2) h]
  have "slot_record s (filter (\<lambda>a. aSlot a \<noteq> slot) r) = (if s = slot then None else slot_record s r)" for s
    using slot_record_drop [of r s slot] drop_first_filter [of r slot] holds_good [OF h]
    by (simp add: good_def well_formed_def)
  then have "blocked_slots S (filter (\<lambda>a. aSlot a \<noteq> slot) r)" using b by (auto simp: blocked_slots_def)
  then show ?thesis using L Log_out(1) b by (cases "e = None") auto
next
  case (Refresh env slot now x tr)
  note L = vault_laws.locked_refresh_outcome [OF keychain_vault [OF k] Refresh(2) h Refresh(3)]
  show ?thesis
  proof (cases "tr = []")
    case True
    then show ?thesis using L Refresh(1) b by auto
  next
    case False
    then obtain a where a: "slot_record slot r = Some a" "\<not> RefreshBlocked a" using L by blast
    note n = blocked_slots_exchange [OF b a]
    have blk: "blocked_slots (insert slot S) (mark_blocked slot r)"
      using b a by (auto simp: blocked_slots_def)
    show ?thesis
    proof (cases x)
      case (Inl y)
      then show ?thesis using L False Refresh(1) blk n by (auto simp: settle_def)
    next
      case (Inr y)
      then obtain c where "registry_of item m1 (commit_slot slot c (mark_blocked slot r))" using L False by auto
      moreover have "blocked_slots S (commit_slot slot c (mark_blocked slot r))"
        using b n by (auto simp: blocked_slots_def)
      ultimately show ?thesis using False Refresh(1) Inr n by (auto simp: settle_def)
    qed
  qed
next
  case (Crash r0 m2 slot a)
  have r0: "r0 = r" using vault_laws.read_registry [OF keychain_vault [OF k] Crash(2) h] by auto
  have h2: "registry_of item m2 r" using vault_laws.read_store [OF keychain_vault [OF k] Crash(2)] h holds_view by metis
  have "registry_of item m1 (mark_blocked slot r)"
    using vault_laws.save_holds [OF keychain_vault [OF k] Crash(5) [unfolded r0] good_block [OF holds_good [OF h]] h2] by auto
  moreover have "blocked_slots (insert slot S) (mark_blocked slot r)"
    using b Crash(3) r0 by (auto simp: blocked_slots_def)
  ultimately show ?thesis using Crash(1) blocked_slots_exchange [OF b Crash(3) [unfolded r0] Crash(4)] by (auto simp: settle_def)
qed

text \<open>No run exchanges for an owing slot.\<close>

lemma account_run_owing:
  assumes "account_run A item m evs m1" and "keychain_api A item" and "registry_of item m r"
  shows "(\<exists>r1. registry_of item m1 r1 \<and> blocked_slots (owing evs) r1)
    \<and> (\<forall>pre s ok post. evs = pre @ [Exchanged s ok] @ post \<longrightarrow> s \<notin> owing pre)"
  using assms(1,3)
proof (induction rule: account_run.induct)
  case (Start m0)
  then show ?case by (auto simp: blocked_slots_def)
next
  case (Step m0 evs m1 es m2)
  from Step.IH [OF Step.prems] obtain r1 where r1: "registry_of item m1 r1" "blocked_slots (owing evs) r1"
    and old: "\<And>pre s ok post. evs = pre @ [Exchanged s ok] @ post \<Longrightarrow> s \<notin> owing pre" by blast
  note next_step = account_step_blocked [OF assms(2) Step.hyps(2) r1]
  from account_step_short [OF Step.hyps(2)] show ?case
  proof
    assume "es = []"
    then show ?case using next_step old by simp
  next
    assume "\<exists>e. es = [e]"
    then obtain e where e: "es = [e]" by blast
    have "s \<notin> owing pre" if eq: "evs @ es = pre @ [Exchanged s ok] @ post" for pre s ok post
    proof (cases post rule: rev_cases)
      case Nil
      then show ?thesis using eq e next_step by simp
    next
      case (snoc post0 e0)
      then have "evs = pre @ [Exchanged s ok] @ post0" using eq e by simp
      then show ?thesis by (rule old)
    qed
    then show ?case using next_step e by simp
  qed
qed

end
