(* ===== verification/Registry_Size.thy ===== *)
theory Registry_Size
  imports Account_Runs
begin

text \<open>
  How long the written documents are: a bound linear in the lengths of their strings, used where a registry
  has to fit the vault and an exchanged login its import limit. The test Keychain is run on such registries.
\<close>

section \<open>Lengths\<close>

lemma length_quote_char: "length (quote_char c) \<le> 6"
  by (simp add: quote_char_def u00_def Let_def)

lemma length_quote:
  assumes "ascii s"
  shows "length (json_quote s) \<le> 6 * length s + 2"
proof -
  have "length (quote_raw s) \<le> 6 * length s" using assms
  proof (induction s)
    case (Cons c s)
    then show ?case using length_quote_char [of c] by (simp add: quote_raw_ascii)
  qed simp
  then show ?thesis by (simp add: json_quote_def)
qed

lemma length_commas: "length (commas xs) \<le> sum_list (map length xs) + length xs"
proof (cases xs)
  case (Cons x ys)
  have "length (concat (map ((#) CHR '','') ys)) = sum_list (map length ys) + length ys"
    by (induction ys) auto
  then show ?thesis using Cons by (simp add: commas_def)
qed (simp add: commas_def)

lemma length_byte_text: "length (byte_text n) \<le> 3"
  by (simp add: byte_text_def dec2_def)

lemma length_digest_text: "length (json_print (digest_json d)) \<le> 4 * length d + 2"
proof -
  have "sum_list (map (\<lambda>c. length (byte_text (byte c))) d) \<le> 3 * length d"
  proof (induction d)
    case (Cons c d)
    then show ?case using length_byte_text [of "byte c"] by simp
  qed simp
  then show ?thesis
    using length_commas [of "map (json_print \<circ> (\<lambda>c. json_nat (byte c))) d"]
    by (simp add: digest_json_def json_nat_text comp_def)
qed

lemma length_rfc3339:
  assumes "whole_seconds t"
  shows "length (rfc3339 t) = 20"
proof -
  define s where "s = t div 1000000000"
  have s: "t = seconds s" "0 \<le> s" "s \<le> 253402300799" using whole_seconds_eq [OF assms] by (simp_all add: s_def)
  obtain Y m x sec where
    "rfc3339 (seconds s) = dec4 (Suc Y) @ CHR ''-'' # dec2 (Suc m) @ CHR ''-'' # dec2 (Suc x) @ CHR ''T'' #
      dec2 (sec div 3600) @ CHR '':'' # dec2 (sec div 60 mod 60) @ CHR '':'' # dec2 (sec mod 60) @ ''Z''"
    by (rule rfc3339_fields [OF s(2,3)])
  then show ?thesis using s(1) by (simp add: dec2_def dec4_def)
qed

definition weight :: "credentials \<Rightarrow> nat" where
  "weight c = 6 * (length (AccessToken c) + length (RefreshToken c) + length (IDToken c) + length (cAccountID c))"

lemma length_credentials:
  assumes "ascii (AccessToken c)" "ascii (RefreshToken c)" "ascii (IDToken c)" "ascii (cAccountID c)" "whole_seconds (cExpiresAt c)"
  shows "length (json_print (credentials_json c)) \<le> weight c + 330"
proof -
  note q = length_quote [OF assms(1)] length_quote [OF assms(2)] length_quote [OF assms(3)] length_quote [OF assms(4)]
    length_quote [OF ascii_time [OF assms(5)]]
  have k: "length (json_quote ''access_token'') = 14" "length (json_quote ''refresh_token'') = 15"
    "length (json_quote ''id_token'') = 10" "length (json_quote ''account_id'') = 12" "length (json_quote ''expires_at'') = 12"
    by (simp_all add: json_quote_def quote_raw_ascii quote_char_def)
  show ?thesis using q length_rfc3339 [OF assms(5)]
    by (simp add: credentials_json_def commas_def weight_def k)
qed

lemma length_account:
  assumes "text_ok a" and "record_ok a"
  shows "length (json_print (account_json a)) \<le> weight (Credentials a) + 6 * length (aSlot a) + 6 * length (Registration a) + 800"
proof -
  have k: "length (json_quote ''slot'') = 6" "length (json_quote ''credentials'') = 13"
    "length (json_quote ''refresh_blocked'') = 17" "length (json_quote ''registration'') = 14"
    "length (json_quote ''history'') = 9" "length (json_quote ''owner'') = 7" "length (json_quote ''current'') = 9"
    by (simp_all add: json_quote_def quote_raw_ascii quote_char_def)
  have c: "length (json_print (credentials_json (Credentials a))) \<le> weight (Credentials a) + 330"
    using assms by (intro length_credentials) (simp_all add: text_ok_def record_ok_def)
  have s: "length (json_quote (aSlot a)) \<le> 6 * length (aSlot a) + 2"
    "length (json_quote (Registration a)) \<le> 6 * length (Registration a) + 2"
    using assms length_quote [of "aSlot a"] length_quote [of "Registration a"] by (simp_all add: text_ok_def)
  show ?thesis
  proof (cases "History a")
    case None
    then show ?thesis using c s by (simp add: account_json_def commas_def k)
  next
    case (Some h)
    then have "length (json_print (digest_json (Owner h))) \<le> 130" "length (json_print (digest_json (Current h))) \<le> 130"
      using assms(2) length_digest_text [of "Owner h"] length_digest_text [of "Current h"]
      by (simp_all add: record_ok_def digest_ok_def)
    then show ?thesis using Some c s by (simp add: account_json_def commas_def k)
  qed
qed

definition record_weight :: "account \<Rightarrow> nat" where
  "record_weight a = weight (Credentials a) + 6 * length (aSlot a) + 6 * length (Registration a) + 801"

lemma length_registry:
  assumes "list_all text_ok r" and "list_all record_ok r"
  shows "length (registry_text r) \<le> 40 + sum_list (map record_weight r)"
proof -
  have k: "length (json_quote ''version'') = 9" "length (json_quote ''accounts'') = 10"
    by (simp_all add: json_quote_def quote_raw_ascii quote_char_def)
  have "sum_list (map (\<lambda>a. length (json_print (account_json a))) r) + length r \<le> sum_list (map record_weight r)"
    using assms
  proof (induction r)
    case (Cons a r)
    then have "length (json_print (account_json a)) + 1 \<le> record_weight a"
      using length_account [of a] by (simp add: record_weight_def)
    with Cons show ?case by simp
  qed simp
  then show ?thesis
    using length_commas [of "map (json_print \<circ> account_json) r"]
    by (simp add: registry_text_def commas_def k comp_def)
qed

lemma registry_text_nonempty: "registry_text r \<noteq> []"
  by (simp add: registry_text_def)

section \<open>An exchanged login\<close>

text \<open>The import accepts what the exchange wrote, when the new token carries a user and an expiry.\<close>

lemma ParseAuth_document:
  assumes t: "safeValue (AccessToken c) (32 * 1024)" "safeValue (RefreshToken c) 8192" "safeValue (IDToken c) (32 * 1024)"
    "safeValue (cAccountID c) 256" and w: "whole_seconds (cExpiresAt c)"
    and cl: "accessClaims (AccessToken c) = Some cl" "0 < Expires cl" "Expires cl \<le> 253402300799"
      "authAccount cl = [] \<or> authAccount cl = cAccountID c" "safeValue (authUser cl) 256"
    and l: "int (weight c) + 400 \<le> MaxAuthBytes"
  shows "ParseAuth (auth_document c) = Inr (c\<lparr>UserID := authUser cl, cExpiresAt := seconds (Expires cl)\<rparr>)"
proof -
  note a = t [THEN safeValue_ascii]
  have k: "length (json_quote ''auth_mode'') = 11" "length (json_quote ''chatgpt'') = 9" "length (json_quote ''tokens'') = 8"
    by (simp_all add: json_quote_def quote_raw_ascii quote_char_def)
  have len: "int (length (auth_document c)) \<le> MaxAuthBytes"
    using length_credentials [OF a w] l by (simp add: auth_document_def commas_def k)
  have "printable 2 (JObj [(''auth_mode'', JStr ''chatgpt''), (''tokens'', credentials_json c)])"
    using a w by (simp add: credentials_json_def ascii_time)
  then have p: "json_parse (auth_document c) = Some (JObj [(''auth_mode'', JStr ''chatgpt''), (''tokens'', credentials_json c)])"
    unfolding auth_document_def by (rule json_print_parse) (simp add: max_depth_def)
  show ?thesis
    using len t cl
    by (simp add: ParseAuth_def Let_def p struct_members_def string_field_def nested_members_def credentials_json_members
        decode_credential_members [OF w])
qed

section \<open>The manager on a test Keychain\<close>

definition test_manager :: "registry \<Rightarrow> test_keychain manager" where
  "test_manager r = \<lparr>store = \<lparr>Items = [Service \<mapsto> registry_text r], Script = []\<rparr>, tempParent = ''/state'',
     hasRefresher = True, refreshSlot = []\<rparr>"

definition fits :: "registry \<Rightarrow> bool" where
  "fits r \<longleftrightarrow> well_formed r \<and> list_all record_ok r \<and> int (length (registry_text r)) \<le> credential_MaxBytes"

lemma fits_intro:
  assumes "list_all valid_record r" and "sorted_wrt compatible r" and "list_all record_ok r"
    and "40 + sum_list (map record_weight r) \<le> 524288"
  shows "fits r"
proof -
  have "list_all text_ok r" using assms(1) valid_record_text by (auto simp: list_all_iff)
  from length_registry [OF this assms(3)] assms(4) have "int (length (registry_text r)) \<le> 524288" by linarith
  then show ?thesis using assms well_formed_intro [of r] by (simp add: fits_def credential_MaxBytes_def)
qed

lemma fits_open: "fits r \<Longrightarrow> open_registry (registry_text r) = Some r"
  by (simp add: fits_def reopen_registry)

lemma test_read: "fits r \<Longrightarrow> manager_read test_vault (test_manager r) = (Inr r, test_manager r)"
  using registry_text_nonempty [of r] fits_open [of r]
  by (simp add: manager_read_def test_manager_def Keychain_def Keychain_Read_def read_secret_def test_api_def
      next_status_def os_status fits_def)

lemma test_save: "fits r1 \<Longrightarrow> save_registry test_vault r1 (test_manager r) = (None, test_manager r1)"
  using registry_text_nonempty [of r1]
  by (simp add: save_registry_def test_manager_def Keychain_def Keychain_Write_def write_secret_def test_api_def
      next_status_def os_status fits_def)

lemma test_holds: "fits r \<Longrightarrow> holds (\<lambda>k. Items k Service) (store (test_manager r)) r"
  by (simp add: holds_def good_def fits_def test_manager_def)

end
