(* ===== verification/Account_Safety.thy ===== *)
theory Account_Safety
  imports Registry_Size
begin

text \<open>
  What the accounts promise: a registry that opens is sound and is written back unchanged, a token that is
  handed out is fresh, a login or logout touches its slot only, a refresh token is exchanged only after the
  durable marker and, when that fails, never again before a new login; and a verified refresh keeps the
  identity and the history owner.
\<close>

section \<open>A sample account\<close>

definition sample_token :: string where
  "sample_token = ''e30.eyJleHAiOjksImh0dHBzOi8vYXBpLm9wZW5haS5jb20vYXV0aCI6eyJjaGF0Z3B0X3VzZXJfaWQiOiJ1In19.s''"

definition sample_credentials :: credentials where
  "sample_credentials = \<lparr>AccessToken = sample_token, RefreshToken = ''r'', IDToken = ''i'', cAccountID = ''x'',
     UserID = ''u'', cExpiresAt = seconds 9\<rparr>"

definition sample_record :: "bool \<Rightarrow> account" where
  "sample_record blocked = \<lparr>aSlot = ''a'', Credentials = sample_credentials, RefreshBlocked = blocked,
     Registration = ''R'', History = None\<rparr>"

text \<open>Its claims, read without running the parser on the text.\<close>

definition sample_payload :: json where
  "sample_payload = JObj [(''exp'', JNum ''9''), (''https://api.openai.com/auth'', JObj [(''chatgpt_user_id'', JStr ''u'')])]"

lemma sample_decoded: "base64_decode ''eyJleHAiOjksImh0dHBzOi8vYXBpLm9wZW5haS5jb20vYXV0aCI6eyJjaGF0Z3B0X3VzZXJfaWQiOiJ1In19''
    = Some ''{\"exp\":9,\"https://api.openai.com/auth\":{\"chatgpt_user_id\":\"u\"}}''"
  by (simp add: base64_decode_def base64_value_def Let_def) (simp add: char_of_def bit_Suc_0_iff)

lemma sample_printed: "json_print sample_payload = ''{\"exp\":9,\"https://api.openai.com/auth\":{\"chatgpt_user_id\":\"u\"}}''"
  by (simp add: sample_payload_def commas_def json_quote_def quote_raw_ascii quote_char_def)

lemma sample_parts: "split_dots sample_token = [''e30'', ''eyJleHAiOjksImh0dHBzOi8vYXBpLm9wZW5haS5jb20vYXV0aCI6eyJjaGF0Z3B0X3VzZXJfaWQiOiJ1In19'', ''s'']"
  by (simp add: sample_token_def)

lemma claim_keys: "field_match ''exp'' ''https://api.openai.com/auth'' = False" "field_match ''https://api.openai.com/auth'' ''exp'' = False"
  "field_match ''chatgpt_account_id'' ''chatgpt_user_id'' = False"
  by (simp_all add: field_match_def)

lemma nine: "parse_int64 ''9'' = Some 9"
  by (simp add: parse_int64_def digit_def trim_prefix_def has_prefix_def)

lemma sample_parsed: "json_parse (json_print sample_payload) = Some sample_payload"
  by (rule json_print_parse [of 2]) (simp_all add: sample_payload_def num_ok_def digit_def max_depth_def)

lemma sample_claims: "accessClaims sample_token = Some \<lparr>Expires = 9, authAccount = [], authUser = ''u''\<rparr>"
  using sample_parsed by (simp add: accessClaims_def sample_parts sample_decoded flip: sample_printed)
    (simp add: sample_payload_def struct_members_def claim_keys nine string_field_def nested_members_def)

lemma sample_safe: "safeValue sample_token 32768" "length sample_token = 90"
  by (simp_all add: sample_token_def safeValue_def)

lemma sample_small: "safeValue ''r'' 8192" "safeValue ''i'' 32768" "safeValue ''x'' 256" "safeValue ''u'' 256" "safeValue ''R'' 256"
  by (simp_all add: safeValue_def)

lemma sample_seconds: "whole_seconds (seconds 9)" "seconds 9 \<noteq> zero_time"
  by (simp_all add: whole_seconds_def seconds_def zero_time_def)

lemma sample_valid: "valid_record (sample_record b)" "record_ok (sample_record b)"
  by (simp_all add: valid_record_iff fit_def sample_record_def sample_credentials_def sample_claims sample_safe
      sample_seconds sample_small record_ok_def digest_ok_def)

lemma sample_fits: "fits [sample_record b]"
proof (rule fits_intro)
  show "40 + sum_list (map record_weight [sample_record b]) \<le> 524288"
    by (simp add: record_weight_def weight_def sample_record_def sample_credentials_def sample_safe)
qed (simp_all add: sample_valid)

lemmas sample_defs = sample_record_def sample_credentials_def

lemma sample_block: "mark_blocked ''a'' [sample_record b] = [sample_record True]"
  by (simp add: mark_blocked_def sample_record_def)

lemma sample_parse: "ParseAuth (auth_document sample_credentials) = Inr sample_credentials"
proof -
  have "ParseAuth (auth_document sample_credentials) =
      Inr (sample_credentials\<lparr>UserID := authUser \<lparr>Expires = 9, authAccount = [], authUser = ''u''\<rparr>,
        cExpiresAt := seconds (Expires \<lparr>Expires = 9, authAccount = [], authUser = ''u''\<rparr>)\<rparr>)"
    by (rule ParseAuth_document)
      (simp_all add: sample_credentials_def sample_safe sample_small sample_seconds sample_claims weight_def MaxAuthBytes_def)
  then show ?thesis by (simp add: sample_credentials_def)
qed

lemma sample_slot: "slot_record ''a'' [sample_record b] = Some (sample_record b)"
  by (simp add: slot_record_def sample_record_def)

section \<open>Registries\<close>

text \<open>C36: A registry that opens, whatever bytes the vault holds, has at most five accounts in different valid
  slots, no two of the same user of a workspace account, and access tokens that claim the stored account.\<close>

theorem opened_registry_sound:
  assumes "open_registry d = Some r"
  shows "length r \<le> Capacity \<and> distinct (map aSlot r) \<and> set (map aSlot r) \<subseteq> set slot_all
    \<and> (\<forall>i j. i < j \<and> j < length r \<longrightarrow> \<not> sameIdentity (Credentials (r ! i)) (Credentials (r ! j)))
    \<and> (\<forall>a\<in>set r. \<exists>cl. accessClaims (AccessToken (Credentials a)) = Some cl \<and> UserID (Credentials a) = authUser cl
         \<and> (authAccount cl = [] \<or> authAccount cl = cAccountID (Credentials a)))"
proof -
  note wf = open_registry_well_formed [OF assms]
  then have v: "list_all valid_record r" "sorted_wrt compatible r" by (simp_all add: well_formed_def)
  have "\<not> sameIdentity (Credentials (r ! i)) (Credentials (r ! j))" if "i < j" "j < length r" for i j
  proof -
    have "compatible (r ! i) (r ! j)" using v(2) that by (simp add: sorted_wrt_iff_nth_less)
    then show ?thesis by (auto simp: compatible_def clash_def sameIdentity_def)
  qed
  moreover have "\<forall>a\<in>set r. \<exists>cl. accessClaims (AccessToken (Credentials a)) = Some cl \<and> UserID (Credentials a) = authUser cl
      \<and> (authAccount cl = [] \<or> authAccount cl = cAccountID (Credentials a))"
    using v(1) by (auto simp: list_all_iff valid_record_iff fit_def)
  ultimately show ?thesis
    using wf well_formed_slots [OF v] by (simp add: well_formed_def Capacity_def)
qed

lemma opened_registry_sound_witness:
  "distinct (map aSlot [sample_record False]) \<and> length [sample_record False] \<le> Capacity"
  using opened_registry_sound [OF fits_open [OF sample_fits [of False]]] by simp

text \<open>C37: What the program writes opens as itself: a sound registry with whole-second expiries is printed
  and read back unchanged, history owners included.\<close>

theorem registry_roundtrip:
  assumes "open_registry d = Some r" and "\<forall>a\<in>set r. record_ok a" and "int (length (registry_text r)) \<le> credential_MaxBytes"
  shows "open_registry (registry_text r) = Some r"
  using reopen_registry [OF open_registry_well_formed [OF assms(1)]] assms(2,3) by (simp add: list_all_iff)

lemma registry_roundtrip_witness:
  "open_registry (registry_text [sample_record True]) = Some [sample_record True]"
proof (rule registry_roundtrip)
  show "open_registry (registry_text [sample_record True]) = Some [sample_record True]"
    by (rule fits_open [OF sample_fits])
  show "\<forall>a\<in>set [sample_record True]. record_ok a" by (simp add: sample_valid)
  show "int (length (registry_text [sample_record True])) \<le> credential_MaxBytes"
    using sample_fits [of True] by (simp add: fits_def)
qed

section \<open>Access\<close>

text \<open>C38: Whatever the vault answers, a token is handed out only from an opened registry whose record for
  that slot is not blocked, and it stays valid for more than thirty seconds.\<close>

theorem access_is_fresh:
  assumes "manager_Access V slot now m = (Inr x, m1)"
  shows "now + 30 * 1000000000 < ExpiresAt x \<and> slot_valid slot
    \<and> (\<exists>d r a. fst (vRead V (store m)) = Inr d \<and> open_registry d = Some r \<and> slot_record slot r = Some a
         \<and> \<not> RefreshBlocked a \<and> x = record_access a)"
proof -
  obtain y m2 where rd: "manager_read V m = (y, m2)" by (cases "manager_read V m")
  with assms obtain r a where y: "y = Inr r" and a: "slot_record slot r = Some a" "\<not> RefreshBlocked a" "x = record_access a"
    "slot_valid slot" "now + 30 * 1000000000 < cExpiresAt (Credentials a)"
    by (auto simp: manager_Access_def split: if_splits sum.splits option.splits)
  have "\<exists>d. fst (vRead V (store m)) = Inr d \<and> open_registry d = Some r"
    using rd y a(1) by (auto simp: manager_read_def slot_record_def split: prod.splits sum.splits option.splits if_splits)
  then show ?thesis using a by (auto simp: record_access_def)
qed

lemma access_is_fresh_witness:
  "fst (manager_Access test_vault ''a'' (- seconds 22) (test_manager [sample_record False])) = Inr (record_access (sample_record False))
    \<and> - seconds 22 + 30 * 1000000000 < ExpiresAt (record_access (sample_record False))"
proof -
  have a: "manager_Access test_vault ''a'' (- seconds 22) (test_manager [sample_record False]) =
      (Inr (record_access (sample_record False)), test_manager [sample_record False])"
    unfolding manager_Access_def
    by (simp add: test_read [OF sample_fits] sample_slot) (simp add: sample_defs seconds_def)
  from access_is_fresh [OF a] show ?thesis unfolding a by simp
qed

section \<open>Login and logout\<close>

text \<open>Logging out forgets the one slot and nothing else; on an error the stored registry is untouched.\<close>

theorem logout_forgets_one:
  assumes "keychain_api A item" and "registry_of item m r" and "Logout (Keychain A Service) slot m = (e, m1)"
  shows "if e = None then registry_of item m1 (filter (\<lambda>a. aSlot a \<noteq> slot) r) else registry_of item m1 r"
  by (rule vault_laws.logout_registry [OF keychain_vault [OF assms(1)] assms(3,2)])

lemma logout_forgets_one_witness:
  "registry_of (\<lambda>s k. Items k s) (test_manager []) []
    \<and> Logout test_vault ''a'' (test_manager [sample_record False]) = (None, test_manager [])"
proof -
  have e: "fits []" by (rule fits_intro) simp_all
  have l: "Logout test_vault ''a'' (test_manager [sample_record False]) = (None, test_manager [])"
    unfolding Logout_def by (simp add: test_read [OF sample_fits] sample_slot) (simp add: sample_defs test_save [OF e])
  from logout_forgets_one [OF test_kc.keychain_api_axioms test_holds [OF sample_fits] l]
  show ?thesis using l by (simp add: sample_defs)
qed


definition sample_file :: string where
  "sample_file = auth_document sample_credentials"

definition sample_login :: login_env where
  "sample_login = \<lparr>cancelled1 = False, mkdir_ok = True, dir_chmod_ok = True, config_ok = True, waited = True, run_ok = True,
     cancelled2 = False, auth = \<lparr>open_ok = True, regular = True, size = 200, own_uid = True, links = 1, chmod_ok = True,
       content = Some sample_file\<rparr>, clock = - seconds 30, remove_ok = True, cancelled3 = False, rand_text = ''R'',
     cleanup_ok = True\<rparr>"

lemma sample_import: "login_file sample_login = Inr sample_credentials"
proof -
  have p: "ParseAuth sample_file = Inr sample_credentials" unfolding sample_file_def by (rule sample_parse)
  then have "int (length sample_file) \<le> MaxAuthBytes" by (auto simp: ParseAuth_def Let_def split: if_splits)
  then have "readAuth (auth sample_login) = Inr sample_file"
    by (simp add: readAuth_def sample_login_def MaxAuthBytes_def)
  with p show ?thesis by (simp add: login_file_def bind_r_def)
qed

text \<open>Logging the sample account in again, after its refresh token was refused.\<close>

lemma sample_relogin:
  "login test_vault ''a'' True sample_login (test_manager [sample_record True])
    = (None, [Launching, BrowserWaiting, Importing, Succeeded], test_manager [sample_record False])"
proof -
  define r where "r = [sample_record True]"
  have f: "bind_r (readAuth (auth sample_login)) ParseAuth = Inr sample_credentials"
    using sample_import by (simp add: login_file_def)
  have clash: "identity_clash ''a'' sample_credentials r = None" by (simp add: r_def sample_record_def)
  have same: "sameIdentity (Credentials (sample_record True)) sample_credentials"
    "UserID (Credentials (sample_record True)) \<noteq> []" by (simp_all add: sample_defs sameIdentity_def)
  have fresh: "clock sample_login + 30 * 1000000000 < cExpiresAt sample_credentials"
    by (simp add: sample_login_def sample_defs seconds_def)
  have new: "map (\<lambda>a. if aSlot a = ''a'' then a\<lparr>Credentials := sample_credentials, RefreshBlocked := False,
      Registration := rand_text sample_login, History := None\<rparr> else a) r = [sample_record False]"
    by (simp add: r_def sample_record_def sample_login_def)
  have old: "slot_record ''a'' r = Some (sample_record True)" unfolding r_def by (rule sample_slot)
  have flags: "dir_chmod_ok sample_login" "config_ok sample_login" "waited sample_login" "run_ok sample_login"
    "\<not> cancelled2 sample_login" "remove_ok sample_login" "\<not> cancelled3 sample_login"
    by (simp_all add: sample_login_def)
  have "import_login ''a'' True sample_login r = (Inr [sample_record False], [Launching, BrowserWaiting, Importing])"
    using fresh by (simp add: import_login_def f Let_def clash same new old flags)
  then have i: "import_login ''a'' True sample_login [sample_record True] =
      (Inr [sample_record False], [Launching, BrowserWaiting, Importing])" by (simp add: r_def)
  show ?thesis
    unfolding login_def by (simp add: test_read [OF sample_fits] sample_slot i test_save [OF sample_fits] final_state_def)
      (simp add: sample_login_def)
qed


section \<open>The verified refresh\<close>

text \<open>C6: No token is exchanged before the intent is durable. However other requests and processes interleave,
  a request exchanges at most once, and at that moment the Keychain holds a registry in which the slot's record
  has just those credentials, due for renewal, and is marked as blocked.\<close>

theorem exchange_marked_first:
  assumes "keychain_api A item" and "manager_RequestAccessContext (Keychain A Service) env slot now m = (x, tr, m1)"
    and "tr \<noteq> []"
  shows "\<exists>a mx r. tr = [(Credentials a, mx)] \<and> item Service (store mx) = Some (registry_text r)
    \<and> slot_record slot r = Some a \<and> RefreshBlocked a \<and> cExpiresAt (Credentials a) \<le> now + 2 * 60 * 1000000000"
proof -
  obtain y where "request_access (Keychain A Service) env slot now m = (y, tr, m1)"
    using assms(2) by (auto simp: manager_RequestAccessContext_def split: prod.splits)
  then obtain m2 where "locked_refresh (Keychain A Service) env slot now m2 = (y, tr, m1)"
    using assms(3) by (rule request_access_locked)
  then show ?thesis
  proof (cases rule: locked_refresh_cases)
    case (quiet z)
    with assms(3) show ?thesis by simp
  next
    case (exchange r a m3)
    from vault_laws.exchange_trace [OF keychain_vault [OF assms(1)] exchange(5)] assms(3)
    obtain mx where "tr = [(Credentials a, mx)]" "item Service (store mx) = Some (registry_text (mark_blocked slot r))" by blast
    moreover have "slot_record slot (mark_blocked slot r) = Some (a\<lparr>RefreshBlocked := True\<rparr>)" using exchange(2) by simp
    ultimately show ?thesis using exchange(4)
      by (intro exI [of _ "a\<lparr>RefreshBlocked := True\<rparr>"] exI [of _ mx] exI [of _ "mark_blocked slot r"]) simp
  qed
qed

text \<open>A request that meets no obstacle but a refused exchange.\<close>

definition sample_env :: "(credentials \<Rightarrow> credentials res) \<Rightarrow> test_keychain request_env" where
  "sample_env ex = \<lparr>live = (\<lambda>_. True), process_lock = Inr (), after_clock = - seconds 600, exchange = ex, others = (\<lambda>_ m. m)\<rparr>"

lemma sample_env_simps [simp]:
  "live (sample_env ex) n" "process_lock (sample_env ex) = Inr ()" "after_clock (sample_env ex) = - seconds 600"
  "exchange (sample_env ex) = ex" "others (sample_env ex) n m = m"
  by (simp_all add: sample_env_def)

lemma test_manager_simps [simp]:
  "hasRefresher (test_manager r)" "tempParent (test_manager r) \<noteq> []" "refreshSlot (test_manager r) = []"
  "(test_manager r)\<lparr>refreshSlot := []\<rparr> = test_manager r"
  by (simp_all add: test_manager_def)

lemma sample_due: "cExpiresAt (Credentials (sample_record b)) \<le> 120000000000" "RefreshBlocked (sample_record b) = b"
  "Credentials (sample_record b) = sample_credentials" "cExpiresAt sample_credentials \<le> 120000000000"
  by (simp_all add: sample_defs seconds_def)

lemma sample_exchange:
  "locked_refresh test_vault (sample_env (\<lambda>_. Inl ERefresh)) ''a'' 0 (test_manager [sample_record False])
    = (Inl ERefresh, [(sample_credentials, (test_manager [sample_record True])\<lparr>refreshSlot := ''a''\<rparr>)], test_manager [sample_record True])"
  unfolding locked_refresh_def exchange_record_def Let_def
  using sample_due(4)
  by (simp add: test_read [OF sample_fits] sample_slot sample_due(2,3) not_less sample_block test_save [OF sample_fits])

lemma exchange_marked_first_witness:
  "snd (snd (manager_RequestAccessContext test_vault (sample_env (\<lambda>_. Inl ERefresh)) ''a'' 0 (test_manager [sample_record False])))
      = test_manager [sample_record True]
    \<and> (\<exists>a mx r. fst (snd (manager_RequestAccessContext test_vault (sample_env (\<lambda>_. Inl ERefresh)) ''a'' 0
          (test_manager [sample_record False]))) = [(Credentials a, mx)] \<and> Items (store mx) Service = Some (registry_text r)
        \<and> slot_record ''a'' r = Some a \<and> RefreshBlocked a \<and> cExpiresAt (Credentials a) \<le> 0 + 2 * 60 * 1000000000)"
proof -
  have r: "manager_RequestAccessContext test_vault (sample_env (\<lambda>_. Inl ERefresh)) ''a'' 0 (test_manager [sample_record False])
      = (Inl ERefresh, [(sample_credentials, (test_manager [sample_record True])\<lparr>refreshSlot := ''a''\<rparr>)], test_manager [sample_record True])"
    unfolding manager_RequestAccessContext_def request_access_def requestAccessWithoutRefresh_def Let_def
    using sample_due(4)
    by (simp add: test_read [OF sample_fits] sample_slot sample_due(2,3) not_less sample_exchange)
  from exchange_marked_first [OF test_kc.keychain_api_axioms r] show ?thesis unfolding r by simp
qed

text \<open>C5: A failed exchange is never repeated. In every run of mutations, crashes and restarts over the Keychain,
  between a failed or lost exchange for a slot and any later exchange for it the slot was registered again.\<close>

theorem failed_exchange_not_repeated:
  assumes "keychain_api A item" and "registry_of item m r" and "account_run A item m evs m1"
    and "evs = pre @ [Exchanged s False] @ mid @ [Exchanged s ok] @ post"
  shows "Registered s \<in> set mid"
proof (rule ccontr)
  assume n: "Registered s \<notin> set mid"
  have "s \<in> owing (pre @ [Exchanged s False])" by (simp add: settle_def)
  then have "s \<in> owing ((pre @ [Exchanged s False]) @ mid)" using n by (rule owing_until_registered)
  moreover have "evs = ((pre @ [Exchanged s False]) @ mid) @ [Exchanged s ok] @ post" using assms(4) by simp
  ultimately show False using account_run_owing [OF assms(3,1,2)] by blast
qed

lemma sample_failed_step:
  "account_step test_api (\<lambda>s k. Items k s) (test_manager [sample_record False]) [Exchanged ''a'' False] (test_manager [sample_record True])"
proof -
  have "exchange_quiet (\<lambda>k. Items k Service) (sample_env (\<lambda>_. Inl ERefresh))" by (simp add: exchange_quiet_def)
  from account_step.Refresh [where item = "\<lambda>s k. Items k s", OF sample_exchange this] show ?thesis by simp
qed

lemma sample_texts: "registry_text [sample_record True] \<noteq> registry_text [sample_record False]"
proof
  assume "registry_text [sample_record True] = registry_text [sample_record False]"
  then have "[sample_record True] = [sample_record False]" using fits_open [OF sample_fits] by (metis option.inject)
  then show False by (simp add: sample_record_def)
qed

lemma failed_exchange_not_repeated_witness:
  "account_run test_api (\<lambda>s k. Items k s) (test_manager [sample_record False])
      ([] @ [Exchanged ''a'' False] @ [Registered ''a''] @ [Exchanged ''a'' False] @ []) (test_manager [sample_record True])
    \<and> Registered ''a'' \<in> set [Registered ''a'']"
proof -
  let ?item = "\<lambda>s k. Items k s"
  have "safeValue (rand_text sample_login) 256" by (simp add: sample_login_def sample_small)
  from account_step.Log_in [where item = ?item, OF sample_relogin this]
  have l: "account_step test_api ?item (test_manager [sample_record True]) [Registered ''a''] (test_manager [sample_record False])"
    using sample_texts by (simp add: slot_changed_def test_manager_def)
  have "account_run test_api ?item (test_manager [sample_record False])
      ((([] @ [Exchanged ''a'' False]) @ [Registered ''a'']) @ [Exchanged ''a'' False]) (test_manager [sample_record True])"
    by (rule account_run.Step [OF account_run.Step [OF account_run.Step [OF account_run.Start sample_failed_step] l] sample_failed_step])
  then have run: "account_run test_api ?item (test_manager [sample_record False])
      ([] @ [Exchanged ''a'' False] @ [Registered ''a''] @ [Exchanged ''a'' False] @ []) (test_manager [sample_record True])"
    by simp
  from run failed_exchange_not_repeated [OF test_kc.keychain_api_axioms test_holds [OF sample_fits] run HOL.refl]
  show ?thesis by blast
qed

text \<open>C20: A refresh that succeeds keeps who the account is: the same workspace account and user, a token fresh for
  two minutes, the same registration, the same owner of opaque history (unless a digest is the zero value) and
  the other slots as they were.\<close>

theorem refresh_keeps_identity:
  assumes "keychain_api A item" and "registry_of item m r" and "exchange_quiet (item Service) env"
    and "locked_refresh (Keychain A Service) env slot now m = (Inr x, tr, m1)" and "tr \<noteq> []"
  shows "\<exists>a r1. slot_record slot r = Some a \<and> registry_of item m1 r1 \<and> slot_record slot r1 \<noteq> None
    \<and> x = record_access (the (slot_record slot r1)) \<and> \<not> RefreshBlocked (the (slot_record slot r1))
    \<and> AccountID x = cAccountID (Credentials a) \<and> xUserID x = UserID (Credentials a) \<and> xRegistration x = Registration a
    \<and> after_clock env + 2 * 60 * 1000000000 < ExpiresAt x
    \<and> (access_owner x = access_owner (record_access a) \<or> credentialDigest x = zero_digest \<or> access_owner (record_access a) = zero_digest)
    \<and> (\<forall>s. s \<noteq> slot \<longrightarrow> slot_record s r1 = slot_record s r)"
proof -
  from vault_laws.locked_refresh_outcome [OF keychain_vault [OF assms(1)] assms(4,2,3)] assms(5)
  obtain a c where a: "slot_record slot r = Some a"
    and x: "x = record_access (commit_record c (a\<lparr>RefreshBlocked := True\<rparr>))" and id: "sameIdentity (Credentials a) c"
    and t: "after_clock env + 2 * 60 * 1000000000 < cExpiresAt c"
    and h: "registry_of item m1 (commit_slot slot c (mark_blocked slot r))" by auto
  let ?b = "a\<lparr>RefreshBlocked := True\<rparr>" and ?r1 = "commit_slot slot c (mark_blocked slot r)"
  have s: "slot_record slot ?r1 = Some (commit_record c ?b)" using a by simp
  have own: "record_access ?b = record_access a" by (simp add: record_access_def)
  have d: "credentialDigest (record_access (?b\<lparr>Credentials := c\<rparr>)) = credentialDigest x"
    by (simp add: x credentialDigest_def record_access_def)
  then have hist: "xHistory x = Some \<lparr>Owner = access_owner (record_access a), Current = credentialDigest x\<rparr>"
    by (simp add: x record_access_def commit_record_def Let_def own [unfolded record_access_def])
  have "access_owner x = access_owner (record_access a) \<or> credentialDigest x = zero_digest \<or> access_owner (record_access a) = zero_digest"
    by (simp add: access_owner_def [of x] Let_def hist)
  with a h s x id t show ?thesis
    by (intro exI [of _ a] exI [of _ ?r1]) (auto simp: record_access_def sameIdentity_def)
qed

text \<open>The sample account exchanged for itself.\<close>

lemma sample_verified: "verified_next sample_credentials sample_credentials (- seconds 600) = Inr sample_credentials"
  by (simp add: verified_next_def sample_parse) (simp add: sample_credentials_def sameIdentity_def seconds_def)

definition sample_renewed :: account where
  "sample_renewed = commit_record sample_credentials (sample_record True)"

lemma sample_renewed_slot: "commit_slot ''a'' sample_credentials [sample_record True] = [sample_renewed]"
  by (simp add: commit_slot_def sample_renewed_def) (simp add: sample_record_def)

lemma sample_renewed_fits: "fits [sample_renewed]"
proof -
  have v: "verified_next (Credentials (sample_record True)) sample_credentials (- seconds 600) = Inr sample_credentials"
    using sample_verified by (simp add: sample_due)
  have "good [sample_record True]" using sample_fits by (simp add: fits_def good_def)
  from good_commit [OF this sample_slot v] have g: "good [sample_renewed]" by (simp add: sample_renewed_slot)
  have "record_weight sample_renewed \<le> 2000"
    by (simp add: record_weight_def weight_def sample_renewed_def sample_record_def sample_credentials_def sample_safe)
  with g show ?thesis by (intro fits_intro) (auto simp: good_def well_formed_def)
qed

lemma sample_renewal:
  "locked_refresh test_vault (sample_env Inr) ''a'' 0 (test_manager [sample_record False])
    = (Inr (record_access sample_renewed), [(sample_credentials, (test_manager [sample_record True])\<lparr>refreshSlot := ''a''\<rparr>)],
       test_manager [sample_renewed])"
proof -
  have b: "(sample_record False)\<lparr>RefreshBlocked := True\<rparr> = sample_record True" by (simp add: sample_record_def)
  show ?thesis
    unfolding locked_refresh_def exchange_record_def Let_def
    using sample_due(4)
    by (simp add: test_read [OF sample_fits] sample_slot sample_due(2,3) not_less sample_block test_save [OF sample_fits]
        sample_verified sample_renewed_slot test_save [OF sample_renewed_fits] b flip: sample_renewed_def)
qed

lemma refresh_keeps_identity_witness:
  "\<exists>a r1. slot_record ''a'' [sample_record False] = Some a \<and> registry_of (\<lambda>s k. Items k s) (test_manager [sample_renewed]) r1
    \<and> AccountID (record_access sample_renewed) = cAccountID (Credentials a)"
proof -
  have q: "exchange_quiet (\<lambda>k. Items k Service) (sample_env Inr)" by (simp add: exchange_quiet_def)
  from refresh_keeps_identity [OF test_kc.keychain_api_axioms test_holds [OF sample_fits] q sample_renewal]
  show ?thesis by blast
qed

end
