(* ===== verification/Account_Progress.thy ===== *)
theory Account_Progress
  imports Account_Refresh
begin

text \<open>
  The progress counters: over every protocol run the counter of a slot is the number of its requests that wait,
  a running refresh is one that was started, and when no request is left nothing is reported.
\<close>

text \<open>The requests under way: number, slot index and whether the refresh was started.\<close>

inductive progress_reach :: "authenticationProgress \<Rightarrow> (nat \<times> nat \<times> bool) set \<Rightarrow> bool" where
  Idle: "progress_reach progress_zero {}"
| Begin: "progress_reach p A \<Longrightarrow> k \<notin> fst ` A \<Longrightarrow> progress_begin slot p = (Some i, p1) \<Longrightarrow>
    progress_reach p1 (insert (k, i, False) A)"
| Refreshing: "progress_reach p A \<Longrightarrow> (k, i, False) \<in> A \<Longrightarrow>
    progress_reach (progress_refreshing i k p) (insert (k, i, True) (A - {(k, i, False)}))"
| Finish: "progress_reach p A \<Longrightarrow> (k, i, b) \<in> A \<Longrightarrow> progress_reach (progress_finish i k b p) (A - {(k, i, b)})"

definition waiting_requests :: "(nat \<times> nat \<times> bool) set \<Rightarrow> nat \<Rightarrow> nat set" where
  "waiting_requests A i = {k. (k, i, False) \<in> A}"

definition progress_ok :: "authenticationProgress \<Rightarrow> (nat \<times> nat \<times> bool) set \<Rightarrow> bool" where
  "progress_ok p A \<longleftrightarrow> finite A \<and> length (waiting p) = Capacity \<and> length (refreshing p) = Capacity
     \<and> (\<forall>k i b. (k, i, b) \<in> A \<longrightarrow> i < Capacity)
     \<and> (\<forall>i<Capacity. waiting p ! i = int (card (waiting_requests A i)))
     \<and> (\<forall>i<Capacity. \<forall>k. refreshing p ! i = Some k \<longrightarrow> (k, i, True) \<in> A)"

lemma waiting_finite: "finite A \<Longrightarrow> finite (waiting_requests A i)"
  unfolding waiting_requests_def by (rule finite_subset [of _ "fst ` A"]) (auto intro: rev_image_eqI)


lemma waiting_begin:
  "k \<notin> fst ` A \<Longrightarrow> finite A \<Longrightarrow>
     card (waiting_requests (insert (k, i, False) A) j) = card (waiting_requests A j) + (if j = i then 1 else 0)"
proof -
  assume k: "k \<notin> fst ` A" and f: "finite A"
  have "waiting_requests (insert (k, i, False) A) j = (if j = i then insert k (waiting_requests A j) else waiting_requests A j)"
    by (auto simp: waiting_requests_def)
  moreover have "k \<notin> waiting_requests A j" using k by (auto simp: waiting_requests_def intro: rev_image_eqI)
  ultimately show ?thesis using waiting_finite [OF f, of j] by (cases "j = i") auto
qed

lemma waiting_leave:
  assumes "(k, i, False) \<in> A" and "finite A"
  shows "int (card (waiting_requests (A - {(k, i, False)}) j)) = int (card (waiting_requests A j)) - (if j = i then 1 else 0)"
proof -
  have w: "waiting_requests (A - {(k, i, False)}) j = (if j = i then waiting_requests A j - {k} else waiting_requests A j)"
    by (auto simp: waiting_requests_def)
  show ?thesis
  proof (cases "j = i")
    case True
    then have "k \<in> waiting_requests A j" using assms(1) by (simp add: waiting_requests_def)
    then have "card (waiting_requests A j - {k}) + 1 = card (waiting_requests A j)"
      using waiting_finite [OF assms(2), of j] card_Suc_Diff1 by fastforce
    then show ?thesis using w True by simp
  qed (simp add: w)
qed

lemma waiting_started: "waiting_requests (insert (k, i, True) A) j = waiting_requests A j"
  "waiting_requests (A - {(k, i, True)}) j = waiting_requests A j"
  by (auto simp: waiting_requests_def)

lemma slot_position: "slot \<in> set slot_all \<Longrightarrow> length (takeWhile (\<lambda>s. s \<noteq> slot) slot_all) < Capacity"
  by (auto simp: slot_all_def Capacity_def)

lemma refreshing_update:
  "i < length xs \<Longrightarrow> xs[i := Some k] ! j = Some l \<Longrightarrow> j = i \<and> l = k \<or> xs ! j = Some l"
  by (cases "j = i") auto

lemma refreshing_clear: "i < length xs \<Longrightarrow> xs[i := None] ! j = Some l \<Longrightarrow> j \<noteq> i \<and> xs ! j = Some l"
  by (cases "j = i") auto

lemma progress_reach_ok: "progress_reach p A \<Longrightarrow> progress_ok p A"
proof (induction rule: progress_reach.induct)
  case Idle
  then show ?case by (simp add: progress_ok_def progress_zero_def waiting_requests_def)
next
  case (Begin p A k slot i p1)
  then have i: "i < Capacity" and p1: "p1 = p\<lparr>waiting := (waiting p)[i := waiting p ! i + 1]\<rparr>"
    using slot_position by (auto simp: progress_begin_def Let_def split: if_splits)
  have f: "finite A" using Begin.IH by (simp add: progress_ok_def)
  from Begin.IH i show ?case
    unfolding progress_ok_def p1 waiting_begin [OF Begin.hyps(2) f] by (auto simp: nth_list_update)
next
  case (Refreshing p A k i)
  then have f: "finite A" and i: "i < Capacity" by (auto simp: progress_ok_def)
  have l: "length (refreshing p) = Capacity" using Refreshing.IH by (simp add: progress_ok_def)
  have r: "(l, j, True) \<in> A \<or> j = i \<and> l = k"
    if "(refreshing p)[i := Some k] ! j = Some l" "j < Capacity" for j l
    using refreshing_update [of i "refreshing p" k j l] that l i Refreshing.IH by (auto simp: progress_ok_def)
  from Refreshing.IH Refreshing.hyps(2) f i show ?case
    unfolding progress_ok_def progress_refreshing_def waiting_started waiting_leave [OF Refreshing.hyps(2) f]
    by (auto dest: r simp: nth_list_update)
next
  case (Finish p A k i b)
  then have f: "finite A" and i: "i < Capacity" by (auto simp: progress_ok_def)
  have r: "(l, j, True) \<in> A \<and> j \<noteq> i" if "(refreshing p)[i := None] ! j = Some l" "j < Capacity" for j l
    using refreshing_clear [of i "refreshing p" j l] that i Finish.IH by (auto simp: progress_ok_def)
  show ?case
  proof (cases b)
    case True
    with Finish i show ?thesis
      by (auto simp: progress_ok_def progress_finish_def waiting_started dest: r split: if_splits)
  next
    case False
    with Finish have "(k, i, False) \<in> A" by simp
    from Finish False show ?thesis
      by (auto simp: progress_ok_def progress_finish_def waiting_leave [OF \<open>(k, i, False) \<in> A\<close> f] nth_list_update
          split: if_splits)
  qed
qed

text \<open>When every request has finished, no activity is reported.\<close>

lemma progress_idle: "progress_reach p {} \<Longrightarrow> AuthenticationStatus cancelled p = []"
proof -
  assume "progress_reach p {}"
  then have "waiting p ! i = 0 \<and> refreshing p ! i = None" if "i < Capacity" for i
    using progress_reach_ok [of p "{}"] that
    by (cases "refreshing p ! i") (auto simp: progress_ok_def waiting_requests_def)
  then show ?thesis
    by (auto simp: AuthenticationStatus_def in_set_enumerate_eq)
qed

end
