(* ===== verification/Usage_Monitor.thy ===== *)
theory Usage_Monitor
  imports Usage
begin

text \<open>
  Package \<^verbatim>\<open>usage\<close>, the loop of the monitor. The rounds the loop may meet are a sequence: what the context,
  the samples, the publisher and the ticker do in each. The loop may run for ever, so it is a partial function;
  it returns exactly when some round ends it.
\<close>

text \<open>How a round's wait ends. A tick that was missed while sampling is dropped before it.\<close>

datatype wait_end = Ticked | Closed | Done

record monitor_round =
  round_live :: bool
  round_inputs :: "(string \<times> slot_inputs) list"
  round_publish :: "usage_snapshot list \<Rightarrow> go_err option"
  round_wait :: wait_end

text \<open>The result: the error, what was published, newest first, and the monitor.\<close>

partial_function (option) monitor_run ::
  "(nat \<Rightarrow> monitor_round) \<Rightarrow> nat \<Rightarrow> usage_snapshot list list \<Rightarrow> monitor \<Rightarrow> (go_err option \<times> usage_snapshot list list \<times> monitor) option" where
  "monitor_run rounds n out m =
     (if \<not> round_live (rounds n) then Some (None, out, m)
      else case Refresh (round_inputs (rounds n)) m of (samples, m1) \<Rightarrow>
        (case round_publish (rounds n) samples of
           Some e \<Rightarrow> Some (Some e, samples # out, m1)
         | None \<Rightarrow>
             if round_wait (rounds n) \<noteq> Ticked then Some (None, samples # out, m1)
             else monitor_run rounds (Suc n) (samples # out) m1))"

text \<open>The previous samples before round \<open>n\<close>, and whether that round is the last.\<close>

fun monitor_before :: "(nat \<Rightarrow> monitor_round) \<Rightarrow> monitor \<Rightarrow> nat \<Rightarrow> monitor" where
  "monitor_before rounds m 0 = m"
| "monitor_before rounds m (Suc n) = snd (Refresh (round_inputs (rounds n)) (monitor_before rounds m n))"

definition round_ends :: "(nat \<Rightarrow> monitor_round) \<Rightarrow> monitor \<Rightarrow> nat \<Rightarrow> bool" where
  "round_ends rounds m n \<longleftrightarrow>
     \<not> round_live (rounds n)
     \<or> round_publish (rounds n) (fst (Refresh (round_inputs (rounds n)) (monitor_before rounds m n))) \<noteq> None
     \<or> round_wait (rounds n) \<noteq> Ticked"

lemma monitor_run_step:
  assumes "\<not> round_ends rounds m n"
  shows "monitor_run rounds n out (monitor_before rounds m n) =
    monitor_run rounds (Suc n) (fst (Refresh (round_inputs (rounds n)) (monitor_before rounds m n)) # out)
      (monitor_before rounds m (Suc n))"
proof -
  obtain samples m1 where R: "Refresh (round_inputs (rounds n)) (monitor_before rounds m n) = (samples, m1)"
    by (cases "Refresh (round_inputs (rounds n)) (monitor_before rounds m n)")
  with assms show ?thesis by (subst monitor_run.simps) (simp add: round_ends_def R)
qed

lemma monitor_run_ends: "round_ends rounds m n \<Longrightarrow> \<exists>y. monitor_run rounds n out (monitor_before rounds m n) = Some y"
  by (subst monitor_run.simps) (auto simp: round_ends_def split: prod.splits option.splits)

lemma monitor_run_returns:
  "round_ends rounds m (n + d) \<Longrightarrow> \<exists>y. monitor_run rounds n out (monitor_before rounds m n) = Some y"
proof (induction d arbitrary: n out)
  case 0
  then show ?case using monitor_run_ends by simp
next
  case (Suc d)
  show ?case
  proof (cases "round_ends rounds m n")
    case True
    then show ?thesis by (rule monitor_run_ends)
  next
    case False
    have "round_ends rounds m (Suc n + d)" using Suc.prems by simp
    from Suc.IH [OF this] show ?thesis unfolding monitor_run_step [OF False] .
  qed
qed

lemma monitor_run_endless:
  assumes "monitor_run rounds n out m1 = Some y" and "m1 = monitor_before rounds m n"
  shows "\<exists>k\<ge>n. round_ends rounds m k"
  using assms(2)
proof (induction arbitrary: m rule: monitor_run.raw_induct [OF _ assms(1)])
  case (1 run rounds n out m1 y)
  show ?case
  proof (cases "round_ends rounds m n")
    case True
    then show ?thesis by blast
  next
    case False
    obtain samples m2 where R: "Refresh (round_inputs (rounds n)) m1 = (samples, m2)"
      by (cases "Refresh (round_inputs (rounds n)) m1")
    have "run rounds (Suc n) (samples # out) m2 = Some y"
      using 1(2) False R by (simp add: round_ends_def flip: 1(3))
    moreover have "m2 = monitor_before rounds m (Suc n)" using R 1(3) by simp
    ultimately have "\<exists>k\<ge>Suc n. round_ends rounds m k" by (rule 1(1))
    then show ?thesis using Suc_leD by blast
  qed
qed


end
