(* ===== verification/Proxy_Echo.thy ===== *)
theory Proxy_Echo
  imports Proxy_Refs
begin

text \<open>
  Server history that a client echoes: without its identifier and status, and with empty annotations left out,
  an item keeps its digest, so the references an echo asks for are among those the completed response granted.
\<close>

lemma obj_get_changed:
  assumes "\<And>k v. fst (f (k, v)) = k"
  shows "obj_get (map f (filter (\<lambda>(k, v). P k) it)) k = (if P k then map_option (\<lambda>v. snd (f (k, v))) (obj_get it k) else None)"
proof -
  have none: "map_of (map f (filter (\<lambda>(k, v). P k) xs)) k = None" if "\<not> P k" for xs k
  proof (induction xs)
    case (Cons x xs)
    obtain j v where x: "x = (j, v)" by (cases x)
    obtain j1 v1 where f: "f (j, v) = (j1, v1)" by (cases "f (j, v)")
    then have "j1 = j" using assms [of j v] by simp
    with Cons x f that show ?case by auto
  qed simp
  have "map_of (map f (filter (\<lambda>(k, v). P k) xs)) k = (if P k then map_option (\<lambda>v. snd (f (k, v))) (map_of xs k) else None)" for xs
  proof (induction xs)
    case (Cons x xs)
    obtain j v where x: "x = (j, v)" by (cases x)
    obtain j1 v1 where f: "f (j, v) = (j1, v1)" by (cases "f (j, v)")
    then have "j1 = j" using assms [of j v] by simp
    with Cons x f none [of j] show ?case by auto
  qed simp
  from this [of "rev it"] show ?thesis by (simp add: obj_get_def rev_map rev_filter)
qed

lemma obj_get_canonical:
  "obj_get (canonical kind it) k =
     (if k = ''id'' \<or> k = ''status'' then None
      else map_option (\<lambda>v. if kind = ''message'' \<and> k = ''content'' then strip_content v else v) (obj_get it k))"
  unfolding canonical_def using obj_get_changed [of _ "\<lambda>k. k \<noteq> ''id'' \<and> k \<noteq> ''status''"]
  by (subst obj_get_changed [of _ "\<lambda>k. k \<noteq> ''id'' \<and> k \<noteq> ''status''"]) auto

lemma fieldString_canonical:
  "k \<noteq> ''id'' \<Longrightarrow> k \<noteq> ''status'' \<Longrightarrow> k \<noteq> ''content'' \<Longrightarrow> fieldString (canonical kind it) k = fieldString it k"
  by (simp add: fieldString_def obj_get_canonical cong: option.case_cong)

lemma strip_part_twice: "strip_part (strip_part p) = strip_part p"
  by (cases p) (simp_all add: strip_part_def)

lemma strip_content_twice: "strip_content (strip_content v) = strip_content v"
  by (cases v) (simp_all add: strip_content_def strip_part_twice)

lemma canonical_twice: "canonical kind (canonical kind it) = canonical kind it"
  by (auto simp: canonical_def filter_map comp_def case_prod_unfold strip_content_twice intro!: filter_cong)

lemma only_keys_canonical: "only_keys ks it \<Longrightarrow> only_keys ks (canonical kind it)"
  by (auto simp: only_keys_def canonical_def list_all_iff)

lemma historyKey_canonical:
  assumes "historyKey it = Some key"
  shows "historyKey (canonical (fst (fieldString it ''type'')) it) = Some key"
proof -
  let ?kind = "fst (fieldString it ''type'')"
  let ?echo = "canonical ?kind it"
  have kind: "fst (fieldString ?echo ''type'') = ?kind" and role: "fieldString ?echo ''role'' = fieldString it ''role''"
    by (simp_all add: fieldString_canonical)
  have status: "status_ok ?echo" by (simp add: status_ok_def present_def obj_get_canonical)
  have key: "key = ''history:'' @ sha256_hex (json_marshal (JObj (canonical ?kind it)))"
    using assms by (auto simp: historyKey_def Let_def split: if_splits)
  from assms have "?kind = ''message'' \<or> ?kind = ''reasoning''"
    by (auto simp: historyKey_def Let_def split: if_splits)
  then show ?thesis
  proof
    assume m: "?kind = ''message''"
    then have "fst (fieldString it ''role'') = ''assistant''" and c: "case obj_get it ''content'' of Some (JArr _) \<Rightarrow> True | _ \<Rightarrow> False"
      and "only_keys [''id'', ''status'', ''type'', ''role'', ''content'', ''phase''] it"
      using assms by (auto simp: historyKey_def Let_def split: if_splits)
    moreover have "case obj_get ?echo ''content'' of Some (JArr _) \<Rightarrow> True | _ \<Rightarrow> False"
      using c m by (auto simp: obj_get_canonical strip_content_def split: option.splits json.splits)
    ultimately show ?thesis
      unfolding historyKey_def [of ?echo] Let_def kind role canonical_twice key
      using m status only_keys_canonical by simp
  next
    assume r: "?kind = ''reasoning''"
    then have s: "obj_get it ''summary'' \<noteq> None"
      and "only_keys [''id'', ''status'', ''type'', ''summary'', ''content'', ''encrypted_content''] it"
      using assms by (auto simp: historyKey_def Let_def split: if_splits)
    moreover have "obj_get ?echo ''summary'' \<noteq> None" using s by (simp add: obj_get_canonical)
    ultimately show ?thesis
      unfolding historyKey_def [of ?echo] Let_def kind role canonical_twice key
      using r status only_keys_canonical by simp
  qed
qed

text \<open>C39: The two parsers agree on history: what a completed response grants for a message or reasoning item is
  exactly what the same item in a later request asks for, and the trimmed echo a client sends asks for its
  first reference, the digest, alone.\<close>

theorem echo_is_granted:
  assumes "output_refs (JObj it) = Inr refs" and "fst (fieldString it ''type'') = ''message'' \<or> fst (fieldString it ''type'') = ''reasoning''"
  shows "item_refs it = Some refs \<and> item_refs (canonical (fst (fieldString it ''type'')) it) = Some [hd refs]"
proof -
  let ?kind = "fst (fieldString it ''type'')"
  obtain key where key: "historyKey it = Some key" and refs: "refs = key # (if obj_get it ''id'' = None then []
      else [''item:'' @ fst (fieldString it ''id'')])" and ident: "obj_get it ''id'' = None \<or> valid_field it ''id''"
    using assms by (auto simp: output_refs_def bind_r_def split: prod.splits if_splits option.splits sum.splits)
  have role: "?kind = ''message'' \<longrightarrow> fst (fieldString it ''role'') = ''assistant''"
    using key by (auto simp: historyKey_def Let_def split: if_splits)
  have id_null: "obj_get it ''id'' = Some JNull \<Longrightarrow> \<not> valid_field it ''id''"
    by (simp add: valid_field_def fieldString_def)
  have "item_refs it = Some refs"
    using key refs ident role assms(2) id_null by (auto simp: item_refs_def Let_def present_def)
  moreover have "item_refs (canonical ?kind it) = Some [key]"
    using historyKey_canonical [OF key] role assms(2)
    by (auto simp: item_refs_def Let_def fieldString_canonical present_def obj_get_canonical)
  ultimately show ?thesis using refs by simp
qed

lemma echo_is_granted_witness:
  "item_refs (canonical ''reasoning'' [(''type'', JStr ''reasoning''), (''id'', JStr ''r1''), (''summary'', JArr [])]) \<noteq> None"
proof -
  let ?it = "[(''type'', JStr ''reasoning''), (''id'', JStr ''r1''), (''summary'', JArr [])]"
  have k: "historyKey ?it \<noteq> None"
    by (simp add: historyKey_def fieldString_def obj_get_def only_keys_def status_ok_def present_def Let_def)
  then have "output_refs (JObj ?it) = Inr [the (historyKey ?it), ''item:r1'']"
    by (auto simp: output_refs_def fieldString_def obj_get_def valid_field_def validID_def contains_any_def bind_r_def)
  from echo_is_granted [OF this] show ?thesis by (simp add: fieldString_def obj_get_def)
qed

end
