(* ===== verification/Cli_Session_Props.thy ===== *)
theory Cli_Session_Props
  imports Cli_Session Routing_Props
begin

text \<open>
  A CLI binding over its whole life: whatever start events, requests, closes and changes of the shared router
  follow each other, an identity is granted only to requests of the launched process for the conversation of
  the first start event, which has succeeded, and never after a close.
\<close>

datatype 'db cli_event =
  StartEvent time string
| ResolveEvent time header bool
| CloseEvent
| RouterEvent "'db router \<Rightarrow> 'db router" \<comment> \<open>the monitor and other users of the shared router\<close>

fun cli_step :: "'db conn \<Rightarrow> access_source \<Rightarrow> 'db cli_event \<Rightarrow> binding \<times> 'db router \<Rightarrow> binding \<times> 'db router" where
  "cli_step q acc (StartEvent now i) (b, r) = snd (Started q acc now i b r)"
| "cli_step q acc (ResolveEvent now h woke) (b, r) = (b, snd (binding_Resolve q acc now h woke b r))"
| "cli_step q acc CloseEvent (b, r) = (binding_Close b, r)"
| "cli_step q acc (RouterEvent f) (b, r) = (b, f r)"

definition cli_run :: "'db conn \<Rightarrow> access_source \<Rightarrow> 'db cli_event list \<Rightarrow> binding \<times> 'db router \<Rightarrow> binding \<times> 'db router" where
  "cli_run q acc evs s = foldl (\<lambda>s ev. cli_step q acc ev s) s evs"

fun is_start :: "'db cli_event \<Rightarrow> bool" where
  "is_start (StartEvent now i) = True"
| "is_start _ = False"

text \<open>The first start event of the history named \<open>i\<close> and succeeded, and nothing closed the binding.\<close>

definition started_as :: "'db conn \<Rightarrow> access_source \<Rightarrow> 'db cli_event list \<Rightarrow> binding \<times> 'db router \<Rightarrow> string \<Rightarrow> bool" where
  "started_as q acc evs s i \<longleftrightarrow>
     (\<exists>before now after. evs = before @ StartEvent now i # after \<and> list_all (\<lambda>ev. \<not> is_start ev) before
        \<and> is_ok (fst (Started q acc now i (fst (cli_run q acc before s)) (snd (cli_run q acc before s)))))"

lemma cli_run_snoc: "cli_run q acc (evs @ [ev]) s = cli_step q acc ev (cli_run q acc evs s)"
  by (simp add: cli_run_def)

lemma started_as_snoc: "started_as q acc evs s i \<Longrightarrow> started_as q acc (evs @ [ev]) s i"
  unfolding started_as_def by (metis append.assoc append_Cons)

text \<open>What holds of the binding after a history of a fresh binding \<open>b0\<close>.\<close>

definition cli_inv :: "'db conn \<Rightarrow> access_source \<Rightarrow> 'db cli_event list \<Rightarrow> binding \<Rightarrow> 'db router \<Rightarrow> binding \<Rightarrow> bool" where
  "cli_inv q acc evs b0 r0 b \<longleftrightarrow>
     bSecret b = bSecret b0 \<and> bResume b = bResume b0
     \<and> (bOrigin b)\<lparr>Session := []\<rparr> = (bOrigin b0)\<lparr>Session := []\<rparr>
     \<and> (CloseEvent \<in> set evs \<longrightarrow> bClosed b)
     \<and> (\<not> bClosed b \<and> \<not> bStarted b \<longrightarrow> b = b0 \<and> list_all (\<lambda>ev. \<not> is_start ev) evs)
     \<and> (\<not> bClosed b \<and> bStarted b \<and> \<not> bFailed b \<longrightarrow>
          started_as q acc evs (b0, r0) (Session (bOrigin b))
          \<and> (bResume b0 \<noteq> [] \<longrightarrow> Session (bOrigin b) = bResume b0))"

lemma Started_refused: "bClosed b \<or> bStarted b \<Longrightarrow> Started q acc now i b r = (Inl EBinding, b, r)"
  by (simp add: Started_def)

lemma Started_cases:
  assumes "\<not> bClosed b" "\<not> bStarted b" "Started q acc now i b r = (x, b1, r1)"
  shows "bSecret b1 = bSecret b \<and> bResume b1 = bResume b \<and> (bOrigin b1)\<lparr>Session := []\<rparr> = (bOrigin b)\<lparr>Session := []\<rparr>
    \<and> bStarted b1 \<and> \<not> bClosed b1
    \<and> (\<not> bFailed b1 \<longrightarrow> is_ok x \<and> Session (bOrigin b1) = i \<and> (bResume b \<noteq> [] \<longrightarrow> i = bResume b))"
  using assms by (auto simp: Started_def Let_def split: if_splits prod.splits sum.splits)

lemma cli_inv_start:
  assumes "cli_inv q acc evs b0 r0 b" and "cli_run q acc evs (b0, r0) = (b, r)"
  shows "cli_inv q acc (evs @ [StartEvent now i]) b0 r0 (fst (snd (Started q acc now i b r)))"
proof (cases "bClosed b \<or> bStarted b")
  case True
  with assms(1) show ?thesis
    by (auto simp: Started_refused cli_inv_def intro: started_as_snoc)
next
  case False
  obtain x b1 r1 where S: "Started q acc now i b r = (x, b1, r1)" by (metis prod.exhaust)
  have fresh: "b = b0" "list_all (\<lambda>ev. \<not> is_start ev) evs" "CloseEvent \<notin> set evs"
    using assms(1) False by (auto simp: cli_inv_def)
  have "is_ok x \<Longrightarrow> started_as q acc (evs @ [StartEvent now i]) (b0, r0) i"
    unfolding started_as_def using fresh(2) assms(2) S by (intro exI [of _ evs] exI [of _ now] exI [of _ "[]"]) auto
  with Started_cases [OF _ _ S] False fresh have "cli_inv q acc (evs @ [StartEvent now i]) b0 r0 b1"
    by (auto simp: cli_inv_def)
  then show ?thesis by (simp add: S)
qed

lemma cli_inv_other:
  assumes "cli_inv q acc evs b0 r0 b" "\<not> is_start ev" "ev \<noteq> CloseEvent"
  shows "cli_inv q acc (evs @ [ev]) b0 r0 b"
  using assms started_as_snoc [of q acc evs "(b0, r0)" "Session (bOrigin b)" ev] unfolding cli_inv_def by auto

lemma cli_inv_close:
  assumes "cli_inv q acc evs b0 r0 b"
  shows "cli_inv q acc (evs @ [CloseEvent]) b0 r0 (binding_Close b)"
proof -
  have "bClosed (binding_Close b)" "bSecret (binding_Close b) = bSecret b" "bResume (binding_Close b) = bResume b"
    "bOrigin (binding_Close b) = bOrigin b"
    by (simp_all add: binding_Close_def Let_def)
  with assms show ?thesis by (simp add: cli_inv_def)
qed

lemma cli_inv_run:
  assumes "\<not> bStarted b0" "\<not> bClosed b0"
  shows "cli_inv q acc evs b0 r0 (fst (cli_run q acc evs (b0, r0)))"
proof (induction evs rule: rev_induct)
  case Nil
  with assms show ?case by (simp add: cli_inv_def cli_run_def)
next
  case (snoc ev evs)
  obtain b r where run: "cli_run q acc evs (b0, r0) = (b, r)" by (metis prod.exhaust)
  with snoc have inv: "cli_inv q acc evs b0 r0 b" by simp
  show ?case
  proof (cases ev)
    case (StartEvent now i)
    with cli_inv_start [OF inv run] show ?thesis by (simp add: cli_run_snoc run)
  next
    case (ResolveEvent now h woke)
    with cli_inv_other [OF inv, of ev] show ?thesis by (simp add: cli_run_snoc run)
  next
    case CloseEvent
    with cli_inv_close [OF inv] show ?thesis by (simp add: cli_run_snoc run)
  next
    case (RouterEvent f)
    with cli_inv_other [OF inv, of ev] show ?thesis by (simp add: cli_run_snoc run)
  qed
qed

lemma Resolve_origin: "Resolve q acc o1 now r = (Inr x, r1) \<Longrightarrow> iSession x = Session o1 \<and> iOrigin x = o1"
  by (auto simp: Resolve_def split: prod.splits sum.splits option.splits if_splits)

lemma binding_Resolve_granted:
  assumes "binding_Resolve q acc now h woke b r = (Inr x, r1)"
  shows "h ''X-Switcher-Run'' = [bSecret b] \<and> h ''Thread-Id'' = [iSession x] \<and> bReady b \<and> \<not> bClosed b \<and> \<not> bFailed b
    \<and> iSession x = Session (bOrigin b) \<and> iOrigin x = bOrigin b"
  using assms Resolve_origin [of q acc "bOrigin b" now r]
  by (auto simp: binding_Resolve_def ThreadID_Inr split: if_splits sum.splits prod.splits)

lemma ready_started:
  assumes "\<not> bStarted b0" "\<not> bReady b0" "\<not> bClosed b0" "bReady (fst (cli_run q acc evs (b0, r0)))"
    "\<not> bClosed (fst (cli_run q acc evs (b0, r0)))"
  shows "bStarted (fst (cli_run q acc evs (b0, r0)))"
  using cli_inv_run [OF assms(1,3), of q acc evs r0] assms(2,4,5) by (auto simp: cli_inv_def)

text \<open>C13: The binding of a CLI process fails closed. In every history of start events, requests, other uses of the
  router and closing, a request is resolved only when the first start event of the process succeeded and named
  exactly the thread in the request's headers, the request carried the launcher's secret once, and nothing
  closed the binding; the identity is in the trusted project and, for a resumed conversation, is that
  conversation. A start event that fails is never made up for by a later one.\<close>

theorem binding_fails_closed:
  assumes "binding_New True o1 secret True resume = Inr b0 \<or> NewHandoff True o1 secret i sn True = Inr b0"
    and "cli_run q acc evs (b0, r0) = (b, r)"
    and "binding_Resolve q acc now h woke b r = (Inr x, r1)"
  shows "started_as q acc evs (b0, r0) (iSession x) \<and> CloseEvent \<notin> set evs
    \<and> h ''X-Switcher-Run'' = [secret] \<and> h ''Thread-Id'' = [iSession x]
    \<and> iOrigin x = o1\<lparr>Session := iSession x\<rparr> \<and> (bResume b0 \<noteq> [] \<longrightarrow> iSession x = bResume b0)"
proof -
  have b0: "\<not> bStarted b0" "\<not> bReady b0" "\<not> bClosed b0" "bSecret b0 = secret" "bOrigin b0 = o1" "Session o1 = []"
    using assms(1) by (auto simp: NewHandoff_def binding_New_def bind_r_def split: if_splits sum.splits)
  have inv: "cli_inv q acc evs b0 r0 b" using cli_inv_run [OF b0(1,3), of q acc evs r0] assms(2) by simp
  note g = binding_Resolve_granted [OF assms(3)]
  have "bStarted b" using ready_started [OF b0(1,2,3), of q acc evs r0] g assms(2) by simp
  with g inv have st: "started_as q acc evs (b0, r0) (iSession x)" "CloseEvent \<notin> set evs" "bSecret b = secret"
      "(bOrigin b)\<lparr>Session := []\<rparr> = o1\<lparr>Session := []\<rparr>" "bResume b0 \<noteq> [] \<longrightarrow> iSession x = bResume b0"
    by (auto simp: cli_inv_def b0(4,5))
  have "bOrigin b = o1\<lparr>Session := Session (bOrigin b)\<rparr>"
    using st(4) by (cases "bOrigin b"; cases o1) simp
  with g st show ?thesis by simp
qed

section \<open>A launched process\<close>

definition cli_origin :: origin where
  "cli_origin = \<lparr>Project = ''p'', Worktree = ''w'', Branch = ''b'', Session = []\<rparr>"

definition cli_thread :: string where "cli_thread = ''11111111-1111-4111-8111-111111111111''"

definition memory_router :: "pure_db router" where
  "memory_router = sample_router\<lparr>disk := None\<rparr>"

definition cli_binding :: binding where
  "cli_binding = \<lparr>bOrigin = cli_origin, bSecret = ''0123456789abcdef'', bResume = [], bReady = False,
     bStarted = False, bClosed = False, bFailed = False, bHandoff = [], bSnapshot = empty_snapshot\<rparr>"

definition cli_request :: header where
  "cli_request = no_header(''X-Switcher-Run'' := [''0123456789abcdef''], ''Thread-Id'' := [cli_thread],
     ''Session-Id'' := [cli_thread])"

lemma sample_uuid: "uuid cli_thread"
  by (simp add: uuid_def cli_thread_def lower_hex_def)

lemma memory_remaining:
  assumes "samples r1 = samples sample_router"
  shows "remaining r1 ''b'' 1 = (Fin 90, True)"
  using remaining_samples [OF assms] sample_remaining(2) by simp

lemma memory_choose: "chosen (choose_slot sample_acc memory_router 1) = ''b''"
proof -
  have "remaining memory_router = remaining sample_router"
    by (rule remaining_samples) (simp add: memory_router_def)
  moreover have "sample_unusable memory_router = sample_unusable sample_router"
    by (intro ext) (simp add: memory_router_def sample_unusable_def)
  ultimately have "choose_step sample_acc memory_router 1 = choose_step sample_acc sample_router 1"
    by (intro ext) (simp add: choose_step_def)
  then show ?thesis using sample_choose by (simp add: choose_slot_def)
qed

abbreviation started_origin :: origin where
  "started_origin \<equiv> cli_origin\<lparr>Session := cli_thread\<rparr>"

lemma memory_register:
  "\<exists>r. router_Register pure_query sample_acc started_origin True 1 memory_router =
       (Inr \<lparr>sOrigin = started_origin, Account = ''b'', Wiki = []\<rparr>, r)
     \<and> samples r = samples sample_router \<and> disk r = None
     \<and> mem_Session cli_thread (mem_sessions r) = Some \<lparr>sOrigin = started_origin, Account = ''b'', Wiki = []\<rparr>"
proof -
  have l: "router_lookup pure_query cli_thread memory_router = (Inl Unknown, memory_router)"
    by (simp add: router_lookup_def memory_router_def sample_router_def mem_Session_def new_store_def)
  have m: "disk memory_router = None" "mem_sessions memory_router = new_store" "samples memory_router = samples sample_router"
    by (simp_all add: memory_router_def sample_router_def)
  have c: "chosen (choose_slot sample_acc memory_router 1) = ''b''" by (rule memory_choose)
  have n: "mem_Register started_origin ''b'' (snd (SetAccount ''b'' True new_store)) =
      (Inr \<lparr>sOrigin = started_origin, Account = ''b'', Wiki = []\<rparr>,
       (snd (SetAccount ''b'' True new_store))\<lparr>sessions := [cli_thread \<mapsto> \<lparr>sOrigin = started_origin, Account = ''b'', Wiki = []\<rparr>]\<rparr>)"
    and a: "SetAccount ''b'' True new_store = (None, snd (SetAccount ''b'' True new_store))"
    by (simp_all add: mem_Register_def SetAccount_def new_store_def origin_complete_def cli_origin_def cli_thread_def
        available_def Let_def)
  show ?thesis
    by (simp add: router_Register_def l m mem_Session_def Let_def c) (subst a, simp add: c n mem_result_def m)
qed

lemma memory_started:
  "\<exists>r. Started pure_query sample_acc 1 cli_thread cli_binding memory_router =
       (Inr (), cli_binding\<lparr>bStarted := True, bReady := True, bOrigin := started_origin\<rparr>, r)
     \<and> samples r = samples sample_router \<and> disk r = None
     \<and> mem_Session cli_thread (mem_sessions r) = Some \<lparr>sOrigin = started_origin, Account = ''b'', Wiki = []\<rparr>"
  using memory_register
  by (auto simp: Started_def cli_binding_def validThread_uuid sample_uuid Let_def start_route_def)

lemma memory_resolve:
  assumes "samples r = samples sample_router" "disk r = None"
    "mem_Session cli_thread (mem_sessions r) = Some \<lparr>sOrigin = started_origin, Account = ''b'', Wiki = []\<rparr>"
  shows "Resolve pure_query sample_acc started_origin 1 r =
    (Inr \<lparr>iSession = cli_thread, iToken = ''t'', iAccountID = ''i'', iOrigin = started_origin, iSlot = ''b''\<rparr>, r)"
  by (simp add: Resolve_def router_lookup_def assms(2,3) memory_remaining [OF assms(1)] sample_acc_def)

theorem binding_fails_closed_witness:
  "started_as pure_query sample_acc [StartEvent 1 cli_thread] (cli_binding, memory_router) cli_thread"
proof -
  obtain r where S: "Started pure_query sample_acc 1 cli_thread cli_binding memory_router =
       (Inr (), cli_binding\<lparr>bStarted := True, bReady := True, bOrigin := started_origin\<rparr>, r)"
    and r: "samples r = samples sample_router" "disk r = None"
      "mem_Session cli_thread (mem_sessions r) = Some \<lparr>sOrigin = started_origin, Account = ''b'', Wiki = []\<rparr>"
    using memory_started by blast
  have n: "binding_New True cli_origin ''0123456789abcdef'' True [] = Inr cli_binding"
    by (simp add: binding_New_def cli_origin_def cli_binding_def)
  have run: "cli_run pure_query sample_acc [StartEvent 1 cli_thread] (cli_binding, memory_router) =
      (cli_binding\<lparr>bStarted := True, bReady := True, bOrigin := started_origin\<rparr>, r)"
    by (simp add: cli_run_def S)
  have "binding_Resolve pure_query sample_acc 1 cli_request True
      (cli_binding\<lparr>bStarted := True, bReady := True, bOrigin := started_origin\<rparr>) r =
      (Inr \<lparr>iSession = cli_thread, iToken = ''t'', iAccountID = ''i'', iOrigin = started_origin, iSlot = ''b''\<rparr>, r)"
    by (simp add: binding_Resolve_def cli_request_def no_header_def cli_binding_def ThreadID_def sample_uuid
        memory_resolve [OF r])
  from binding_fails_closed [OF disjI1 [OF n] run this] show ?thesis by simp
qed

end
