(* ===== verification/Files.thy ===== *)
theory Files
  imports Go_Errors
begin

text \<open>
  The file system as the helper uses it: a map from paths (the components below a fixed root, links already
  resolved) to nodes, and the answers of the system calls that can fail for reasons outside the program; a
  program that meets an exhausted list meets no further failure. A file program passes the state on and
  stops at its first error. Temporary files get random names nobody reads and are removed by their writer, so
  they are not nodes. The lemmas say which paths a program can change.
\<close>

type_synonym path = "string list"

datatype node = Directory | Regular string | Special \<comment> \<open>a symbolic link, pipe, socket or device\<close>

record files =
  nodes :: "path \<rightharpoonup> node"
  answers :: "bool list"

type_synonym 'a io = "files \<Rightarrow> 'a res \<times> files"

definition ask :: "files \<Rightarrow> bool \<times> files" where
  "ask fs = (case answers fs of [] \<Rightarrow> (True, fs) | a # as \<Rightarrow> (a, fs\<lparr>answers := as\<rparr>))"

definition io_return :: "'a \<Rightarrow> 'a io" where "io_return x = (\<lambda>fs. (Inr x, fs))"

definition io_fail :: "go_err \<Rightarrow> 'a io" where "io_fail e = (\<lambda>fs. (Inl e, fs))"

definition io_bind :: "'a io \<Rightarrow> ('a \<Rightarrow> 'b io) \<Rightarrow> 'b io" where
  "io_bind m f = (\<lambda>fs. case m fs of (Inl e, fs1) \<Rightarrow> (Inl e, fs1) | (Inr x, fs1) \<Rightarrow> f x fs1)"

text \<open>A system call that succeeds when the system answers so and the files allow it.\<close>

definition call :: "go_err \<Rightarrow> (files \<Rightarrow> bool) \<Rightarrow> unit io" where
  "call e ok = (\<lambda>fs. case ask fs of (a, fs1) \<Rightarrow> if a \<and> ok fs1 then (Inr (), fs1) else (Inl e, fs1))"

text \<open>Several calls whose errors are looked at together.\<close>

definition calls :: "go_err \<Rightarrow> nat \<Rightarrow> unit io" where
  "calls e n = (\<lambda>fs. let as = take n (answers fs); fs1 = fs\<lparr>answers := drop n (answers fs)\<rparr>
     in if list_all (\<lambda>a. a) as then (Inr (), fs1) else (Inl e, fs1))"

definition put_node :: "path \<Rightarrow> node \<Rightarrow> unit io" where
  "put_node p n = (\<lambda>fs. (Inr (), fs\<lparr>nodes := (nodes fs)(p \<mapsto> n)\<rparr>))"

definition get_node :: "path \<Rightarrow> node option io" where
  "get_node p = (\<lambda>fs. (Inr (nodes fs p), fs))"

fun is_regular :: "node option \<Rightarrow> bool" where
  "is_regular (Some (Regular b)) = True"
| "is_regular _ = False"

fun file_bytes :: "node option \<Rightarrow> string" where
  "file_bytes (Some (Regular b)) = b"
| "file_bytes _ = []"

text \<open>\<^verbatim>\<open>os.RemoveAll\<close>; its error is ignored.\<close>

definition removeAll :: "path \<Rightarrow> unit io" where
  "removeAll p = (\<lambda>fs. (Inr (), fs\<lparr>nodes := (\<lambda>q. if take (length p) q = p then None else nodes fs q)\<rparr>))"

section \<open>What a program changes\<close>

definition touches :: "path set \<Rightarrow> 'a io \<Rightarrow> bool" where
  "touches P m \<longleftrightarrow> (\<forall>fs q. q \<notin> P \<longrightarrow> nodes (snd (m fs)) q = nodes fs q)"

lemma touchesD: "touches P m \<Longrightarrow> q \<notin> P \<Longrightarrow> m fs = (x, fs1) \<Longrightarrow> nodes fs1 q = nodes fs q"
  unfolding touches_def by (metis snd_conv)

lemma nodes_ask [simp]: "nodes (snd (ask fs)) = nodes fs"
  by (simp add: ask_def split: list.splits)

lemma ask_nodes: "ask fs = (a, fs1) \<Longrightarrow> nodes fs1 = nodes fs"
  by (metis nodes_ask snd_conv)

lemma touches_basic [intro, simp]:
  "touches P (io_return x)" "touches P (io_fail e)" "touches P (call e ok)" "touches P (calls e n)" "touches P (get_node p)"
  by (auto simp: touches_def io_return_def io_fail_def call_def calls_def get_node_def Let_def split_beta)

lemma touches_put [intro]: "p \<in> P \<Longrightarrow> touches P (put_node p n)"
  by (auto simp: touches_def put_node_def)

lemma touches_bind [intro]: "touches P m \<Longrightarrow> (\<And>x. touches P (f x)) \<Longrightarrow> touches P (io_bind m f)"
  unfolding touches_def io_bind_def
  by (auto split: prod.splits sum.splits) (metis snd_conv)+

lemma touches_mono: "touches P m \<Longrightarrow> P \<subseteq> Q \<Longrightarrow> touches Q m"
  by (auto simp: touches_def)

lemma io_bind_Inr:
  "io_bind m f fs = (Inr y, fs2) \<longleftrightarrow> (\<exists>x fs1. m fs = (Inr x, fs1) \<and> f x fs1 = (Inr y, fs2))"
  by (auto simp: io_bind_def split: prod.splits sum.splits)

lemma io_bind_Inl:
  "io_bind m f fs = (Inl e, fs2) \<longleftrightarrow> m fs = (Inl e, fs2) \<or> (\<exists>x fs1. m fs = (Inr x, fs1) \<and> f x fs1 = (Inl e, fs2))"
  by (auto simp: io_bind_def split: prod.splits sum.splits)

lemma io_simps [simp]:
  "io_return x fs = (y, fs1) \<longleftrightarrow> y = Inr x \<and> fs1 = fs"
  "io_fail e fs = (z, fs1) \<longleftrightarrow> z = Inl e \<and> fs1 = fs"
  "put_node p n fs = (u, fs1) \<longleftrightarrow> u = Inr () \<and> fs1 = fs\<lparr>nodes := (nodes fs)(p \<mapsto> n)\<rparr>"
  "get_node p fs = (v, fs1) \<longleftrightarrow> v = Inr (nodes fs p) \<and> fs1 = fs"
  by (auto simp: io_return_def io_fail_def put_node_def get_node_def)

lemma call_Inr: "call e ok fs = (Inr x, fs1) \<Longrightarrow> nodes fs1 = nodes fs \<and> ok fs1"
  by (auto simp: call_def dest: ask_nodes split: prod.splits if_splits)

lemma call_nodes: "call e ok fs = (x, fs1) \<Longrightarrow> nodes fs1 = nodes fs"
  by (auto simp: call_def dest: ask_nodes split: prod.splits if_splits)

lemma calls_nodes: "calls e n fs = (x, fs1) \<Longrightarrow> nodes fs1 = nodes fs"
  by (auto simp: calls_def Let_def split: if_splits)

text \<open>Without further failures a call only asks the files.\<close>

lemma calm_simps [simp]:
  "answers fs = [] \<Longrightarrow> ask fs = (True, fs)"
  "answers fs = [] \<Longrightarrow> call e ok fs = (if ok fs then Inr () else Inl e, fs)"
  "answers fs = [] \<Longrightarrow> calls e n fs = (Inr (), fs)"
  by (simp_all add: ask_def call_def calls_def)

section \<open>Shared file operations\<close>

text \<open>\<^verbatim>\<open>writeAtomic\<close> of package \<^verbatim>\<open>wikidraft\<close>: a temporary file is created, written, synced and closed and
  takes the place of the target; then the directory is synced. Before the rename the target is untouched.\<close>

abbreviation ErrPublish :: go_err where "ErrPublish \<equiv> EOther ''checkpoint_publish_failed''"

definition writeAtomic :: "path \<Rightarrow> string \<Rightarrow> string \<Rightarrow> unit io" where
  "writeAtomic dir name b =
     io_bind (call ErrPublish (\<lambda>fs. nodes fs dir = Some Directory)) (\<lambda>_.
     io_bind (calls ErrPublish 3) (\<lambda>_.
     io_bind (call ErrPublish (\<lambda>fs. nodes fs (dir @ [name]) \<noteq> Some Directory)) (\<lambda>_.
     io_bind (put_node (dir @ [name]) (Regular b)) (\<lambda>_.
     io_bind (call ErrPublish (\<lambda>fs. True)) (\<lambda>_.
     call ErrPublish (\<lambda>fs. True))))))"

text \<open>\<^verbatim>\<open>readRegular\<close>: open without following a link, check the type, read at most one byte more than allowed.\<close>

definition readRegular :: "path \<Rightarrow> nat \<Rightarrow> string io" where
  "readRegular p limit =
     io_bind (call ErrPublish (\<lambda>fs. nodes fs p \<noteq> None)) (\<lambda>_.
     io_bind (call ErrPublish (\<lambda>fs. is_regular (nodes fs p))) (\<lambda>_.
     io_bind (call ErrPublish (\<lambda>fs. length (file_bytes (nodes fs p)) \<le> limit)) (\<lambda>_.
     io_bind (get_node p) (\<lambda>n. io_return (file_bytes n)))))"

text \<open>\<^verbatim>\<open>os.Lstat\<close> where the caller tells a missing file from other errors.\<close>

definition lstat_exists :: "path \<Rightarrow> bool io" where
  "lstat_exists p = io_bind (call ErrPublish (\<lambda>fs. True)) (\<lambda>_. io_bind (get_node p) (\<lambda>n. io_return (n \<noteq> None)))"

text \<open>\<^verbatim>\<open>isolatedDirectory\<close>: below the base, each part is made if it is missing and must be a directory itself.
  A part that is a lone slash passes the test on its base name and stays at the same directory.\<close>

definition safe_part :: "string \<Rightarrow> bool" where
  "safe_part p \<longleftrightarrow> p \<noteq> [] \<and> p \<noteq> ''.'' \<and> p \<noteq> ''..'' \<and> (CHR ''/'' \<notin> set p \<or> p = ''/'')"

definition join_part :: "path \<Rightarrow> string \<Rightarrow> path" where
  "join_part p part = (if part = ''/'' then p else p @ [part])"

definition make_dir :: "path \<Rightarrow> unit io" where
  "make_dir p =
     io_bind (get_node p) (\<lambda>n.
       if n \<noteq> None then io_return () else
       io_bind (call ErrPublish (\<lambda>fs. list_all (\<lambda>part. NUL \<notin> set part) p)) (\<lambda>_. put_node p Directory))"

fun make_parts :: "path \<Rightarrow> string list \<Rightarrow> path io" where
  "make_parts p [] = io_return p"
| "make_parts p (part # parts) =
     (if \<not> safe_part part then io_fail ErrPublish
      else io_bind (make_dir (join_part p part)) (\<lambda>_.
           io_bind (call ErrPublish (\<lambda>fs. nodes fs (join_part p part) = Some Directory)) (\<lambda>_.
           make_parts (join_part p part) parts)))"

definition isolatedDirectory :: "path \<Rightarrow> string list \<Rightarrow> path io" where
  "isolatedDirectory base parts =
     io_bind (call ErrPublish (\<lambda>fs. nodes fs base = Some Directory)) (\<lambda>_. make_parts base parts)"

section \<open>Their effects\<close>

lemma writeAtomic_touches: "touches {dir @ [name]} (writeAtomic dir name b)"
  unfolding writeAtomic_def by (intro touches_bind touches_basic touches_put) simp

text \<open>The target is either untouched or holds exactly the bytes, and it holds them on success.\<close>

lemma writeAtomic_target:
  assumes "writeAtomic dir name b fs = (x, fs1)"
  shows "nodes fs1 (dir @ [name]) = Some (Regular b)
    \<or> isl x \<and> nodes fs1 (dir @ [name]) = nodes fs (dir @ [name])"
proof (cases x)
  case (Inl e)
  with assms show ?thesis
    by (auto simp: writeAtomic_def io_bind_Inl dest!: call_nodes calls_nodes)
next
  case (Inr u)
  with assms show ?thesis
    by (auto simp: writeAtomic_def io_bind_Inr dest!: call_nodes calls_nodes)
qed

lemma readRegular_touches: "touches P (readRegular p n)"
  unfolding readRegular_def by (intro touches_bind touches_basic)

lemma readRegular_Inr:
  "readRegular p limit fs = (Inr b, fs1) \<Longrightarrow> nodes fs p = Some (Regular b) \<and> length b \<le> limit \<and> nodes fs1 = nodes fs"
  by (auto simp: readRegular_def io_bind_Inr dest!: call_Inr elim!: is_regular.elims)

lemma readRegular_calm:
  "nodes fs p = Some (Regular b) \<Longrightarrow> answers fs = [] \<Longrightarrow> length b \<le> limit \<Longrightarrow> readRegular p limit fs = (Inr b, fs)"
  by (simp add: readRegular_def io_bind_def get_node_def io_return_def)

lemma make_dir_effect:
  assumes "make_dir p fs = (x, fs1)"
  shows "nodes fs1 q = nodes fs q \<or> q = p \<and> nodes fs p = None \<and> nodes fs1 p = Some Directory"
proof (cases x)
  case (Inl e)
  with assms show ?thesis
    by (auto simp: make_dir_def io_bind_Inl split: if_splits dest!: call_nodes)
next
  case (Inr u)
  with assms show ?thesis
    by (auto simp: make_dir_def io_bind_Inr split: if_splits dest!: call_nodes)
qed

lemma join_part_length: "length p \<le> length (foldl join_part p parts)"
proof (induction parts arbitrary: p)
  case (Cons part parts)
  have "length p \<le> length (join_part p part)" by (simp add: join_part_def)
  also have "\<dots> \<le> length (foldl join_part (join_part p part) parts)" by (rule Cons.IH)
  finally show ?case by simp
qed simp

text \<open>Only missing directories come into being, on the way to the last part.\<close>

definition made_only :: "path \<Rightarrow> files \<Rightarrow> files \<Rightarrow> path \<Rightarrow> bool" where
  "made_only dir fs fs1 q \<longleftrightarrow>
     nodes fs1 q = nodes fs q \<or> nodes fs q = None \<and> nodes fs1 q = Some Directory \<and> length q \<le> length dir"

lemma make_parts_effect:
  "make_parts p parts fs = (x, fs1) \<Longrightarrow> made_only (foldl join_part p parts) fs fs1 q"
proof (induction parts arbitrary: p fs)
  case Nil
  then show ?case by (simp add: made_only_def)
next
  case (Cons part parts)
  show ?case
  proof (cases "safe_part part")
    case False
    with Cons.prems show ?thesis by (simp add: made_only_def)
  next
    case True
    let ?p = "join_part p part"
    obtain y fs2 where d: "make_dir ?p fs = (y, fs2)" by fastforce
    have e: "made_only (foldl join_part ?p parts) fs fs2 q"
      using make_dir_effect [OF d, of q] join_part_length [of ?p parts] by (auto simp: made_only_def)
    show ?thesis
    proof (cases y)
      case (Inl err)
      with Cons.prems True d have "fs1 = fs2" by (simp add: io_bind_def)
      with e show ?thesis by simp
    next
      case (Inr u)
      obtain z fs3 where c: "call ErrPublish (\<lambda>fs. nodes fs ?p = Some Directory) fs2 = (z, fs3)" by fastforce
      note n = call_nodes [OF c]
      show ?thesis
      proof (cases z)
        case (Inl err)
        with Cons.prems True d Inr c have "fs1 = fs3" by (simp add: io_bind_def)
        with e n show ?thesis by (simp add: made_only_def)
      next
        case (Inr v)
        with Cons.prems True d \<open>y = Inr u\<close> c have "make_parts ?p parts fs3 = (x, fs1)" by (simp add: io_bind_def)
        from Cons.IH [OF this] e n show ?thesis by (auto simp: made_only_def)
      qed
    qed
  qed
qed

lemma isolatedDirectory_effect:
  assumes "isolatedDirectory base parts fs = (x, fs1)"
  shows "made_only (foldl join_part base parts) fs fs1 q"
proof (cases "call ErrPublish (\<lambda>fs. nodes fs base = Some Directory) fs")
  case (Pair y fs2)
  note n = call_nodes [OF Pair]
  show ?thesis
  proof (cases y)
    case (Inl e)
    with assms Pair n show ?thesis by (simp add: isolatedDirectory_def io_bind_def made_only_def)
  next
    case (Inr u)
    with assms Pair have "make_parts base parts fs2 = (x, fs1)" by (simp add: isolatedDirectory_def io_bind_def)
    from make_parts_effect [OF this, of q] n show ?thesis by (simp add: made_only_def)
  qed
qed

lemma make_parts_path: "make_parts p parts fs = (Inr q, fs1) \<Longrightarrow> q = foldl join_part p parts"
  by (induction parts arbitrary: p fs) (auto simp: io_bind_Inr split: if_splits)

lemma isolatedDirectory_path: "isolatedDirectory base parts fs = (Inr q, fs1) \<Longrightarrow> q = foldl join_part base parts"
  by (auto simp: isolatedDirectory_def io_bind_Inr dest: make_parts_path)

end
