(* ===== verification/Calendar_Zone.thy ===== *)
theory Calendar_Zone
  imports Calendar
begin

text \<open>
  Clock readings of a local zone: \<^verbatim>\<open>time.Time.MarshalJSON\<close> prints the local date and time with the
  nanoseconds and the offset of the zone. Zones have whole minutes. Parsing the text gives the instant back.
\<close>

definition zone_text :: "int \<Rightarrow> string" where
  "zone_text z =
     (if z = 0 then ''Z''
      else (if z < 0 then CHR ''-'' else CHR ''+'') # dec2 (nat \<bar>z\<bar> div 60) @ '':'' @ dec2 (nat \<bar>z\<bar> mod 60))"

definition rfc3339_in :: "int \<Rightarrow> time \<Rightarrow> string" where
  "rfc3339_in z t = butlast (rfc3339 (t + minutes z)) @ zone_text z"

section \<open>Fractions of a second\<close>

definition nine_digits :: "nat \<Rightarrow> string" where
  "nine_digits n = map (\<lambda>k. char_of (48 + (n div 10 ^ (8 - k)) mod 10)) [0..<9]"

lemma nine_digits_length [simp]: "length (nine_digits n) = 9"
  by (simp add: nine_digits_def)

lemma nine_digits_digits: "list_all digit (nine_digits n)"
proof -
  have "digit (char_of (48 + k mod 10))" for k :: nat
  proof -
    have "48 + k mod 10 < 256" "k mod 10 < 10" by simp_all
    then show ?thesis unfolding digit_def by simp
  qed
  then show ?thesis by (simp add: nine_digits_def list_all_iff del: upt_rec_numeral)
qed

lemma digit_value_char: "digit_value (char_of (48 + k mod 10)) = k mod 10" for k :: nat
proof -
  have "48 + k mod 10 < 256" by simp
  then show ?thesis unfolding digit_value_def by simp
qed

lemma shift_digit: "10 * (n div (10 * k)) + n div k mod 10 = n div k" for n k :: nat
proof -
  have "n div (10 * k) = n div k div 10" by (simp add: div_mult2_eq mult.commute)
  then show ?thesis by simp
qed

lemma nine_digits_value:
  assumes "n < 1000000000"
  shows "read_dec (nine_digits n) = Some n"
proof -
  have up: "[0..<9] = [0::nat, 1, 2, 3, 4, 5, 6, 7, 8]" by (simp add: upt_conv_Cons)
  have "nine_digits n =
    [char_of (48 + n div 100000000 mod 10), char_of (48 + n div 10000000 mod 10), char_of (48 + n div 1000000 mod 10),
     char_of (48 + n div 100000 mod 10), char_of (48 + n div 10000 mod 10), char_of (48 + n div 1000 mod 10),
     char_of (48 + n div 100 mod 10), char_of (48 + n div 10 mod 10), char_of (48 + n mod 10)]"
    unfolding nine_digits_def up by simp
  then have "foldl (\<lambda>m c. 10 * m + digit_value c) 0 (nine_digits n) =
      10 * (10 * (10 * (10 * (10 * (10 * (10 * (10 * (n div 100000000 mod 10) + n div 10000000 mod 10) + n div 1000000 mod 10)
      + n div 100000 mod 10) + n div 10000 mod 10) + n div 1000 mod 10) + n div 100 mod 10) + n div 10 mod 10) + n mod 10"
    by (simp only: foldl.simps digit_value_char mult_0_right add_0)
  also have "\<dots> = n"
  proof -
    have "n div 100000000 mod 10 = n div 100000000" using assms by simp
    then show ?thesis using shift_digit [of n 10000000] shift_digit [of n 1000000] shift_digit [of n 100000] shift_digit [of n 10000]
      shift_digit [of n 1000] shift_digit [of n 100] shift_digit [of n 10] shift_digit [of n 1]
      by simp
  qed
  finally have "foldl (\<lambda>m c. 10 * m + digit_value c) 0 (nine_digits n) = n" .
  then show ?thesis using nine_digits_digits by (simp add: read_dec_def)
qed

lemma fraction_nine:
  "fraction n = (if n = 0 then [] else CHR ''.'' # rev (dropWhile (\<lambda>c. c = CHR ''0'') (rev (nine_digits n))))"
  by (simp add: fraction_def nine_digits_def)

text \<open>The zeros that are cut are put back by the padding.\<close>

lemma cut_zeros:
  assumes "length ds = 9"
  shows "take 9 (rev (dropWhile (\<lambda>c. c = CHR ''0'') (rev ds)) @ replicate 9 (CHR ''0'')) = ds"
proof -
  let ?z = "\<lambda>c. c = CHR ''0''"
  have t: "takeWhile ?z (rev ds) = replicate (length (takeWhile ?z (rev ds))) (CHR ''0'')"
    by (rule replicate_eqI [symmetric, THEN sym]) (auto dest: set_takeWhileD)
  have "ds = rev (dropWhile ?z (rev ds)) @ rev (takeWhile ?z (rev ds))"
    by (metis rev_append rev_rev_ident takeWhile_dropWhile_id)
  then have d: "ds = rev (dropWhile ?z (rev ds)) @ replicate (length (takeWhile ?z (rev ds))) (CHR ''0'')"
    by (metis t rev_replicate)
  have n: "length (rev (dropWhile ?z (rev ds))) + length (takeWhile ?z (rev ds)) = 9"
    using assms d by (metis length_append length_replicate)
  then have "take 9 (rev (dropWhile ?z (rev ds)) @ replicate 9 (CHR ''0'')) =
      rev (dropWhile ?z (rev ds)) @ replicate (length (takeWhile ?z (rev ds))) (CHR ''0'')"
    by (simp add: min_def)
  with d show ?thesis by simp
qed

lemma nine_digits_nonzero:
  assumes "0 < n" "n < 1000000000"
  shows "dropWhile (\<lambda>c. c = CHR ''0'') (rev (nine_digits n)) \<noteq> []"
proof
  assume "dropWhile (\<lambda>c. c = CHR ''0'') (rev (nine_digits n)) = []"
  with cut_zeros [OF nine_digits_length, of n] have "replicate 9 (CHR ''0'') = nine_digits n" by simp
  then have "read_dec (replicate 9 (CHR ''0'')) = Some n" using nine_digits_value [OF assms(2)] by simp
  moreover have "read_dec (replicate 9 (CHR ''0'')) = Some 0"
    by (simp add: read_dec_def digit_def digit_value_def numeral_eq_Suc)
  ultimately show False using assms(1) by simp
qed

lemma read_fraction_text:
  assumes "n < 1000000000" "s = [] \<or> \<not> digit (hd s)" "s = [] \<or> hd s \<noteq> CHR ''.''"
  shows "read_fraction (fraction n @ s) = (int n, s)"
proof (cases "n = 0")
  case True
  with assms(3) show ?thesis by (cases s) (auto simp: fraction_def read_fraction_def)
next
  case False
  let ?ds = "rev (dropWhile (\<lambda>c. c = CHR ''0'') (rev (nine_digits n)))"
  have ne: "?ds \<noteq> []" using nine_digits_nonzero [OF _ assms(1)] False by simp
  have dig: "\<forall>c\<in>set ?ds. digit c"
    using nine_digits_digits [of n] by (auto simp: list_all_iff dest: set_dropWhileD)
  then have tk: "takeWhile digit (?ds @ s) = ?ds" "dropWhile digit (?ds @ s) = s"
    using assms(2) by (cases s; simp add: takeWhile_append dropWhile_append)+
  have "digit (hd (?ds @ s))" using ne dig by (cases ?ds) auto
  with ne tk cut_zeros [OF nine_digits_length, of n] nine_digits_value [OF assms(1)] False show ?thesis
    by (simp add: fraction_nine read_fraction_def Let_def)
qed

section \<open>The round trip\<close>

lemma read_zone_text:
  assumes "\<bar>z\<bar> < 1440"
  shows "read_zone (zone_text z) = Some (60 * z)"
proof -
  define h m where "h = nat \<bar>z\<bar> div 60" and "m = nat \<bar>z\<bar> mod 60"
  have n: "h < 100" "h \<le> 23" "m < 100" "m \<le> 59" using assms by (auto simp: h_def m_def)
  have i: "int h * 3600 + int m * 60 = 60 * \<bar>z\<bar>"
    by (simp add: h_def m_def zdiv_int zmod_int minus_div_mult_eq_mod [symmetric])
  have t: "zone_text z = (if z = 0 then ''Z'' else (if z < 0 then CHR ''-'' else CHR ''+'') # dec2 h @ CHR '':'' # dec2 m)"
    by (simp add: zone_text_def h_def m_def)
  show ?thesis
    using i unfolding t
    by (cases "z = 0"; cases "z < 0")
      (simp_all add: read_zone_def read_field_dec2 n read_field_dec2 [where r = "[]", simplified])
qed

lemma rfc3339_nanos:
  assumes "n < 1000000000"
  shows "rfc3339 (seconds s + int n) = butlast (rfc3339 (seconds s)) @ fraction n @ ''Z''"
  using assms
  by (simp add: rfc3339_def seconds_def Let_def fraction_def [of 0] butlast_append split: prod.splits)

lemma rfc3339_in_roundtrip:
  assumes "\<bar>z\<bar> < 1440" "0 \<le> t + minutes z" "t + minutes z < seconds 253402300800"
  shows "parse_rfc3339 (rfc3339_in z t) = Some t"
proof -
  define s n where "s = (t + minutes z) div 1000000000" and "n = nat ((t + minutes z) mod 1000000000)"
  have sn: "t + minutes z = seconds s + int n" "n < 1000000000"
    by (simp_all add: s_def n_def seconds_def nat_less_iff)
  have "0 \<le> s" using assms(2) by (simp add: s_def)
  moreover have "s \<le> 253402300799" using assms(3) by (simp add: s_def seconds_def)
  ultimately obtain Y m x sec where print:
    "rfc3339 (seconds s) = dec4 (Suc Y) @ CHR ''-'' # dec2 (Suc m) @ CHR ''-'' # dec2 (Suc x) @ CHR ''T'' #
      dec2 (sec div 3600) @ CHR '':'' # dec2 (sec div 60 mod 60) @ CHR '':'' # dec2 (sec mod 60) @ ''Z''"
    and bounds: "Suc Y < 10000" "m < 12" "x < month_lengths (leap_year (Suc Y)) ! m" "Suc x \<le> 31"
      "sec div 3600 < 24" "sec div 60 mod 60 < 60" "sec mod 60 < 60"
    and unix: "unix_of (Suc Y) (Suc m) (Suc x) sec = s"
    by (rule rfc3339_fields)
  have sec: "3600 * (sec div 3600) + 60 * (sec div 60 mod 60) + sec mod 60 = sec"
  proof -
    have "sec = 60 * (sec div 60) + sec mod 60" and "sec div 60 = 60 * (sec div 60 div 60) + sec div 60 mod 60" by simp_all
    moreover have "sec div 60 div 60 = sec div 3600" by (simp add: div_mult2_eq [symmetric])
    ultimately show ?thesis by linarith
  qed
  have "rfc3339_in z t = butlast (rfc3339 (seconds s)) @ fraction n @ zone_text z"
    using sn rfc3339_nanos [OF sn(2), of s] by (simp add: rfc3339_in_def butlast_append)
  then have printed: "rfc3339_in z t = dec4 (Suc Y) @ CHR ''-'' # dec2 (Suc m) @ CHR ''-'' # dec2 (Suc x) @ CHR ''T'' #
      dec2 (sec div 3600) @ CHR '':'' # dec2 (sec div 60 mod 60) @ CHR '':'' # dec2 (sec mod 60) @ fraction n @ zone_text z"
    by (simp add: print butlast_append)
  have f: "read_fraction (fraction n @ zone_text z) = (int n, zone_text z)"
    by (rule read_fraction_text [OF sn(2)]) (auto simp: zone_text_def digit_def)
  have "(s - 60 * z) * 1000000000 + int n = t"
    using sn(1) by (simp add: seconds_def minutes_def algebra_simps)
  with unix sec show ?thesis
    unfolding parse_rfc3339_def printed using bounds
    by (simp add: read_field_dec2 read_field_dec4 f read_zone_text [OF assms(1)])
qed

lemma ascii_rfc3339_in:
  assumes "\<bar>z\<bar> < 1440" "0 \<le> t + minutes z" "t + minutes z < seconds 253402300800"
  shows "ascii (rfc3339_in z t)"
proof -
  define s n where "s = (t + minutes z) div 1000000000" and "n = nat ((t + minutes z) mod 1000000000)"
  have sn: "t + minutes z = seconds s + int n" "n < 1000000000"
    by (simp_all add: s_def n_def seconds_def nat_less_iff)
  have "0 \<le> s" using assms(2) by (simp add: s_def)
  moreover have "s \<le> 253402300799" using assms(3) by (simp add: s_def seconds_def)
  ultimately have a: "ascii (rfc3339 (seconds s))" by (rule ascii_rfc3339)
  have d: "ascii (nine_digits n)"
    using nine_digits_digits [of n] by (auto simp: ascii_def list_all_iff digit_def)
  have "ascii (fraction n)"
    using d by (auto simp: fraction_nine ascii_def list_all_iff dest: set_dropWhileD)
  moreover have "ascii (butlast (rfc3339 (seconds s)))"
    using a by (auto simp: ascii_def list_all_iff dest: in_set_butlastD)
  moreover have "ascii (zone_text z)"
  proof -
    have "nat \<bar>z\<bar> div 60 < 100" "nat \<bar>z\<bar> mod 60 < 100" using assms(1) by auto
    from this [THEN ascii_dec2] show ?thesis by (simp add: zone_text_def)
  qed
  ultimately show ?thesis
    using sn rfc3339_nanos [OF sn(2), of s] by (simp add: rfc3339_in_def butlast_append)
qed

end
