(* ===== verification/Origin_Json.thy ===== *)
theory Origin_Json
  imports Checkpoint Json_Print
begin

text \<open>
  The identity of a conversation as a member of a larger document: printing and lenient decoding, which skips
  members of other names. Printing and reading it back gives the identity.
\<close>

definition origin_json :: "origin \<Rightarrow> json" where
  "origin_json r =
     JObj [(''project'', JStr (Project r)), (''worktree'', JStr (Worktree r)), (''branch'', JStr (Branch r)),
           (''session'', JStr (Session r))]"

text \<open>Members of other names are skipped, a repeated member is decoded over the last.\<close>

definition known :: "string list \<Rightarrow> (string \<times> json) list \<Rightarrow> (string \<times> json) list" where
  "known names ms = filter (\<lambda>(k, v). list_ex (\<lambda>n. field_match n k) names) ms"

definition read_origin :: "origin \<Rightarrow> json \<Rightarrow> origin option" where
  "read_origin r j =
     (case j of JNull \<Rightarrow> Some r
      | JObj ms \<Rightarrow> decode_origin_members r (known [''project'', ''worktree'', ''branch'', ''session''] ms)
      | _ \<Rightarrow> None)"

lemma origin_keys:
  "field_match ''project'' ''project''" "\<not> field_match ''project'' ''worktree''" "\<not> field_match ''project'' ''branch''"
  "\<not> field_match ''project'' ''session''" "field_match ''worktree'' ''worktree''" "\<not> field_match ''worktree'' ''branch''"
  "\<not> field_match ''worktree'' ''session''" "field_match ''branch'' ''branch''" "\<not> field_match ''branch'' ''session''"
  "field_match ''session'' ''session''"
  by (simp_all add: field_match_def)

lemma read_origin_json: "read_origin r0 (origin_json r) = Some r"
  by (cases r) (simp add: read_origin_def origin_json_def known_def origin_keys)

end
