(* ===== verification/Wiki_Props.thy ===== *)
theory Wiki_Props
  imports Wiki_Draft Checkpoint_Props
begin

text \<open>
  The Wiki on disk: whatever happens, the published file of a conversation is what it was or a document that
  passes \<open>CheckBytes\<close>, and a snapshot that was pinned for a handoff is read back unchanged.
\<close>

section \<open>Publication\<close>

definition published_path :: "path \<Rightarrow> origin \<Rightarrow> path" where
  "published_path project o1 = foldl join_part project (published_parts o1) @ [''checkpoint.md'']"

text \<open>The published file is untouched or holds exactly the bytes \<open>b\<close>.\<close>

lemma publishSnapshot_effect:
  assumes "publishSnapshot project sn fs = (x, fs1)"
  shows "let p = published_path project (Origin (Metadata sn)) in
    nodes fs1 p = Some (Regular (Markdown sn)) \<or> isl x \<and> nodes fs1 p = nodes fs p"
proof -
  let ?parts = "published_parts (Origin (Metadata sn))" and ?p = "published_path project (Origin (Metadata sn))"
  obtain y fs2 where d: "isolatedDirectory project ?parts fs = (y, fs2)" by fastforce
  have n: "nodes fs2 ?p = nodes fs ?p"
    using isolatedDirectory_effect [OF d, of ?p] by (auto simp: made_only_def published_path_def)
  show ?thesis
  proof (cases y)
    case (Inl e)
    with assms d n show ?thesis by (auto simp: publishSnapshot_def io_bind_def)
  next
    case (Inr dir)
    then have dir: "dir = foldl join_part project ?parts" using isolatedDirectory_path d by blast
    from assms d Inr have "writeAtomic dir ''checkpoint.md'' (Markdown sn) fs2 = (x, fs1)"
      by (simp add: publishSnapshot_def io_bind_def)
    from writeAtomic_target [OF this] n show ?thesis by (simp add: dir published_path_def Let_def)
  qed
qed

lemma staged_nodes: "staged_file p fs = (v, fs1) \<Longrightarrow> nodes fs1 = nodes fs"
  by (auto simp: staged_file_def dest!: call_nodes ask_nodes split: prod.splits sum.splits)

lemma CheckBytes_metadata: "CheckBytes b m t = Inr s \<Longrightarrow> Metadata s = m \<and> Markdown s = b"
  by (auto simp: CheckBytes_def split: if_splits option.splits)

text \<open>A request that was created for an identity and ran: what validates passes \<open>CheckBytes\<close> for it.\<close>

lemma validated_snapshot:
  assumes "new_request opened rnd o1 = Inr r0" "request_run r0 r" "Validate t1 t2 t3 v r = (Inr sn, r1)"
  shows "CheckBytes (Markdown sn) \<lparr>ID = rnd, Origin = o1\<rparr> (ValidatedAt sn) = Inr sn"
proof -
  have inv: "request_inv r" "meta r = meta r0"
    using request_run_inv [OF assms(2) new_request_inv [OF assms(1)]] by auto
  have "checked (meta r) sn"
    using check_step [OF assms(3) [unfolded Validate_def] inv(1)] by auto
  moreover have "meta r0 = \<lparr>ID = rnd, Origin = o1\<rparr>" using assms(1) by (auto simp: new_request_def split: if_splits)
  ultimately show ?thesis using inv(2) by (auto simp: checked_def)
qed

text \<open>C15: The published Wiki of a conversation is never half written. Whatever the file system answers and
  wherever publication stops, the file is what it was or exactly a document that passes \<open>CheckBytes\<close> for the
  identifier and origin the request was created for; success means the latter.\<close>

theorem published_file_valid:
  assumes "new_request opened rnd o1 = Inr r0" and "request_run r0 (dRequest d)"
    and "Publish project t1 t2 t3 d fs = ((x, d1), fs1)"
    and "dDirectory d @ [''checkpoint.md''] \<noteq> published_path project o1"
  shows "isl x \<and> nodes fs1 (published_path project o1) = nodes fs (published_path project o1)
    \<or> (\<exists>sn. CheckBytes (Markdown sn) \<lparr>ID = rnd, Origin = o1\<rparr> (ValidatedAt sn) = Inr sn \<and> (isl x \<or> x = Inr sn)
         \<and> nodes fs1 (published_path project o1) = Some (Regular (Markdown sn)))"
proof -
  let ?p = "published_path project o1"
  obtain y fs2 where w: "writeAtomic (dDirectory d) ''checkpoint.md'' (dBuffer d) fs = (y, fs2)" by fastforce
  have n2: "nodes fs2 ?p = nodes fs ?p"
    by (rule touchesD [OF writeAtomic_touches _ w]) (use assms(4) in auto)
  obtain v fs3 where st: "staged_file (dDirectory d @ [''checkpoint.md'']) fs2 = (v, fs3)" by fastforce
  obtain z r where va: "Validate t1 t2 t3 v (dRequest d) = (z, r)" by fastforce
  note n3 = staged_nodes [OF st]
  show ?thesis
  proof (cases "dFailed d \<or> isl y \<or> isl z")
    case True
    then show ?thesis using assms(3) w st va n2 n3
      by (auto simp: Publish_def split: if_splits sum.splits prod.splits)
  next
    case False
    then obtain u sn where "y = Inr u" and z: "z = Inr sn" by (cases y; cases z) auto
    obtain q fs4 where pu: "publishSnapshot project sn fs3 = (q, fs4)" by fastforce
    have ck: "CheckBytes (Markdown sn) \<lparr>ID = rnd, Origin = o1\<rparr> (ValidatedAt sn) = Inr sn"
      using validated_snapshot [OF assms(1,2)] va z by blast
    then have o: "Origin (Metadata sn) = o1" using CheckBytes_metadata by fastforce
    have "x = (case q of Inl e \<Rightarrow> Inl e | Inr _ \<Rightarrow> Inr sn)" "fs1 = fs4"
      using assms(3) False w st va pu z \<open>y = Inr u\<close> by (auto simp: Publish_def split: sum.splits)
    with publishSnapshot_effect [OF pu] ck n2 n3 show ?thesis
      by (auto simp: Let_def o split: sum.splits)
  qed
qed

section \<open>Reading a document back\<close>

lemma snapshot_keys:
  "field_match ''Metadata'' ''Metadata''" "\<not> field_match ''Metadata'' ''Markdown''" "\<not> field_match ''Metadata'' ''SHA256''"
  "\<not> field_match ''Metadata'' ''ValidatedAt''" "field_match ''Markdown'' ''Markdown''" "\<not> field_match ''Markdown'' ''SHA256''"
  "\<not> field_match ''Markdown'' ''ValidatedAt''" "field_match ''SHA256'' ''SHA256''" "\<not> field_match ''SHA256'' ''ValidatedAt''"
  "field_match ''ValidatedAt'' ''ValidatedAt''"
  by (simp_all add: field_match_def)

lemma metadata_keys:
  "field_match ''checkpoint_id'' ''checkpoint_id''" "\<not> field_match ''checkpoint_id'' ''origin''" "field_match ''origin'' ''origin''"
  by (simp_all add: field_match_def)

lemma read_metadata_json: "read_metadata m0 (metadata_json m) = Some m"
  by (cases m) (simp add: read_metadata_def metadata_json_def metadata_keys read_origin_json)

definition clock_ok :: "int \<Rightarrow> time \<Rightarrow> bool" where
  "clock_ok z t \<longleftrightarrow> \<bar>z\<bar> < 1440 \<and> 0 \<le> t + minutes z \<and> t + minutes z < seconds 253402300800"

lemma clock_not_zero: "clock_ok z t \<Longrightarrow> t \<noteq> zero_time"
  by (auto simp: clock_ok_def time_unit_defs)

lemma read_stamp_text: "clock_ok z t \<Longrightarrow> read_stamp t0 (JStr (stamp_text z t)) = Some t"
  using clock_not_zero [of z t] rfc3339_in_roundtrip [of z t] by (simp add: stamp_text_def clock_ok_def)

lemma read_snapshot_json:
  assumes "clock_ok z (ValidatedAt sn)"
  shows "read_snapshot (snapshot_json z sn) = Some sn"
  using read_stamp_text [OF assms]
  by (cases sn) (simp add: read_snapshot_def snapshot_json_def snapshot_keys read_metadata_json)

text \<open>Metadata whose members are text and short enough for the read limit of a pin.\<close>

definition metadata_text :: "metadata \<Rightarrow> bool" where
  "metadata_text m \<longleftrightarrow> list_all utf8_valid [ID m, Project (Origin m), Worktree (Origin m), Branch (Origin m), Session (Origin m)]
     \<and> length (ID m) + length (Project (Origin m)) + length (Worktree (Origin m)) + length (Branch (Origin m))
       + length (Session (Origin m)) \<le> 1000"

lemma CheckBytes_text:
  "CheckBytes b m t = Inr s \<Longrightarrow> utf8_valid b \<and> length b \<le> MaxBytes \<and> SHA256 s = sha256_hex b"
  by (auto simp: CheckBytes_def validate_def split: if_splits option.splits)

lemma own_digestD:
  "own_digest sn now \<Longrightarrow> utf8_valid (Markdown sn) \<and> length (Markdown sn) \<le> MaxBytes \<and> SHA256 sn = sha256_hex (Markdown sn)"
  using CheckBytes_text by (auto simp: own_digest_def split: sum.splits)

section \<open>Pins\<close>

lemma length_fraction: "length (fraction n) \<le> 10"
proof -
  have "length (dropWhile (\<lambda>c. c = CHR ''0'') (rev (nine_digits n))) \<le> 9"
    using length_dropWhile_le [of _ "rev (nine_digits n)"] by simp
  then show ?thesis by (simp add: fraction_nine)
qed

lemma length_stamp: "clock_ok z t \<Longrightarrow> length (stamp_text z t) \<le> 36"
proof -
  assume "clock_ok z t"
  then have s: "stamp_text z t = rfc3339_in z t" using clock_not_zero by (simp add: stamp_text_def)
  have d: "length (dec2 n) = 2" "length (dec4 n) = 4" for n by (simp_all add: dec2_def dec4_def)
  have "length (rfc3339 u) \<le> 30" for u
    using length_fraction by (simp add: rfc3339_def Let_def d split_beta)
  then have "length (butlast (rfc3339 (t + minutes z))) \<le> 30" by (metis diff_le_self le_trans length_butlast)
  then have "length (rfc3339_in z t) \<le> 30 + length (zone_text z)" by (simp add: rfc3339_in_def)
  moreover have "length (zone_text z) \<le> 6" by (simp add: zone_text_def d)
  ultimately show ?thesis using s by simp
qed

lemma stamp_ascii: "clock_ok z t \<Longrightarrow> ascii (stamp_text z t)"
  using clock_not_zero [of z t] ascii_rfc3339_in [of z t] by (simp add: stamp_text_def clock_ok_def)

lemma hex_ascii: "hex_of_len n s \<Longrightarrow> ascii s"
  by (auto simp: hex_of_len_def ascii_def list_all_iff lower_hex_def)

lemma snapshot_printable:
  assumes "own_digest sn now" "metadata_text (Metadata sn)" "clock_ok z (ValidatedAt sn)"
  shows "printable 3 (snapshot_json z sn)"
  using own_digestD [OF assms(1)] assms(2) stamp_ascii [OF assms(3)] hex_ascii [OF sha256_hex_form, of "Markdown sn"]
  by (simp add: snapshot_json_def metadata_json_def origin_json_def metadata_text_def)

lemma snapshot_length:
  assumes "own_digest sn now" "metadata_text (Metadata sn)" "clock_ok z (ValidatedAt sn)"
  shows "length (json_print (snapshot_json z sn)) \<le> pin_limit"
proof -
  have h: "length (SHA256 sn) = 64" using own_digestD [OF assms(1)] sha256_hex_form [of "Markdown sn"] by (simp add: hex_of_len_def)
  note q = length_json_quote
  have k: "length (json_quote ''Metadata'') \<le> 50" "length (json_quote ''checkpoint_id'') \<le> 80" "length (json_quote ''origin'') \<le> 38"
    "length (json_quote ''project'') \<le> 44" "length (json_quote ''worktree'') \<le> 50" "length (json_quote ''branch'') \<le> 38"
    "length (json_quote ''session'') \<le> 44" "length (json_quote ''Markdown'') \<le> 50" "length (json_quote ''SHA256'') \<le> 38"
    "length (json_quote ''ValidatedAt'') \<le> 68"
    using q [of "''Metadata''"] q [of "''checkpoint_id''"] q [of "''origin''"] q [of "''project''"] q [of "''worktree''"]
      q [of "''branch''"] q [of "''session''"] q [of "''Markdown''"] q [of "''SHA256''"] q [of "''ValidatedAt''"] by simp_all
  show ?thesis
    using k q [of "Markdown sn"] q [of "SHA256 sn"] q [of "stamp_text z (ValidatedAt sn)"] q [of "ID (Metadata sn)"]
      q [of "Project (Origin (Metadata sn))"] q [of "Worktree (Origin (Metadata sn))"] q [of "Branch (Origin (Metadata sn))"]
      q [of "Session (Origin (Metadata sn))"] h length_stamp [OF assms(3)] own_digestD [OF assms(1)] assms(2)
    by (simp add: snapshot_json_def metadata_json_def origin_json_def commas_def metadata_text_def)
qed

lemma pin_readable:
  assumes "own_digest sn now" "metadata_text (Metadata sn)" "clock_ok z (ValidatedAt sn)"
  shows "Option.bind (json_parse (json_print (snapshot_json z sn))) read_snapshot = Some sn"
  using json_print_parse [OF snapshot_printable [OF assms]] read_snapshot_json [OF assms(3)] by (simp add: max_depth_def)

lemma own_digest_time: "own_digest sn now \<Longrightarrow> own_digest sn t"
  by (auto simp: own_digest_def CheckBytes_def split: sum.splits if_splits option.splits)

definition pin_path :: "path \<Rightarrow> snapshot \<Rightarrow> path" where
  "pin_path base sn = base @ [''handoff-snapshots'', SHA256 sn @ ''.json'']"

text \<open>A pin that is not there yet is written with exactly the document of the snapshot.\<close>

lemma Pin_writes:
  assumes "Pin base z sn now fs = (Inr (), fs1)" "nodes fs (pin_path base sn) = None"
  shows "own_digest sn now \<and> nodes fs1 (pin_path base sn) = Some (Regular (json_print (snapshot_json z sn)))"
proof -
  have own: "own_digest sn now" using assms(1) by (auto simp: Pin_def split: if_splits)
  obtain dir fs2 ex fs3 where d: "isolatedDirectory base [''handoff-snapshots''] fs = (Inr dir, fs2)"
    and l: "lstat_exists (dir @ [SHA256 sn @ ''.json'']) fs2 = (Inr ex, fs3)"
    and rest: "(if ex then io_bind (ReadPin base (pin_reservation sn) now) (\<lambda>_. io_return ())
          else writeAtomic dir (SHA256 sn @ ''.json'') (json_print (snapshot_json z sn))) fs3 = (Inr (), fs1)"
    using assms(1) own by (auto simp: Pin_def io_bind_Inr)
  have dir: "dir = base @ [''handoff-snapshots'']"
    using isolatedDirectory_path [OF d] by (simp add: join_part_def)
  have "nodes fs2 (pin_path base sn) = None"
    using isolatedDirectory_effect [OF d, of "pin_path base sn"] assms(2)
    by (auto simp: made_only_def pin_path_def join_part_def)
  then have "\<not> ex" using l by (auto simp: lstat_exists_def io_bind_Inr dir pin_path_def dest: call_Inr)
  with rest have "writeAtomic dir (SHA256 sn @ ''.json'') (json_print (snapshot_json z sn)) fs3 = (Inr (), fs1)" by simp
  from writeAtomic_target [OF this] own show ?thesis by (simp add: dir pin_path_def)
qed

text \<open>C16: A snapshot that was newly pinned for a handoff is read back unchanged by any reservation that names its
  origin, identifier and digest, however much later and whatever else changed on disk.\<close>

theorem pin_roundtrip:
  assumes "Pin base z sn now fs = (Inr (), fs1)" and "nodes fs (pin_path base sn) = None"
    and "metadata_text (Metadata sn)" "clock_ok z (ValidatedAt sn)"
    and "nodes fs2 (pin_path base sn) = nodes fs1 (pin_path base sn)" "answers fs2 = []"
    and "rSource v = Origin (Metadata sn)" "rCheckpointID v = ID (Metadata sn)" "rDigest v = SHA256 sn"
  shows "ReadPin base v later fs2 = (Inr sn, fs2)"
proof -
  note w = Pin_writes [OF assms(1,2)]
  then have own: "own_digest sn now" ..
  have n: "nodes fs2 (base @ [''handoff-snapshots'', rDigest v @ ''.json'']) = Some (Regular (json_print (snapshot_json z sn)))"
    using w assms(5,9) by (simp add: pin_path_def)
  have "readRegular (base @ [''handoff-snapshots'', rDigest v @ ''.json'']) pin_limit fs2 = (Inr (json_print (snapshot_json z sn)), fs2)"
    by (rule readRegular_calm [OF n assms(6) snapshot_length [OF own assms(3,4)]])
  moreover have "hex_of_len 32 (rDigest v)" using assms(9) own_digestD [OF own] sha256_hex_form by simp
  ultimately show ?thesis
    using pin_readable [OF own assms(3,4)] own_digest_time [OF own, of later] assms(7,8,9)
    by (simp add: ReadPin_def io_bind_def io_return_def)
qed

section \<open>A snapshot on disk\<close>

definition pin_files :: files where
  "pin_files = \<lparr>nodes = [[''base''] \<mapsto> Directory], answers = []\<rparr>"

definition disk_snapshot :: snapshot where
  "disk_snapshot = \<lparr>Metadata = sample_meta, Markdown = sample_file, SHA256 = sha256_hex sample_file, ValidatedAt = 7\<rparr>"

lemma disk_own: "own_digest disk_snapshot now"
  using sample_length sample_valid by (simp add: own_digest_def disk_snapshot_def CheckBytes_def)

lemma disk_pin:
  "Pin [''base''] 0 disk_snapshot 7 pin_files =
    (Inr (), \<lparr>nodes = [[''base''] \<mapsto> Directory, [''base'', ''handoff-snapshots''] \<mapsto> Directory,
        pin_path [''base''] disk_snapshot \<mapsto> Regular (json_print (snapshot_json 0 disk_snapshot))], answers = []\<rparr>)"
  by (simp add: Pin_def disk_own io_bind_def isolatedDirectory_def safe_part_def make_dir_def join_part_def pin_files_def
      get_node_def put_node_def io_return_def lstat_exists_def writeAtomic_def pin_path_def)

theorem pin_roundtrip_witness:
  "\<exists>fs1. Pin [''base''] 0 disk_snapshot 7 pin_files = (Inr (), fs1)
    \<and> ReadPin [''base''] (pin_reservation disk_snapshot) 9 fs1 = (Inr disk_snapshot, fs1)"
proof -
  have m: "metadata_text (Metadata disk_snapshot)"
    by (simp add: metadata_text_def disk_snapshot_def sample_meta_def Checkpoint_Props.sample_origin_def)
  have c: "clock_ok 0 (ValidatedAt disk_snapshot)"
    by (simp add: clock_ok_def disk_snapshot_def time_unit_defs)
  have n: "nodes pin_files (pin_path [''base''] disk_snapshot) = None" by (simp add: pin_files_def pin_path_def)
  show ?thesis
    by (rule exI, rule conjI [OF disk_pin], rule pin_roundtrip [OF disk_pin n m c])
      (simp_all add: pin_reservation_def)
qed

definition written_draft :: draft where
  "written_draft = \<lparr>dBuffer = sample_file, dRequest = snd (MarkSent 0 sample_request), dDirectory = [''home'', ''wiki-draft-t''],
     dHome = [''home''], dFailed = False\<rparr>"

definition draft_files :: files where
  "draft_files = \<lparr>nodes = [[''project''] \<mapsto> Directory, [''home''] \<mapsto> Directory, [''home'', ''wiki-draft-t''] \<mapsto> Directory],
     answers = []\<rparr>"

lemma written_path: "published_path [''project''] sample_origin = [''project'', ''.codex-switcher'', ''w'', ''b'', ''s'', ''checkpoint.md'']"
  by (simp add: published_path_def published_parts_def join_part_def sample_origin_def)

lemma draft_published:
  "fst (fst (Publish [''project''] 1 2 3 written_draft draft_files)) =
    Inr \<lparr>Metadata = sample_meta, Markdown = sample_file, SHA256 = sha256_hex sample_file, ValidatedAt = 3\<rparr>"
proof -
  have o: "published_parts (Origin sample_meta) = [''.codex-switcher'', ''w'', ''b'', ''s'']"
    by (simp add: published_parts_def sample_meta_def sample_origin_def)
  show ?thesis
    by (simp add: o Publish_def written_draft_def draft_files_def writeAtomic_def io_bind_def put_node_def staged_file_def
      Validate_def sample_check publishSnapshot_def isolatedDirectory_def safe_part_def make_dir_def
      join_part_def get_node_def io_return_def)
qed

theorem published_file_valid_witness:
  "nodes (snd (Publish [''project''] 1 2 3 written_draft draft_files)) [''project'', ''.codex-switcher'', ''w'', ''b'', ''s'', ''checkpoint.md''] =
    Some (Regular sample_file)"
proof -
  obtain x d1 fs1 where P: "Publish [''project''] 1 2 3 written_draft draft_files = ((x, d1), fs1)" by (metis prod.exhaust)
  then have x: "x = Inr \<lparr>Metadata = sample_meta, Markdown = sample_file, SHA256 = sha256_hex sample_file, ValidatedAt = 3\<rparr>"
    using draft_published by simp
  have r: "request_run sample_request (dRequest written_draft)"
    using request_run.step [OF request_run.refl request_step.mark_sent, of sample_request 0] by (simp add: written_draft_def)
  have "dDirectory written_draft @ [''checkpoint.md''] \<noteq> published_path [''project''] sample_origin"
    by (simp add: written_path written_draft_def)
  from published_file_valid [OF sample_new r P this] x show ?thesis by (auto simp: P written_path)
qed

end
