(* ===== verification/Cli_Record.thy ===== *)
theory Cli_Record
  imports Files Cli_Session Origin_Json
begin

text \<open>
  Package \<^verbatim>\<open>clirecord\<close>: the private record of a conversation, kept in a directory named by an opaque handle.
  Taking a directory's lock is the creation of missing directories and one system call (its decisions are
  modelled with the account lock); the lock file is not a node. The lemmas show that a record whose run has
  begun cannot be resumed until that run completes, wherever it is interrupted.
\<close>

abbreviation ErrRecord :: go_err where "ErrRecord \<equiv> EOther ''cli_record_unavailable''"

abbreviation ErrVerification :: go_err where "ErrVerification \<equiv> EOther ''cli_record_write_verification_failed''"

section \<open>The document\<close>

record record_data =
  kOrigin :: origin
  kModel :: string
  kReady :: bool

definition record_json :: "record_data \<Rightarrow> json" where
  "record_json k =
     JObj [(''origin'', origin_json (kOrigin k)), (''model'', JStr (kModel k)), (''ready'', JBool (kReady k))]"

text \<open>Lenient decoding over a value: members of other names are skipped.\<close>

fun decode_bool :: "bool \<Rightarrow> json \<Rightarrow> bool option" where
  "decode_bool b JNull = Some b"
| "decode_bool b (JBool c) = Some c"
| "decode_bool b _ = None"

fun record_members :: "record_data \<Rightarrow> (string \<times> json) list \<Rightarrow> record_data option" where
  "record_members k [] = Some k"
| "record_members k ((n, v) # ms) =
     (if field_match ''origin'' n then
        Option.bind (read_origin (kOrigin k) v) (\<lambda>r. record_members (k\<lparr>kOrigin := r\<rparr>) ms)
      else if field_match ''model'' n then
        Option.bind (decode_string (kModel k) v) (\<lambda>s. record_members (k\<lparr>kModel := s\<rparr>) ms)
      else if field_match ''ready'' n then
        Option.bind (decode_bool (kReady k) v) (\<lambda>b. record_members (k\<lparr>kReady := b\<rparr>) ms)
      else record_members k ms)"

definition empty_data :: record_data where
  "empty_data = \<lparr>kOrigin = empty_origin, kModel = [], kReady = False\<rparr>"

definition read_record :: "string \<Rightarrow> record_data option" where
  "read_record b =
     (case json_parse b of
        Some JNull \<Rightarrow> Some empty_data | Some (JObj ms) \<Rightarrow> record_members empty_data ms | _ \<Rightarrow> None)"

section \<open>The record\<close>

record cli_record =
  kHandle :: string
  kHome :: path
  kData :: record_data

definition ValidHandle :: "string \<Rightarrow> bool" where
  "ValidHandle h = hex_of_len 16 h"

definition record_file :: "path \<Rightarrow> path" where
  "record_file home = home @ [''record.json'']"

text \<open>\<^verbatim>\<open>os.MkdirAll\<close>, parents first.\<close>

fun make_all :: "path \<Rightarrow> path \<Rightarrow> unit io" where
  "make_all done [] = io_return ()"
| "make_all done (part # rest) =
     io_bind (get_node (done @ [part])) (\<lambda>n.
       case n of
         Some Directory \<Rightarrow> make_all (done @ [part]) rest
       | Some _ \<Rightarrow> io_fail ErrRecord
       | None \<Rightarrow> io_bind (call ErrRecord (\<lambda>fs. True)) (\<lambda>_.
                 io_bind (put_node (done @ [part]) Directory) (\<lambda>_. make_all (done @ [part]) rest)))"

definition lock_directory :: "path \<Rightarrow> unit io" where
  "lock_directory dir =
     io_bind (make_all [] dir) (\<lambda>_. call ErrRecord (\<lambda>fs. nodes fs dir = Some Directory))"

definition open_record :: "path \<Rightarrow> string \<Rightarrow> cli_record io" where
  "open_record dir handle =
     io_bind (lock_directory dir) (\<lambda>_.
     io_bind (call ErrRecord (\<lambda>fs. nodes fs dir = Some Directory)) (\<lambda>_.
     io_return \<lparr>kHandle = handle, kHome = dir, kData = empty_data\<rparr>))"

text \<open>Reopening the visible file and comparing it with what was written.\<close>

definition verify_record :: "path \<Rightarrow> string \<Rightarrow> unit io" where
  "verify_record p expected =
     io_bind (call ErrVerification (\<lambda>fs. is_regular (nodes fs p))) (\<lambda>_.
     call ErrVerification (\<lambda>fs. take 8193 (file_bytes (nodes fs p)) = expected))"

definition save_record :: "cli_record \<Rightarrow> unit io" where
  "save_record r =
     (let b = json_print (record_json (kData r)); p = record_file (kHome r) in
      io_bind (call ErrRecord (\<lambda>fs. nodes fs (kHome r) = Some Directory)) (\<lambda>_.
      io_bind (calls ErrRecord 3) (\<lambda>_.
      io_bind (call ErrRecord (\<lambda>fs. nodes fs p \<noteq> Some Directory)) (\<lambda>_.
      io_bind (put_node p (Regular b)) (\<lambda>_.
      io_bind (call ErrRecord (\<lambda>fs. True)) (\<lambda>_.
      io_bind (call ErrRecord (\<lambda>fs. True)) (\<lambda>_.
      verify_record p b)))))))"

definition create_record :: "path \<Rightarrow> origin \<Rightarrow> string \<Rightarrow> string \<Rightarrow> cli_record io" where
  "create_record parent o1 model handle =
     (if Project o1 = [] \<or> Worktree o1 = [] \<or> Branch o1 = [] \<or> Session o1 \<noteq> [] then io_fail ErrRecord
      else io_bind (lock_directory parent) (\<lambda>_.
           io_bind (call ErrRecord (\<lambda>fs. True)) (\<lambda>_.
           io_bind (call ErrRecord (\<lambda>fs. nodes fs (parent @ [handle]) = None)) (\<lambda>_.
           io_bind (put_node (parent @ [handle]) Directory) (\<lambda>_.
           io_bind (open_record (parent @ [handle]) handle) (\<lambda>r0.
           let r = r0\<lparr>kData := \<lparr>kOrigin = o1, kModel = model, kReady = False\<rparr>\<rparr>
           in io_bind (save_record r) (\<lambda>_. io_return r)))))))"

definition load_record :: "path \<Rightarrow> string \<Rightarrow> origin \<Rightarrow> bool \<Rightarrow> cli_record io" where
  "load_record parent handle o1 requireReady =
     (if \<not> ValidHandle handle \<or> Session o1 \<noteq> [] then io_fail ErrRecord
      else let dir = parent @ [handle] in
        io_bind (call ErrRecord (\<lambda>fs. nodes fs dir = Some Directory)) (\<lambda>_.
        io_bind (open_record dir handle) (\<lambda>r.
        io_bind (call ErrRecord (\<lambda>fs. is_regular (nodes fs (record_file dir)))) (\<lambda>_.
        io_bind (call ErrRecord (\<lambda>fs. length (file_bytes (nodes fs (record_file dir))) \<le> 8192)) (\<lambda>_.
        io_bind (get_node (record_file dir)) (\<lambda>n.
          case read_record (file_bytes n) of
            None \<Rightarrow> io_fail ErrRecord
          | Some k \<Rightarrow>
              if (kOrigin k)\<lparr>Session := []\<rparr> \<noteq> o1 \<or> requireReady \<and> \<not> kReady k \<or> \<not> validThread (Session (kOrigin k))
              then io_fail ErrRecord
              else io_return (r\<lparr>kData := k\<rparr>)))))))"

definition Load :: "path \<Rightarrow> string \<Rightarrow> origin \<Rightarrow> cli_record io" where
  "Load parent handle o1 = load_record parent handle o1 True"

definition LoadForCheckpoint :: "path \<Rightarrow> string \<Rightarrow> origin \<Rightarrow> cli_record io" where
  "LoadForCheckpoint parent handle o1 = load_record parent handle o1 False"

text \<open>The operations of a running conversation change the record in memory even when saving fails.\<close>

definition save_changed :: "cli_record \<Rightarrow> files \<Rightarrow> (unit res \<times> cli_record) \<times> files" where
  "save_changed r fs = (case save_record r fs of (x, fs1) \<Rightarrow> ((x, r), fs1))"

definition record_Begin :: "cli_record \<Rightarrow> files \<Rightarrow> (unit res \<times> cli_record) \<times> files" where
  "record_Begin r = save_changed (r\<lparr>kData := (kData r)\<lparr>kReady := False\<rparr>\<rparr>)"

definition record_Started :: "string \<Rightarrow> cli_record \<Rightarrow> files \<Rightarrow> (unit res \<times> cli_record) \<times> files" where
  "record_Started thread r fs =
     (if \<not> validThread thread \<or> Session (kOrigin (kData r)) \<noteq> [] \<and> Session (kOrigin (kData r)) \<noteq> thread
      then ((Inl ErrRecord, r), fs)
      else save_changed (r\<lparr>kData := (kData r)\<lparr>kOrigin := (kOrigin (kData r))\<lparr>Session := thread\<rparr>\<rparr>\<rparr>) fs)"

definition record_Complete :: "cli_record \<Rightarrow> files \<Rightarrow> (unit res \<times> cli_record) \<times> files" where
  "record_Complete r fs =
     (if \<not> validThread (Session (kOrigin (kData r))) then ((Inl ErrRecord, r), fs)
      else save_changed (r\<lparr>kData := (kData r)\<lparr>kReady := True\<rparr>\<rparr>) fs)"

section \<open>What is on disk\<close>

lemma record_keys:
  "field_match ''origin'' ''origin''" "\<not> field_match ''origin'' ''model''" "\<not> field_match ''origin'' ''ready''"
  "field_match ''model'' ''model''" "\<not> field_match ''model'' ''ready''" "field_match ''ready'' ''ready''"
  by (simp_all add: field_match_def)

definition data_text :: "record_data \<Rightarrow> bool" where
  "data_text k \<longleftrightarrow> list_all utf8_valid [Project (kOrigin k), Worktree (kOrigin k), Branch (kOrigin k), Session (kOrigin k), kModel k]"

lemma read_record_json:
  assumes "data_text k"
  shows "read_record (json_print (record_json k)) = Some k"
proof -
  have "printable 2 (record_json k)" using assms by (simp add: record_json_def origin_json_def data_text_def)
  then have "json_parse (json_print (record_json k)) = Some (record_json k)"
    by (rule json_print_parse) (simp add: max_depth_def)
  then show ?thesis
    by (cases k) (simp add: read_record_def record_json_def record_keys read_origin_json)
qed

lemma validThread_text: "validThread t \<Longrightarrow> utf8_valid t"
proof -
  assume "validThread t"
  then have l: "length t = 36"
    and u: "list_all (\<lambda>(i, c). if i \<in> {8, 13, 18, 23} then c = CHR ''-'' else lower_hex c) (enumerate 0 t)"
    by (simp_all add: validThread_uuid uuid_def)
  have "byte c < 128" if "c \<in> set t" for c
  proof -
    from that obtain i where i: "i < length t" "c = t ! i" by (auto simp: in_set_conv_nth)
    then have "(i, c) \<in> set (enumerate 0 t)" by (simp add: in_set_enumerate_eq)
    with u have "c = CHR ''-'' \<or> lower_hex c" by (auto simp: list_all_iff split: if_splits)
    then show ?thesis by (auto simp: lower_hex_def)
  qed
  then show ?thesis by (intro ascii_valid) (simp add: ascii_def list_all_iff)
qed

text \<open>Saving changes only the record file, which afterwards is untouched or holds the record.\<close>

lemma save_record_effect:
  assumes "save_record r fs = (x, fs1)"
  shows "nodes fs1 (record_file (kHome r)) = Some (Regular (json_print (record_json (kData r))))
    \<or> isl x \<and> nodes fs1 (record_file (kHome r)) = nodes fs (record_file (kHome r))"
proof (cases x)
  case (Inl e)
  with assms show ?thesis
    by (auto simp: save_record_def verify_record_def Let_def io_bind_Inl dest!: call_nodes calls_nodes)
next
  case (Inr u)
  with assms show ?thesis
    by (auto simp: save_record_def verify_record_def Let_def io_bind_Inr dest!: call_nodes calls_nodes)
qed

text \<open>A file that says the conversation is not ready.\<close>

definition not_ready :: "node option \<Rightarrow> bool" where
  "not_ready n \<longleftrightarrow> (\<exists>b k. n = Some (Regular b) \<and> read_record b = Some k \<and> \<not> kReady k)"

lemma make_all_keeps: "make_all done p fs = (x, fs1) \<Longrightarrow> nodes fs q \<noteq> None \<Longrightarrow> nodes fs1 q = nodes fs q"
proof (induction "done" p arbitrary: fs rule: make_all.induct)
  case (2 "done" part rest)
  show ?case
  proof (cases "nodes fs (done @ [part])")
    case None
    obtain y fs2 where c: "call ErrRecord (\<lambda>fs. True) fs = (y, fs2)" by fastforce
    note n = call_nodes [OF c]
    show ?thesis
    proof (cases y)
      case (Inl e)
      with 2 None c n show ?thesis by (simp add: io_bind_def get_node_def)
    next
      case (Inr u)
      define fs3 where "fs3 = fs2\<lparr>nodes := (nodes fs2)(done @ [part] \<mapsto> Directory)\<rparr>"
      have "make_all (done @ [part]) rest fs3 = (x, fs1)"
        using 2(3) None c Inr by (simp add: io_bind_def get_node_def put_node_def fs3_def)
      moreover have "q \<noteq> done @ [part]" using 2(4) None by auto
      then have "nodes fs3 q = nodes fs q" using n by (simp add: fs3_def)
      ultimately show ?thesis using 2(2) [of fs3] 2(4) None by simp
    qed
  next
    case (Some n)
    with 2 show ?thesis by (cases n) (auto simp: io_bind_def get_node_def io_fail_def)
  qed
qed simp

lemma lock_directory_keeps: "lock_directory dir fs = (x, fs1) \<Longrightarrow> nodes fs q \<noteq> None \<Longrightarrow> nodes fs1 q = nodes fs q"
  by (auto simp: lock_directory_def io_bind_def dest!: make_all_keeps call_nodes split: prod.splits sum.splits)

lemma open_record_keeps: "open_record dir h fs = (x, fs1) \<Longrightarrow> nodes fs q \<noteq> None \<Longrightarrow> nodes fs1 q = nodes fs q"
  by (auto simp: open_record_def io_bind_def io_return_def dest!: lock_directory_keeps call_nodes split: prod.splits sum.splits)

lemma not_ready_refused:
  assumes "not_ready (nodes fs (record_file (parent @ [handle])))"
  shows "isl (fst (Load parent handle o1 fs))"
proof (rule ccontr)
  assume "\<not> ?thesis"
  then obtain r fs1 where L: "load_record parent handle o1 True fs = (Inr r, fs1)"
    unfolding Load_def by (cases "load_record parent handle o1 True fs"; cases "fst (load_record parent handle o1 True fs)") auto
  let ?p = "record_file (parent @ [handle])"
  obtain u1 fs2 r0 fs3 u2 fs4 u3 fs5 k where c: "call ErrRecord (\<lambda>fs. nodes fs (parent @ [handle]) = Some Directory) fs = (Inr u1, fs2)"
      "open_record (parent @ [handle]) handle fs2 = (Inr r0, fs3)"
      "call ErrRecord (\<lambda>fs. is_regular (nodes fs ?p)) fs3 = (Inr u2, fs4)"
      "call ErrRecord (\<lambda>fs. length (file_bytes (nodes fs ?p)) \<le> 8192) fs4 = (Inr u3, fs5)"
      "read_record (file_bytes (nodes fs5 ?p)) = Some k" "kReady k"
    using L by (auto simp: load_record_def Let_def io_bind_Inr split: if_splits option.splits)
  have "nodes fs ?p \<noteq> None" using assms by (auto simp: not_ready_def)
  then have "nodes fs5 ?p = nodes fs ?p"
    using open_record_keeps [OF c(2), of ?p] call_nodes [OF c(1)] call_nodes [OF c(3)] call_nodes [OF c(4)] by simp
  with assms c(5,6) show False by (auto simp: not_ready_def)
qed

section \<open>A run of the record\<close>

datatype record_op = OpBegin | OpStarted string

fun record_step :: "record_op \<Rightarrow> cli_record \<times> files \<Rightarrow> cli_record \<times> files" where
  "record_step OpBegin (r, fs) = (case record_Begin r fs of ((x, r1), fs1) \<Rightarrow> (r1, fs1))"
| "record_step (OpStarted t) (r, fs) = (case record_Started t r fs of ((x, r1), fs1) \<Rightarrow> (r1, fs1))"

lemma save_changed_effect:
  assumes "save_changed r fs = ((x, r1), fs1)" "not_ready (nodes fs (record_file (kHome r)))" "\<not> kReady (kData r)" "data_text (kData r)"
  shows "r1 = r \<and> not_ready (nodes fs1 (record_file (kHome r)))"
proof -
  obtain y fs2 where s: "save_record r fs = (y, fs2)" by fastforce
  then have "r1 = r" "fs1 = fs2" using assms(1) by (auto simp: save_changed_def)
  moreover have "not_ready (Some (Regular (json_print (record_json (kData r)))))"
    using read_record_json [OF assms(4)] assms(3) by (auto simp: not_ready_def)
  ultimately show ?thesis using save_record_effect [OF s] assms(2) by auto
qed

lemma record_step_not_ready:
  assumes "record_step op1 (r, fs) = (r1, fs1)" "not_ready (nodes fs (record_file (kHome r)))" "\<not> kReady (kData r)" "data_text (kData r)"
  shows "kHome r1 = kHome r \<and> not_ready (nodes fs1 (record_file (kHome r1))) \<and> \<not> kReady (kData r1) \<and> data_text (kData r1)"
proof (cases op1)
  case OpBegin
  let ?r = "r\<lparr>kData := (kData r)\<lparr>kReady := False\<rparr>\<rparr>"
  obtain x where "save_changed ?r fs = ((x, r1), fs1)"
    using assms(1) OpBegin by (auto simp: record_Begin_def split: prod.splits)
  from save_changed_effect [OF this] assms show ?thesis by (simp add: data_text_def)
next
  case (OpStarted t)
  obtain x where s: "record_Started t r fs = ((x, r1), fs1)"
    using assms(1) OpStarted by (auto split: prod.splits)
  show ?thesis
  proof (cases "\<not> validThread t \<or> Session (kOrigin (kData r)) \<noteq> [] \<and> Session (kOrigin (kData r)) \<noteq> t")
    case True
    with s assms show ?thesis by (auto simp: record_Started_def)
  next
    case False
    let ?r = "r\<lparr>kData := (kData r)\<lparr>kOrigin := (kOrigin (kData r))\<lparr>Session := t\<rparr>\<rparr>\<rparr>"
    have "save_changed ?r fs = ((x, r1), fs1)" using s unfolding record_Started_def if_not_P [OF False] .
    from save_changed_effect [OF this] False assms validThread_text [of t] show ?thesis by (simp add: data_text_def)
  qed
qed

lemma record_run_not_ready:
  "foldl (\<lambda>s op1. record_step op1 s) (r, fs) ops = (r1, fs1) \<Longrightarrow>
   not_ready (nodes fs (record_file (kHome r))) \<Longrightarrow> \<not> kReady (kData r) \<Longrightarrow> data_text (kData r) \<Longrightarrow>
   not_ready (nodes fs1 (record_file (kHome r)))"
proof (induction ops arbitrary: r fs)
  case (Cons op1 ops)
  obtain r2 fs2 where s: "record_step op1 (r, fs) = (r2, fs2)" by (metis prod.exhaust)
  from record_step_not_ready [OF s Cons.prems(2-4)] Cons.IH [of r2 fs2] Cons.prems(1) s show ?case by auto
qed simp

text \<open>C17: An interrupted run cannot be resumed. Once \<^verbatim>\<open>Begin\<close> has succeeded, any further saves short of
  \<^verbatim>\<open>Complete\<close>, successful or failed at any point, leave a record that \<^verbatim>\<open>Load\<close> refuses, for every origin.\<close>

theorem interrupted_run_not_resumable:
  assumes "record_Begin r fs = ((Inr (), r1), fs1)" and "data_text (kData r)" and "kHome r = parent @ [handle]"
    and "foldl (\<lambda>s op1. record_step op1 s) (r1, fs1) ops = (r2, fs2)"
    and "nodes fs3 (record_file (kHome r)) = nodes fs2 (record_file (kHome r))"
  shows "isl (fst (Load parent handle o1 fs3))"
proof -
  let ?r = "r\<lparr>kData := (kData r)\<lparr>kReady := False\<rparr>\<rparr>"
  obtain y where "save_record ?r fs = (y, fs1)" and y: "y = Inr ()" "r1 = ?r"
    using assms(1) by (auto simp: record_Begin_def save_changed_def split: prod.splits)
  from save_record_effect [OF this(1)] y have
    "nodes fs1 (record_file (kHome r)) = Some (Regular (json_print (record_json (kData ?r))))" by simp
  moreover have "data_text (kData ?r)" using assms(2) by (simp add: data_text_def)
  ultimately have "not_ready (nodes fs1 (record_file (kHome r1)))" "\<not> kReady (kData r1)" "data_text (kData r1)"
    using read_record_json [of "kData ?r"] y(2) by (auto simp: not_ready_def)
  from record_run_not_ready [OF assms(4) this] assms(5) y(2) have "not_ready (nodes fs3 (record_file (parent @ [handle])))"
    by (simp add: assms(3))
  then show ?thesis by (rule not_ready_refused)
qed

section \<open>A record on disk\<close>

lemma save_record_calm:
  assumes "answers fs = []" "nodes fs (kHome r) = Some Directory" "nodes fs (record_file (kHome r)) \<noteq> Some Directory"
    "length (json_print (record_json (kData r))) \<le> 8193"
  shows "save_record r fs =
    (Inr (), fs\<lparr>nodes := (nodes fs)(record_file (kHome r) \<mapsto> Regular (json_print (record_json (kData r))))\<rparr>)"
  using assms by (simp add: save_record_def verify_record_def Let_def io_bind_def put_node_def)

definition record_handle :: string where "record_handle = ''0123456789abcdef0123456789abcdef''"

definition disk_record :: cli_record where
  "disk_record = \<lparr>kHandle = record_handle, kHome = [''conversations'', record_handle],
     kData = \<lparr>kOrigin = \<lparr>Project = ''p'', Worktree = ''w'', Branch = ''b'', Session = []\<rparr>, kModel = [], kReady = False\<rparr>\<rparr>"

definition record_files :: files where
  "record_files = \<lparr>nodes = [[''conversations''] \<mapsto> Directory, [''conversations'', record_handle] \<mapsto> Directory], answers = []\<rparr>"

lemma disk_record_length: "length (json_print (record_json (kData disk_record))) \<le> 8193"
  using length_json_quote [of "''origin''"] length_json_quote [of "''project''"] length_json_quote [of "''worktree''"]
    length_json_quote [of "''branch''"] length_json_quote [of "''session''"] length_json_quote [of "''model''"]
    length_json_quote [of "''ready''"] length_json_quote [of "''p''"] length_json_quote [of "''w''"]
    length_json_quote [of "''b''"] length_json_quote [of "[]"]
  by (simp add: disk_record_def record_json_def origin_json_def commas_def)

theorem interrupted_run_not_resumable_witness:
  "isl (fst (Load [''conversations''] record_handle \<lparr>Project = ''p'', Worktree = ''w'', Branch = ''b'', Session = []\<rparr>
     (snd (record_step OpBegin (disk_record, record_files)))))"
proof -
  have s: "save_record disk_record record_files = (Inr (), record_files\<lparr>nodes := (nodes record_files)
      (record_file (kHome disk_record) \<mapsto> Regular (json_print (record_json (kData disk_record))))\<rparr>)" (is "_ = (_, ?fs)")
    by (rule save_record_calm [OF _ _ _ disk_record_length])
      (simp_all add: record_files_def disk_record_def record_file_def)
  have d: "disk_record\<lparr>kData := (kData disk_record)\<lparr>kReady := False\<rparr>\<rparr> = disk_record" by (simp add: disk_record_def)
  then have b: "record_Begin disk_record record_files = ((Inr (), disk_record), ?fs)"
    using s by (simp add: record_Begin_def save_changed_def)
  have t: "data_text (kData disk_record)" by (simp add: data_text_def disk_record_def)
  have h: "kHome disk_record = [''conversations''] @ [record_handle]" by (simp add: disk_record_def)
  have r: "foldl (\<lambda>s op1. record_step op1 s) (disk_record, ?fs) [] = (disk_record, ?fs)" by simp
  have "snd (record_step OpBegin (disk_record, record_files)) = ?fs" by (simp add: b)
  then show ?thesis by (simp only:) (rule interrupted_run_not_resumable [OF b t h r HOL.refl])
qed

end
