(* ===== verification/Cli_Run.thy ===== *)
theory Cli_Run
  imports Usage
begin

text \<open>
  Package \<^verbatim>\<open>clirun\<close>: one user turn in an isolated CLI process. What the process, the file system and the
  context do are fields of \<open>run_inputs\<close>; the two callbacks act on a state of the caller and report whether they
  succeeded. The lemmas characterise when the event loop accepts the output of the process.
\<close>

section \<open>The events\<close>

record cli_line =
  vType :: string
  vThread :: string
  vItemType :: string
  vText :: string

definition parse_event :: "string \<Rightarrow> cli_line option" where
  "parse_event line =
     Option.bind (json_parse line) (\<lambda>j. Option.bind (struct_members j) (\<lambda>ms.
     Option.bind (string_field ''type'' ms) (\<lambda>t. Option.bind (string_field ''thread_id'' ms) (\<lambda>thread.
     Option.bind (those (map struct_members (field_values ''item'' ms))) (\<lambda>items.
     Option.bind (string_field ''type'' (concat items)) (\<lambda>it. Option.bind (string_field ''text'' (concat items)) (\<lambda>x.
     if t = [] then None else Some \<lparr>vType = t, vThread = thread, vItemType = it, vText = x\<rparr>)))))))"

text \<open>The loop over the lines the scanner gives; \<open>read_ok\<close>: reading ended at the end of the output. A result of
  \<open>None\<close> is success, otherwise the stage that failed.\<close>

fun consume :: "(string \<Rightarrow> 's \<Rightarrow> bool \<times> 's) \<Rightarrow> (string \<Rightarrow> 's \<Rightarrow> bool \<times> 's) \<Rightarrow> bool \<Rightarrow> bool \<Rightarrow> bool \<Rightarrow> string list \<Rightarrow> 's \<Rightarrow>
    string option \<times> 's" where
  "consume started out read_ok seen completed [] s =
     (if \<not> read_ok then Some ''event_read''
      else if \<not> seen then Some ''missing_start_event''
      else if \<not> completed then Some ''missing_completion_event'' else None, s)"
| "consume started out read_ok seen completed (line # lines) s =
     (case parse_event line of
        None \<Rightarrow> (Some ''event_parse'', s)
      | Some e \<Rightarrow>
          if vType e = ''thread.started'' then
            (if seen \<or> completed then (Some ''event_order'', s)
             else case started (vThread e) s of (ok, s1) \<Rightarrow>
               if \<not> ok then (Some ''session_registration'', s1) else consume started out read_ok True completed lines s1)
          else if vType e = ''turn.completed'' then
            (if \<not> seen \<or> completed then (Some ''event_order'', s) else consume started out read_ok seen True lines s)
          else if vType e = ''turn.failed'' \<or> vType e = ''error'' then (Some ''cli_error_event'', s)
          else if vType e = ''item.completed'' then
            (if \<not> seen \<or> completed then (Some ''event_order'', s)
             else if vItemType e = ''agent_message'' then
               (case out (vText e @ [NL]) s of (ok, s1) \<Rightarrow>
                  if \<not> ok then (Some ''answer_output'', s1) else consume started out read_ok seen completed lines s1)
             else consume started out read_ok seen completed lines s)
          else consume started out read_ok seen completed lines s)"

section \<open>The run\<close>

datatype run_error = Stage string | CleanupRequired

definition FailureStage :: "run_error option \<Rightarrow> string" where
  "FailureStage e =
     (case e of None \<Rightarrow> ''completed'' | Some (Stage s) \<Rightarrow> s | Some CleanupRequired \<Rightarrow> ''run_or_cleanup_failed'')"

record run_inputs =
  nPrompt :: string
  nCallbacks :: bool
  nProfile :: bool
  nHome :: string
  nResume :: string
  nTempDir :: "string option"
  nProfileWritten :: bool
  nProcess :: bool
  nLines :: "string list"
  nReadOk :: bool
  nLive :: bool
  nExitOk :: bool
  nProfileRemoved :: bool
  nTempRemoved :: bool

text \<open>The arguments and the environment of the process.\<close>

definition run_args :: "string \<Rightarrow> string \<Rightarrow> string list" where
  "run_args home resume =
     [''exec'', ''--strict-config'', ''--skip-git-repo-check'', ''--profile'', ''switcher-live-test'', ''--json'']
     @ (if home = [] then [''--ephemeral''] else []) @ (if resume \<noteq> [] then [''resume'', resume] else []) @ [''-'']"

definition run_environment :: "(string \<Rightarrow> string) \<Rightarrow> string \<Rightarrow> string \<Rightarrow> string list" where
  "run_environment getenv tmp dir =
     [''PATH='' @ getenv ''PATH'', ''HOME='' @ getenv ''HOME'', ''TMPDIR='' @ tmp, ''CODEX_HOME='' @ dir,
      ''HTTP_PROXY=http://127.0.0.1:9'', ''HTTPS_PROXY=http://127.0.0.1:9'', ''NO_PROXY=127.0.0.1,localhost'',
      ''RUST_LOG=off'']"

definition process_run :: "(string \<Rightarrow> 's \<Rightarrow> bool \<times> 's) \<Rightarrow> (string \<Rightarrow> 's \<Rightarrow> bool \<times> 's) \<Rightarrow> run_inputs \<Rightarrow> 's \<Rightarrow> run_error option \<times> 's" where
  "process_run started out i s =
     (if \<not> nProcess i then (Some (Stage ''process_start''), s)
      else case consume started out (nReadOk i) False False (nLines i) s of
        (Some e, s1) \<Rightarrow> (Some (Stage e), s1)
      | (None, s1) \<Rightarrow>
          (if \<not> nLive i then Some (Stage ''canceled'')
           else if \<not> nExitOk i then Some (Stage ''process_exit'') else None, s1))"

text \<open>The deferred removals of the profile and of a temporary home take the place of any other outcome.\<close>

definition cli_Run :: "(string \<Rightarrow> 's \<Rightarrow> bool \<times> 's) \<Rightarrow> (string \<Rightarrow> 's \<Rightarrow> bool \<times> 's) \<Rightarrow> run_inputs \<Rightarrow> 's \<Rightarrow> run_error option \<times> 's" where
  "cli_Run started out i s =
     (if trim_space (nPrompt i) = [] \<or> 1048576 < length (nPrompt i) \<or> \<not> nCallbacks i then (Some (Stage ''invalid_arguments''), s)
      else if \<not> nProfile i then (Some (Stage ''profile_validation''), s)
      else if nHome i = [] \<and> nResume i \<noteq> [] then (Some (Stage ''invalid_arguments''), s)
      else if nHome i = [] \<and> nTempDir i = None then (Some (Stage ''directory_creation''), s)
      else case (if \<not> nProfileWritten i then (Some (Stage ''profile_write''), s)
                 else case process_run started out i s of (x, s1) \<Rightarrow>
                   (if nProfileRemoved i then x else Some CleanupRequired, s1)) of
        (x, s1) \<Rightarrow> (if nHome i = [] \<and> \<not> nTempRemoved i then Some CleanupRequired else x, s1))"

section \<open>What the loop accepts\<close>

datatype event_kind = KStart string | KDone | KFail | KMessage string | KItem | KOther

definition event_kind :: "cli_line \<Rightarrow> event_kind" where
  "event_kind e =
     (if vType e = ''thread.started'' then KStart (vThread e)
      else if vType e = ''turn.completed'' then KDone
      else if vType e = ''turn.failed'' \<or> vType e = ''error'' then KFail
      else if vType e = ''item.completed'' then (if vItemType e = ''agent_message'' then KMessage (vText e) else KItem)
      else KOther)"

definition kinds :: "string list \<Rightarrow> event_kind list option" where
  "kinds lines = those (map (\<lambda>l. map_option event_kind (parse_event l)) lines)"

definition significant :: "event_kind list \<Rightarrow> event_kind list" where
  "significant ks = filter (\<lambda>k. k \<noteq> KOther) ks"

fun is_item :: "event_kind \<Rightarrow> bool" where
  "is_item (KMessage x) = True"
| "is_item KItem = True"
| "is_item _ = False"

text \<open>Writing the messages among the items in order.\<close>

fun write_messages :: "(string \<Rightarrow> 's \<Rightarrow> bool \<times> 's) \<Rightarrow> event_kind list \<Rightarrow> 's \<Rightarrow> 's option" where
  "write_messages out [] s = Some s"
| "write_messages out (KMessage x # ks) s = (case out (x @ [NL]) s of (ok, s1) \<Rightarrow> if ok then write_messages out ks s1 else None)"
| "write_messages out (_ # ks) s = write_messages out ks s"

text \<open>One round of the loop by the kind of its event.\<close>

lemma consume_kind:
  assumes "parse_event line = Some e"
  shows "consume started out r seen completed (line # lines) s =
    (case event_kind e of
       KStart t \<Rightarrow> if seen \<or> completed then (Some ''event_order'', s)
          else (case started t s of (ok, s1) \<Rightarrow> if \<not> ok then (Some ''session_registration'', s1) else consume started out r True completed lines s1)
     | KDone \<Rightarrow> if \<not> seen \<or> completed then (Some ''event_order'', s) else consume started out r seen True lines s
     | KFail \<Rightarrow> (Some ''cli_error_event'', s)
     | KMessage x \<Rightarrow> if \<not> seen \<or> completed then (Some ''event_order'', s)
          else (case out (x @ [NL]) s of (ok, s1) \<Rightarrow> if \<not> ok then (Some ''answer_output'', s1) else consume started out r seen completed lines s1)
     | KItem \<Rightarrow> if \<not> seen \<or> completed then (Some ''event_order'', s) else consume started out r seen completed lines s
     | KOther \<Rightarrow> consume started out r seen completed lines s)"
  using assms by (simp add: event_kind_def)

lemma consume_unparsed: "parse_event line = None \<Longrightarrow> consume started out r seen completed (line # lines) s = (Some ''event_parse'', s)"
  by simp

lemma kinds_simps:
  "kinds [] = Some []"
  "kinds (l # ls) = (case parse_event l of None \<Rightarrow> None | Some e \<Rightarrow> map_option ((#) (event_kind e)) (kinds ls))"
  by (simp_all add: kinds_def split: option.splits)

lemma significant_simps [simp]:
  "significant [] = []" "significant (KOther # ks) = significant ks" "k \<noteq> KOther \<Longrightarrow> significant (k # ks) = k # significant ks"
  by (simp_all add: significant_def)

lemma consume_after:
  "fst (consume started out True True True lines s) = None \<longleftrightarrow> (\<exists>ks. kinds lines = Some ks \<and> significant ks = [])"
  "consume started out True True True lines s = (None, s1) \<Longrightarrow> s1 = s"
proof (induction lines)
  case (Cons l lines)
  {
    case 1
    show ?case
    proof (cases "parse_event l")
      case None
      then show ?thesis by (simp add: kinds_simps)
    next
      case (Some e)
      then show ?thesis using Cons(1)
        unfolding consume_kind [OF Some] by (cases "event_kind e") (auto simp: kinds_simps)
    qed
  next
    case 2
    show ?case
    proof (cases "parse_event l")
      case None
      with 2 show ?thesis by simp
    next
      case (Some e)
      with 2 Cons(2) show ?thesis
        unfolding consume_kind [OF Some] by (cases "event_kind e") auto
    qed
  }
qed (auto simp: kinds_simps)

lemma consume_turn:
  "consume started out True True False lines s = (None, s1) \<longleftrightarrow>
     (\<exists>ks items. kinds lines = Some ks \<and> significant ks = items @ [KDone] \<and> list_all is_item items
        \<and> write_messages out items s = Some s1)"
proof (induction lines arbitrary: s)
  case Nil
  then show ?case by (auto simp: kinds_simps)
next
  case (Cons l lines)
  show ?case
  proof (cases "parse_event l")
    case None
    then show ?thesis by (simp add: kinds_simps)
  next
    case (Some e)
    show ?thesis
    proof (cases "event_kind e")
      case (KStart t)
      then show ?thesis unfolding consume_kind [OF Some]
        by (auto simp: kinds_simps Some Cons_eq_append_conv)
    next
      case KDone
      have "consume started out True True True lines s = (None, s1) \<longleftrightarrow> fst (consume started out True True True lines s) = None \<and> s1 = s"
        using consume_after(2) [of started out lines s] by (metis fst_conv surjective_pairing)
      with KDone consume_after(1) [of started out lines s] show ?thesis unfolding consume_kind [OF Some]
        by (auto simp: kinds_simps Some Cons_eq_append_conv)
    next
      case KFail
      then show ?thesis unfolding consume_kind [OF Some]
        by (auto simp: kinds_simps Some Cons_eq_append_conv)
    next
      case (KMessage x)
      obtain ok s2 where o: "out (x @ [NL]) s = (ok, s2)" by fastforce
      show ?thesis unfolding consume_kind [OF Some] using Cons.IH [of s2] KMessage o
        by (cases ok) (auto simp: kinds_simps Some Cons_eq_append_conv)
    next
      case KItem
      then show ?thesis unfolding consume_kind [OF Some] using Cons.IH [of s]
        by (auto simp: kinds_simps Some Cons_eq_append_conv)
    next
      case KOther
      then show ?thesis unfolding consume_kind [OF Some] using Cons.IH [of s]
        by (auto simp: kinds_simps Some)
    qed
  qed
qed

text \<open>C18: The event loop accepts the output of the process exactly when every line is an event and the ones that
  matter are one start, then items, then one completion as the last; the caller's state is then the one after
  registering the thread and writing the messages of the agent in order.\<close>

theorem accepted_output:
  "consume started out True False False lines s = (None, s1) \<longleftrightarrow>
     (\<exists>ks t items s0. kinds lines = Some ks \<and> significant ks = KStart t # items @ [KDone] \<and> list_all is_item items
        \<and> started t s = (True, s0) \<and> write_messages out items s0 = Some s1)"
proof (induction lines)
  case Nil
  then show ?case by (auto simp: kinds_simps)
next
  case (Cons l lines)
  show ?case
  proof (cases "parse_event l")
    case None
    then show ?thesis by (simp add: kinds_simps)
  next
    case (Some e)
    show ?thesis
    proof (cases "event_kind e")
      case (KStart t)
      obtain ok s2 where o: "started t s = (ok, s2)" by fastforce
      with KStart consume_turn [of started out lines s2 s1] show ?thesis unfolding consume_kind [OF Some]
        by (cases ok) (auto simp: kinds_simps Some)
    next
      case KOther
      with Cons show ?thesis unfolding consume_kind [OF Some] by (auto simp: kinds_simps Some)
    qed (unfold consume_kind [OF Some], auto simp: kinds_simps Some)
  qed
qed

end
