(* ===== verification/Probe_Quota.thy ===== *)
theory Probe_Quota
  imports Usage Accountslot
begin

text \<open>
  File \<^verbatim>\<open>probequota.go\<close> of the helper: which account the shared connection uses for its next request. The
  current account is kept while it has quota above the reserve; it is left only when it is known to be
  exhausted, for the eligible account with most quota. Rejections by the model outrank quota observations that
  were started before them.
\<close>

definition quota_reserve :: f64 where "quota_reserve = Fin 5"

record quota_view =
  quotaEligible :: "string \<rightharpoonup> f64"
  quotaExhausted :: "string set"

text \<open>One sample. The dereference of \<^verbatim>\<open>LastSuccess\<close> is reached only for a sample that is not stale, which
  has one.\<close>

definition quota_step :: "time \<Rightarrow> quota_view \<Rightarrow> usage_snapshot \<Rightarrow> quota_view" where
  "quota_step now v s0 =
     (if \<not> slot_valid (uSlot s0) then v
      else let s = At now s0; slot = uSlot s in
        if uState s = ''not_registered'' \<and> Registered s = Some False
        then v\<lparr>quotaExhausted := insert slot (quotaExhausted v)\<rparr>
        else if Stale s \<or> (case LastSuccess s of None \<Rightarrow> True | Some t \<Rightarrow> now < t) \<or> uState s \<noteq> ''ok'' \<and> uState s \<noteq> ''limit_reached''
        then v
        else case Usage s of None \<Rightarrow> v
        | Some d \<Rightarrow>
            if LimitReached d = Some True \<or> Allowed d = Some False
               \<or> (case Remaining d of None \<Rightarrow> False | Some r \<Rightarrow> f64_le (Fin 0) r \<and> f64_le r quota_reserve)
            then v\<lparr>quotaExhausted := insert slot (quotaExhausted v)\<rparr>
            else if Allowed d = Some True \<and> LimitReached d = Some False
            then (case Remaining d of None \<Rightarrow> v
                  | Some r \<Rightarrow> if f64_less quota_reserve r \<and> f64_le r (Fin 100)
                              then v\<lparr>quotaEligible := (quotaEligible v)(slot \<mapsto> r)\<rparr> else v)
            else v)"

definition quota_views :: "usage_snapshot list \<Rightarrow> time \<Rightarrow> quota_view" where
  "quota_views ss now = foldl (quota_step now) \<lparr>quotaEligible = Map.empty, quotaExhausted = {}\<rparr> ss"

definition best_step :: "(string \<rightharpoonup> f64) \<Rightarrow> string \<Rightarrow> string \<Rightarrow> string" where
  "best_step e best slot =
     (case e slot of None \<Rightarrow> best
      | Some r \<Rightarrow> if best = [] then slot
                  else case e best of None \<Rightarrow> (if f64_less (Fin 0) r then slot else best)
                  | Some b \<Rightarrow> if f64_less b r then slot else best)"

definition probeQuotaSelection :: "string \<Rightarrow> usage_snapshot list \<Rightarrow> time \<Rightarrow> string \<times> string" where
  "probeQuotaSelection current ss now =
     (let v = quota_views ss now in
      if current \<noteq> [] \<and> quotaEligible v current \<noteq> None then (current, ''retained'')
      else if current \<noteq> [] \<and> current \<notin> quotaExhausted v then ([], ''probe_usage_unavailable'')
      else let best = foldl (best_step (quotaEligible v)) [] slot_all in
        if best = [] then ([], ''probe_no_available_account'')
        else if current = [] then (best, ''initial_usage_selection'')
        else (best, ''quota_exhausted_switch''))"

definition probeQuotaAlternative :: "usage_snapshot list \<Rightarrow> string set \<Rightarrow> time \<Rightarrow> string" where
  "probeQuotaAlternative ss tried now =
     fst (probeQuotaSelection [] (filter (\<lambda>s. uSlot s \<notin> tried) ss) now)"

section \<open>Explicit rejections\<close>

type_synonym limit_state = "string \<rightharpoonup> time"

definition mark_limit :: "string \<Rightarrow> time \<Rightarrow> limit_state \<Rightarrow> limit_state" where
  "mark_limit slot now l = l(slot \<mapsto> now)"

definition limited_sample :: "time \<Rightarrow> usage_snapshot \<Rightarrow> usage_snapshot" where
  "limited_sample now s =
     s\<lparr>uState := ''limit_reached'',
       Usage := Some \<lparr>PlanType = [], Primary = empty_window, Secondary = empty_window, Allowed = Some False,
                      LimitReached = Some True, Remaining = Some (Fin 0), CheckpointLevel = []\<rparr>,
       LastSuccess := Some now, Stale := False\<rparr>"

text \<open>The overlay over the samples in order; each limited sample takes its own clock reading.\<close>

fun apply_limits :: "(nat \<Rightarrow> time) \<Rightarrow> nat \<Rightarrow> limit_state \<Rightarrow> usage_snapshot list \<Rightarrow> usage_snapshot list \<times> limit_state" where
  "apply_limits clock n l [] = ([], l)"
| "apply_limits clock n l (s # ss) =
     (case l (uSlot s) of
        None \<Rightarrow> (case apply_limits clock (Suc n) l ss of (ss1, l1) \<Rightarrow> (s # ss1, l1))
      | Some t \<Rightarrow>
          if t < LastAttempt s \<and> \<not> Stale s \<and> Usage s \<noteq> None \<and> (uState s = ''ok'' \<or> uState s = ''limit_reached'')
          then (case apply_limits clock (Suc n) (l(uSlot s := None)) ss of (ss1, l1) \<Rightarrow> (s # ss1, l1))
          else (case apply_limits clock (Suc n) l ss of (ss1, l1) \<Rightarrow> (limited_sample (clock n) s # ss1, l1)))"

section \<open>What is known of an account\<close>

text \<open>A fresh successful observation that leaves \<open>r\<close> percent above the reserve.\<close>

definition has_quota :: "time \<Rightarrow> usage_snapshot \<Rightarrow> f64 \<Rightarrow> bool" where
  "has_quota now s r \<longleftrightarrow>
     \<not> Stale s \<and> (\<exists>t. LastSuccess s = Some t \<and> t \<le> now \<and> now - t < StaleAfter) \<and> (uState s = ''ok'' \<or> uState s = ''limit_reached'')
     \<and> (\<exists>d. Usage s = Some d \<and> Allowed d = Some True \<and> LimitReached d = Some False \<and> Remaining d = Some r)
     \<and> f64_less quota_reserve r \<and> f64_le r (Fin 100)"

text \<open>An observation that the account is logged out, or a fresh one that its quota is used up.\<close>

definition is_exhausted :: "time \<Rightarrow> usage_snapshot \<Rightarrow> bool" where
  "is_exhausted now s \<longleftrightarrow>
     uState s = ''not_registered'' \<and> Registered s = Some False
     \<or> \<not> Stale s \<and> (\<exists>t. LastSuccess s = Some t \<and> t \<le> now \<and> now - t < StaleAfter)
       \<and> (\<exists>d. Usage s = Some d \<and> (LimitReached d = Some True \<or> Allowed d = Some False
            \<or> (\<exists>r. Remaining d = Some r \<and> f64_le (Fin 0) r \<and> f64_le r quota_reserve)))"

lemma fresh_time: "\<not> StaleAfter \<le> time_sub now t \<longleftrightarrow> now - t < StaleAfter"
  using time_sub_ge [of StaleAfter now t] by (auto simp: StaleAfter_def minutes_def seconds_def not_le)

lemma quota_step_eligible:
  assumes "quotaEligible (quota_step now v s) slot = Some r"
  shows "quotaEligible v slot = Some r \<or> uSlot s = slot \<and> slot_valid slot \<and> has_quota now s r"
  using assms by (auto simp: quota_step_def At_def Let_def has_quota_def fresh_time not_less split: if_splits option.splits)

lemma quota_step_exhausted:
  assumes "slot \<in> quotaExhausted (quota_step now v s)"
  shows "slot \<in> quotaExhausted v \<or> uSlot s = slot \<and> is_exhausted now s"
  using assms by (auto simp: quota_step_def At_def Let_def is_exhausted_def fresh_time not_less split: if_splits option.splits)

lemma quota_views_sound:
  "quotaEligible (quota_views ss now) slot = Some r \<Longrightarrow> \<exists>s\<in>set ss. uSlot s = slot \<and> slot_valid slot \<and> has_quota now s r"
  "slot \<in> quotaExhausted (quota_views ss now) \<Longrightarrow> \<exists>s\<in>set ss. uSlot s = slot \<and> is_exhausted now s"
  unfolding quota_views_def
  by (induction ss rule: rev_induct) (auto dest!: quota_step_eligible quota_step_exhausted)

text \<open>The best eligible slot so far, the first of equals.\<close>

definition best_ok :: "(string \<rightharpoonup> f64) \<Rightarrow> string list \<Rightarrow> string \<Rightarrow> bool" where
  "best_ok e slots best \<longleftrightarrow>
     (if best = [] then \<forall>x\<in>set slots. e x = None
      else \<exists>b. e best = Some b \<and> best \<in> set slots \<and> (\<forall>x\<in>set slots. \<forall>r. e x = Some r \<longrightarrow> f64_le r b))"

definition proper :: "f64 \<Rightarrow> bool" where "proper r \<longleftrightarrow> r \<noteq> NaN"

lemma f64_total: "proper a \<Longrightarrow> proper b \<Longrightarrow> \<not> f64_less a b \<Longrightarrow> f64_le b a"
  by (cases a; cases b) (auto simp: proper_def)

lemma f64_refl: "proper a \<Longrightarrow> f64_le a a"
  by (cases a) (auto simp: proper_def)

lemma best_step_ok:
  assumes "best_ok e slots best" "slot \<noteq> []" "\<forall>x r. e x = Some r \<longrightarrow> proper r"
  shows "best_ok e (slots @ [slot]) (best_step e best slot)"
proof (cases "e slot")
  case None
  with assms(1) show ?thesis by (auto simp: best_ok_def best_step_def split: if_splits)
next
  case (Some r)
  then have pr: "proper r" using assms(3) by blast
  show ?thesis
  proof (cases "best = []")
    case True
    with assms(1,2) Some f64_refl [OF pr] show ?thesis by (auto simp: best_ok_def best_step_def)
  next
    case False
    then obtain b where b: "e best = Some b" "best \<in> set slots" "\<forall>x\<in>set slots. \<forall>r. e x = Some r \<longrightarrow> f64_le r b"
      using assms(1) by (auto simp: best_ok_def)
    then have pb: "proper b" using assms(3) by blast
    show ?thesis
    proof (cases "f64_less b r")
      case True
      have "f64_le q r" if "x \<in> set slots" "e x = Some q" for x q
        using b(3) that f64_less_le [OF True] f64_le_trans by blast
      with True False Some b(1) assms(2) f64_refl [OF pr] show ?thesis by (auto simp: best_ok_def best_step_def)
    next
      case F: False
      with False Some b f64_total [OF pb pr] show ?thesis by (auto simp: best_ok_def best_step_def)
    qed
  qed
qed

lemma best_fold_ok:
  assumes "\<forall>x r. e x = Some r \<longrightarrow> proper r"
  shows "list_all (\<lambda>s. s \<noteq> []) slots \<Longrightarrow> best_ok e slots (foldl (best_step e) [] slots)"
proof (induction slots rule: rev_induct)
  case Nil
  then show ?case by (simp add: best_ok_def)
next
  case (snoc s slots)
  then show ?case using best_step_ok [of e slots _ s] assms by simp
qed

lemma has_quota_proper: "has_quota now s r \<Longrightarrow> proper r"
  by (auto simp: has_quota_def proper_def quota_reserve_def)

text \<open>C14: An account is chosen only on a fresh successful observation that leaves it more than the reserve, and a
  conversation is moved away from its account only when an observation says that account is logged out or used
  up; without one the selection names no account.\<close>

theorem account_switch_justified:
  assumes "probeQuotaSelection current ss now = (chosen_slot, reason)" and "chosen_slot \<noteq> []"
  shows "slot_valid chosen_slot \<and> (\<exists>s\<in>set ss. uSlot s = chosen_slot \<and> (\<exists>r. has_quota now s r))
    \<and> (current = [] \<or> chosen_slot = current \<or> (\<exists>s\<in>set ss. uSlot s = current \<and> is_exhausted now s))"
proof -
  let ?v = "quota_views ss now"
  let ?best = "foldl (best_step (quotaEligible ?v)) [] slot_all"
  have pr: "\<forall>x r. quotaEligible ?v x = Some r \<longrightarrow> proper r"
    using quota_views_sound(1) has_quota_proper by blast
  have "best_ok (quotaEligible ?v) slot_all ?best"
    by (rule best_fold_ok [OF pr]) (simp add: slot_all_def)
  then have best: "?best \<noteq> [] \<Longrightarrow> \<exists>r. quotaEligible ?v ?best = Some r" by (auto simp: best_ok_def)
  consider "chosen_slot = current" "quotaEligible ?v current \<noteq> None"
  | "chosen_slot = ?best" "current = [] \<or> current \<in> quotaExhausted ?v"
    using assms by (auto simp: probeQuotaSelection_def Let_def split: if_splits)
  then show ?thesis
  proof cases
    case 1
    then obtain r where "quotaEligible ?v current = Some r" by auto
    from quota_views_sound(1) [OF this] 1(1) show ?thesis by blast
  next
    case 2
    with best assms(2) obtain r where "quotaEligible ?v chosen_slot = Some r" by auto
    from quota_views_sound(1) [OF this] have "slot_valid chosen_slot"
      "\<exists>s\<in>set ss. uSlot s = chosen_slot \<and> (\<exists>r. has_quota now s r)" by blast+
    with 2(2) quota_views_sound(2) show ?thesis by blast
  qed
qed

definition quota_sample :: "string \<Rightarrow> rat \<Rightarrow> usage_snapshot" where
  "quota_sample slot left = empty_sample\<lparr>uSlot := slot, Registered := Some True, uState := ''ok'', LastSuccess := Some 0,
     Usage := Some \<lparr>PlanType = [], Primary = empty_window, Secondary = empty_window, Allowed = Some True,
       LimitReached = Some False, Remaining = Some (Fin left), CheckpointLevel = []\<rparr>\<rparr>"

lemma sample_selection:
  "probeQuotaSelection ''a'' [quota_sample ''a'' 3, quota_sample ''b'' 80] 1 = (''b'', ''quota_exhausted_switch'')"
  by (simp add: probeQuotaSelection_def quota_views_def quota_step_def quota_sample_def empty_sample_def At_def
      slot_valid_def StaleAfter_def minutes_def seconds_def time_sub_def quota_reserve_def slot_all_def best_step_def Let_def)

theorem account_switch_justified_witness:
  "is_exhausted 1 (quota_sample ''a'' 3) \<and> (\<exists>r. has_quota 1 (quota_sample ''b'' 80) r)"
  using account_switch_justified [OF sample_selection]
  by (simp add: quota_sample_def empty_sample_def)

end
