(* ===== verification/Session_Status.thy ===== *)
theory Session_Status
  imports Files Calendar_Zone Json_Print Accountslot Sha256
begin

text \<open>
  Package \<^verbatim>\<open>sessionstatus\<close>: the published status of conversations. A directory is seen through what
  the system answers about each of its entries; the order \<^verbatim>\<open>sort.Slice\<close> gives equal elements is
  unspecified, so sorting is a parameter. The lemmas show that what is read is valid, recent, sorted and
  bounded, and that the cleanup removes only sessions that were idle for the whole retention.
\<close>

abbreviation ErrStatus :: go_err where "ErrStatus \<equiv> EOther ''session_status_unavailable''"

record session_info =
  tConversation :: string
  tProject :: string
  tWorktree :: string
  tBranch :: string
  tSlot :: string
  tState :: string
  tUpdatedAt :: time
  tHeartbeat :: time

definition hexID :: "string \<Rightarrow> nat \<Rightarrow> bool" where
  "hexID s n = hex_of_len n s"

definition valid_session :: "session_info \<Rightarrow> bool" where
  "valid_session s \<longleftrightarrow>
     hexID (tConversation s) 16 \<and> hexID (tProject s) 32 \<and> hexID (tWorktree s) 32 \<and> hexID (tBranch s) 32
     \<and> slot_valid (tSlot s) \<and> tState s \<in> {''active'', ''waiting'', ''failed'', ''closed''}
     \<and> tUpdatedAt s \<noteq> zero_time \<and> tHeartbeat s \<noteq> zero_time"

section \<open>Documents\<close>

text \<open>The clock is read in UTC.\<close>

definition session_json :: "session_info \<Rightarrow> json" where
  "session_json s =
     JObj [(''conversation'', JStr (tConversation s)), (''project'', JStr (tProject s)), (''worktree'', JStr (tWorktree s)),
           (''branch'', JStr (tBranch s)), (''slot'', JStr (tSlot s)), (''state'', JStr (tState s)),
           (''updated_at'', JStr (rfc3339 (tUpdatedAt s))), (''heartbeat'', JStr (rfc3339 (tHeartbeat s)))]"

fun time_member :: "time \<Rightarrow> json \<Rightarrow> time option" where
  "time_member t JNull = Some t"
| "time_member t (JStr s) = parse_rfc3339 s"
| "time_member t _ = None"

fun session_members :: "session_info \<Rightarrow> (string \<times> json) list \<Rightarrow> session_info option" where
  "session_members s [] = Some s"
| "session_members s ((k, v) # ms) =
     (if field_match ''conversation'' k then
        Option.bind (decode_string (tConversation s) v) (\<lambda>x. session_members (s\<lparr>tConversation := x\<rparr>) ms)
      else if field_match ''project'' k then
        Option.bind (decode_string (tProject s) v) (\<lambda>x. session_members (s\<lparr>tProject := x\<rparr>) ms)
      else if field_match ''worktree'' k then
        Option.bind (decode_string (tWorktree s) v) (\<lambda>x. session_members (s\<lparr>tWorktree := x\<rparr>) ms)
      else if field_match ''branch'' k then
        Option.bind (decode_string (tBranch s) v) (\<lambda>x. session_members (s\<lparr>tBranch := x\<rparr>) ms)
      else if field_match ''slot'' k then
        Option.bind (decode_string (tSlot s) v) (\<lambda>x. session_members (s\<lparr>tSlot := x\<rparr>) ms)
      else if field_match ''state'' k then
        Option.bind (decode_string (tState s) v) (\<lambda>x. session_members (s\<lparr>tState := x\<rparr>) ms)
      else if field_match ''updated_at'' k then
        Option.bind (time_member (tUpdatedAt s) v) (\<lambda>x. session_members (s\<lparr>tUpdatedAt := x\<rparr>) ms)
      else if field_match ''heartbeat'' k then
        Option.bind (time_member (tHeartbeat s) v) (\<lambda>x. session_members (s\<lparr>tHeartbeat := x\<rparr>) ms)
      else session_members s ms)"

definition empty_info :: session_info where
  "empty_info = \<lparr>tConversation = [], tProject = [], tWorktree = [], tBranch = [], tSlot = [], tState = [],
     tUpdatedAt = zero_time, tHeartbeat = zero_time\<rparr>"

definition read_session :: "string \<Rightarrow> session_info option" where
  "read_session b =
     (case json_parse b of Some JNull \<Rightarrow> Some empty_info | Some (JObj ms) \<Rightarrow> session_members empty_info ms | _ \<Rightarrow> None)"

section \<open>The publisher\<close>

text \<open>Taking the write lock of the directory: opening, checking and locking its file. Writing and closing the
  temporary file are looked at together; the rename publishes.\<close>

definition status_lock :: "unit io" where
  "status_lock = io_bind (call ErrStatus (\<lambda>fs. True)) (\<lambda>_. io_bind (call ErrStatus (\<lambda>fs. True)) (\<lambda>_. call ErrStatus (\<lambda>fs. True)))"

definition status_save :: "path \<Rightarrow> session_info \<Rightarrow> unit io" where
  "status_save dir s =
     io_bind status_lock (\<lambda>_.
     io_bind (call ErrStatus (\<lambda>fs. nodes fs dir = Some Directory)) (\<lambda>_.
     io_bind (calls ErrStatus 2) (\<lambda>_.
     io_bind (call ErrStatus (\<lambda>fs. nodes fs (dir @ [tConversation s @ ''.json'']) \<noteq> Some Directory)) (\<lambda>_.
     put_node (dir @ [tConversation s @ ''.json'']) (Regular (json_print (session_json s)))))))"

text \<open>\<^verbatim>\<open>Start\<close> checks the session, takes and releases the application lock and writes the first sample.\<close>

definition status_Start :: "path \<Rightarrow> time \<Rightarrow> time \<Rightarrow> session_info \<Rightarrow> session_info io" where
  "status_Start dir t1 t2 s0 =
     (let s = s0\<lparr>tState := ''waiting'', tUpdatedAt := t1, tHeartbeat := t2\<rparr> in
      if \<not> valid_session s then io_fail ErrStatus
      else io_bind (call ErrStatus (\<lambda>fs. True)) (\<lambda>_.
           io_bind (call ErrStatus (\<lambda>fs. nodes fs dir = Some Directory)) (\<lambda>_.
           (\<lambda>fs. case status_save dir s fs of
              (Inl e, fs1) \<Rightarrow> (Inl ErrStatus, fs1)
            | (Inr _, fs1) \<Rightarrow> (Inr s, fs1)))))"

definition status_tick :: "path \<Rightarrow> time \<Rightarrow> session_info \<Rightarrow> files \<Rightarrow> session_info \<times> files" where
  "status_tick dir t s fs = (let s1 = s\<lparr>tHeartbeat := t\<rparr> in (s1, snd (status_save dir s1 fs)))"

definition status_Set :: "path \<Rightarrow> time \<Rightarrow> time \<Rightarrow> string \<Rightarrow> session_info \<Rightarrow> files \<Rightarrow> session_info \<times> files" where
  "status_Set dir t1 t2 st s fs =
     (if st \<notin> {''active'', ''waiting'', ''failed'', ''closed''} then (s, fs)
      else let s1 = s\<lparr>tState := st, tUpdatedAt := t1, tHeartbeat := t2\<rparr> in (s1, snd (status_save dir s1 fs)))"

section \<open>Reading\<close>

datatype open_result = Missing | OpenError | Opened

record status_entry =
  eName :: string
  eOpen :: open_result
  eStat :: bool
  eRegular :: bool
  ePrivate :: bool
  eSize :: int
  eOwn :: bool
  eLinks :: nat
  eBytes :: "string option"

datatype dir_view = NoDirectory | BadDirectory | Listing "status_entry list"

definition session_name :: "string \<Rightarrow> bool" where
  "session_name n \<longleftrightarrow> has_suffix ''.json'' n \<and> hexID (trim_suffix ''.json'' n) 16"

definition decoded_entry :: "status_entry \<Rightarrow> session_info option" where
  "decoded_entry e =
     (case eBytes e of None \<Rightarrow> None
      | Some d \<Rightarrow>
          let b = take 4097 d in
          if 4096 < length b then None
          else case read_session b of None \<Rightarrow> None
          | Some s \<Rightarrow> if \<not> valid_session s \<or> eName e \<noteq> tConversation s @ ''.json'' then None else Some s)"

definition live_state :: "session_info \<Rightarrow> bool" where
  "live_state s \<longleftrightarrow> tState s = ''active'' \<or> tState s = ''waiting''"

definition shown_session :: "time \<Rightarrow> session_info \<Rightarrow> session_info option" where
  "shown_session now s =
     (let age = time_sub now (tHeartbeat s) in
      if hours 24 < age then None
      else if age < - seconds 1 \<or> live_state s \<and> seconds 5 \<le> age then Some (s\<lparr>tState := ''disconnected''\<rparr>)
      else Some s)"

text \<open>The loop: an entry that vanished is skipped, anything else that is not as it should be fails the read.\<close>

fun read_entries :: "time \<Rightarrow> status_entry list \<Rightarrow> session_info list res" where
  "read_entries now [] = Inr []"
| "read_entries now (e # es) =
     (if \<not> session_name (eName e) then read_entries now es
      else case eOpen e of
        Missing \<Rightarrow> read_entries now es
      | OpenError \<Rightarrow> Inl ErrStatus
      | Opened \<Rightarrow>
          if \<not> eStat e \<or> \<not> eRegular e \<or> \<not> ePrivate e \<or> 4096 < eSize e then Inl ErrStatus
          else if \<not> eOwn e \<or> 1 < eLinks e then Inl ErrStatus
          else case decoded_entry e of
            None \<Rightarrow> Inl ErrStatus
          | Some s \<Rightarrow>
              bind_r (read_entries now es) (\<lambda>ss. Inr (case shown_session now s of None \<Rightarrow> ss | Some x \<Rightarrow> x # ss)))"

definition session_before :: "session_info \<Rightarrow> session_info \<Rightarrow> bool" where
  "session_before a b \<longleftrightarrow> (if live_state a \<noteq> live_state b then live_state a else tUpdatedAt b < tUpdatedAt a)"

definition status_Read :: "(session_info list \<Rightarrow> session_info list) \<Rightarrow> dir_view \<Rightarrow> time \<Rightarrow> session_info list res" where
  "status_Read arrange d now =
     (case d of
        NoDirectory \<Rightarrow> Inr []
      | BadDirectory \<Rightarrow> Inl ErrStatus
      | Listing es \<Rightarrow>
          if 4096 < length es then Inl ErrStatus
          else bind_r (read_entries now es) (\<lambda>ss. Inr (take 64 (arrange ss))))"

text \<open>The endpoint: the status of the answer and the sessions it carries.\<close>

definition status_Handler :: "(session_info list \<Rightarrow> session_info list) \<Rightarrow> string \<Rightarrow> dir_view \<Rightarrow> time \<Rightarrow>
    string list \<Rightarrow> string \<Rightarrow> string \<Rightarrow> string \<Rightarrow> nat \<times> session_info list option" where
  "status_Handler arrange secret d now authorization origin_header path method =
     (if length secret < 32 \<or> authorization \<noteq> [''Bearer '' @ secret] then (401, None)
      else if origin_header \<noteq> [] then (403, None)
      else if path \<noteq> ''/control/sessions'' then (404, None)
      else if method \<noteq> ''GET'' then (405, None)
      else case status_Read arrange d now of Inl _ \<Rightarrow> (503, None) | Inr ss \<Rightarrow> (200, Some ss))"

section \<open>Cleanup\<close>

definition status_retention :: int where "status_retention = hours (14 * 24)"

text \<open>One file under the write lock: \<open>locked\<close> and \<open>removed\<close> are whether the lock and the removal succeed. The
  answer tells whether the file was removed.\<close>

definition cleanup_file :: "bool \<Rightarrow> bool \<Rightarrow> time \<Rightarrow> status_entry \<Rightarrow> bool res" where
  "cleanup_file locked removed now e =
     (if \<not> locked then Inl ErrStatus
      else case eOpen e of
        Missing \<Rightarrow> Inr False
      | OpenError \<Rightarrow> Inl ErrStatus
      | Opened \<Rightarrow>
          if \<not> eStat e \<or> \<not> eRegular e \<or> \<not> ePrivate e \<or> 4096 < eSize e \<or> \<not> eOwn e \<or> eLinks e \<noteq> 1 then Inl ErrStatus
          else case decoded_entry e of
            None \<Rightarrow> Inl ErrStatus
          | Some s \<Rightarrow>
              if time_sub now (tHeartbeat s) \<le> status_retention \<or> time_sub now (tUpdatedAt s) \<le> status_retention then Inr False
              else if \<not> removed then Inl ErrStatus else Inr True)"

text \<open>The files removed before the end or the first error, newest first, and the error.\<close>

fun cleanup_entries :: "time \<Rightarrow> (status_entry \<times> bool \<times> bool) list \<Rightarrow> status_entry list \<Rightarrow> go_err option \<times> status_entry list" where
  "cleanup_entries now [] gone = (None, gone)"
| "cleanup_entries now ((e, locked, removed) # es) gone =
     (if \<not> session_name (eName e) then cleanup_entries now es gone
      else case cleanup_file locked removed now e of
        Inl err \<Rightarrow> (Some err, gone)
      | Inr b \<Rightarrow> cleanup_entries now es (if b then e # gone else gone))"

section \<open>What is shown and what is removed\<close>

lemma decoded_valid: "decoded_entry e = Some s \<Longrightarrow> valid_session s \<and> eName e = tConversation s @ ''.json''"
  by (auto simp: decoded_entry_def Let_def split: option.splits if_splits)

definition shown :: "time \<Rightarrow> session_info \<Rightarrow> bool" where
  "shown now s \<longleftrightarrow> time_sub now (tHeartbeat s) \<le> hours 24 \<and> slot_valid (tSlot s) \<and> hexID (tConversation s) 16
     \<and> (live_state s \<longrightarrow> - seconds 1 \<le> time_sub now (tHeartbeat s) \<and> time_sub now (tHeartbeat s) < seconds 5)"

lemma shown_session_shown: "valid_session s \<Longrightarrow> shown_session now s = Some x \<Longrightarrow> shown now x"
  by (auto simp: shown_session_def shown_def valid_session_def live_state_def Let_def split: if_splits)

lemma read_entries_shown: "read_entries now es = Inr ss \<Longrightarrow> s \<in> set ss \<Longrightarrow> shown now s"
proof (induction es arbitrary: ss)
  case (Cons e es)
  then show ?case
    by (fastforce simp: bind_r_Inr_iff dest: decoded_valid shown_session_shown split: if_splits open_result.splits option.splits)
qed simp

lemma status_read_sound:
  assumes "status_Read arrange d now = Inr ss"
    and "\<And>xs. set (arrange xs) = set xs" "\<And>xs. sorted_wrt (\<lambda>a b. \<not> session_before b a) (arrange xs)"
  shows "length ss \<le> 64 \<and> (\<forall>s\<in>set ss. shown now s) \<and> sorted_wrt (\<lambda>a b. \<not> session_before b a) ss"
proof (cases d)
  case (Listing es)
  with assms(1) obtain xs where x: "read_entries now es = Inr xs" "ss = take 64 (arrange xs)"
    by (auto simp: status_Read_def bind_r_Inr_iff split: if_splits)
  have "set ss \<subseteq> set xs" using assms(2) x(2) by (metis set_take_subset)
  with read_entries_shown [OF x(1)] have "\<forall>s\<in>set ss. shown now s" by blast
  moreover have "sorted_wrt (\<lambda>a b. \<not> session_before b a) ss" unfolding x(2) by (rule sorted_wrt_take [OF assms(3)])
  ultimately show ?thesis using x(2) by simp
qed (use assms(1) in \<open>auto simp: status_Read_def\<close>)

lemma cleanup_only_idle:
  "cleanup_entries now es gone = (err, out) \<Longrightarrow> e \<in> set out \<Longrightarrow> e \<notin> set gone \<Longrightarrow>
     \<exists>s. decoded_entry e = Some s \<and> valid_session s \<and> status_retention < time_sub now (tHeartbeat s)
       \<and> status_retention < time_sub now (tUpdatedAt s)"
proof (induction now es gone rule: cleanup_entries.induct)
  case (2 now f locked removed es gone)
  show ?case
  proof (cases "session_name (eName f)")
    case False
    with 2 show ?thesis by simp
  next
    case True
    show ?thesis
    proof (cases "cleanup_file locked removed now f")
      case (Inl err1)
      with True 2(3-5) show ?thesis by auto
    next
      case (Inr b)
      show ?thesis
      proof (cases "e \<in> set (if b then f # gone else gone)")
        case False
        with 2(2) [of b] True Inr 2(3-5) show ?thesis by simp
      next
        case T: True
        with 2(5) have "b" "e = f" by (auto split: if_splits)
        with Inr show ?thesis
          by (auto simp: cleanup_file_def not_le dest: decoded_valid split: if_splits open_result.splits option.splits)
      qed
    qed
  qed
qed simp

end
