(* ===== verification/Project_Identity.thy ===== *)
theory Project_Identity
  imports Checkpoint
begin

text \<open>
  Package \<^verbatim>\<open>projectidentity\<close>: the identity of a project directory, derived from what the file system and
  the \<^verbatim>\<open>git\<close> command answer. Those answers are fields of \<open>project_view\<close>; identifiers are digests with a
  domain and a kind, so a project, a worktree and a branch of the same text differ.
\<close>

abbreviation ErrProject :: go_err where "ErrProject \<equiv> EOther ''project_identity_unavailable''"

text \<open>\<^verbatim>\<open>canonical\<close>: absolute, links resolved, and a directory; \<open>None\<close> when one of these fails.\<close>

datatype lstat_result = Present | NotThere | LstatError

record project_view =
  jRoot :: "string option"
  jAncestors :: "lstat_result list" \<comment> \<open>\<^verbatim>\<open>.git\<close> in the directory and each parent up to the root\<close>
  jTop :: "string option"
  jCommon :: "string option"
  jCanonical :: "string \<Rightarrow> string option"
  jSymbolic :: "string option"
  jHead :: "string option"
  jLive :: bool

fun find_git :: "lstat_result list \<Rightarrow> bool res" where
  "find_git [] = Inr False"
| "find_git (Present # rest) = Inr True"
| "find_git (NotThere # rest) = find_git rest"
| "find_git (LstatError # rest) = Inl ErrProject"

text \<open>One output of the command: a single line that is not empty.\<close>

definition git_value :: "string option \<Rightarrow> string res" where
  "git_value out =
     (case out of None \<Rightarrow> Inl ErrProject
      | Some o1 \<Rightarrow> let v = trim_suffix [NL] o1 in if v = [] \<or> contains_any v [NUL, CR, NL] then Inl ErrProject else Inr v)"

definition canonical_path :: "project_view \<Rightarrow> string \<Rightarrow> string res" where
  "canonical_path j p = (case jCanonical j p of None \<Rightarrow> Inl ErrProject | Some q \<Rightarrow> Inr q)"

definition branch_name :: "project_view \<Rightarrow> string res" where
  "branch_name j =
     (case git_value (jSymbolic j) of
        Inr r \<Rightarrow> Inr (''ref:'' @ r)
      | Inl _ \<Rightarrow> bind_r (git_value (jHead j)) (\<lambda>h. Inr (''detached:'' @ h)))"

definition git_places :: "project_view \<Rightarrow> (string \<times> string \<times> string) res" where
  "git_places j =
     bind_r (git_value (jTop j)) (\<lambda>w. bind_r (git_value (jCommon j)) (\<lambda>p.
     bind_r (canonical_path j w) (\<lambda>worktree. bind_r (canonical_path j p) (\<lambda>project.
     bind_r (branch_name j) (\<lambda>b. Inr (project, worktree, b))))))"

definition origin_digest :: "string \<Rightarrow> string \<Rightarrow> string" where
  "origin_digest kind v = sha256_hex (''switcher-origin-v1'' @ [NUL] @ kind @ [NUL] @ v)"

definition project_Resolve :: "project_view \<Rightarrow> origin res" where
  "project_Resolve j =
     (case jRoot j of None \<Rightarrow> Inl ErrProject
      | Some dir \<Rightarrow>
          bind_r (find_git (jAncestors j)) (\<lambda>git.
          bind_r (if git then git_places j else Inr (dir, dir, ''non-git'')) (\<lambda>(project, worktree, branch).
          if \<not> jLive j then Inl ErrProject
          else Inr \<lparr>Project = origin_digest ''project'' project, Worktree = origin_digest ''worktree'' worktree,
                    Branch = origin_digest ''branch'' branch, Session = []\<rparr>)))"

text \<open>The origin of a project has no session and consists of digests, so it can name a conversation record.\<close>

lemma project_Resolve_form:
  "project_Resolve j = Inr o1 \<Longrightarrow>
     Session o1 = [] \<and> hex_of_len 32 (Project o1) \<and> hex_of_len 32 (Worktree o1) \<and> hex_of_len 32 (Branch o1)"
  by (auto simp: project_Resolve_def bind_r_Inr_iff origin_digest_def sha256_hex_form split: option.splits if_splits prod.splits)

end
