(* ===== verification/Commands.thy ===== *)
theory Commands
  imports Account_Refresh Routing Wiki_Draft Cli_Record
begin

text \<open>
  The commands of the helper that compose the components: \<^verbatim>\<open>account\<close>, \<^verbatim>\<open>handoff\<close>, \<^verbatim>\<open>checkpoint\<close> and the
  preparation of \<^verbatim>\<open>exec\<close>. Parsed flags are records; directories of the user, the codex executable, the
  identity of the project, opening the ownership store and sampling the quota are answers in an environment.
  The state is the account manager with its vault, the ownership store and the files.
\<close>

section \<open>Account commands\<close>

record account_env =
  aConfigDir :: bool
  aActivity :: lock_files
  aActivityHeld :: bool
  aLock :: lock_files
  aLockHeld :: bool
  aStoreOpens :: "unit res"
  aCodexFound :: bool
  aNow :: time
  aLogin :: login_env
  aOutput :: bool

datatype account_reply =
  AccountStatus "account_status list"
| AccountLogin string "login_state list"
| AccountLogout string

definition account_usage :: "string list \<Rightarrow> go_err option" where
  "account_usage args =
     (if args = [] \<or> hd args \<notin> {''status'', ''login'', ''reauth'', ''logout''} then Some (EOther ''usage: switcher-helper account'')
      else if hd args = ''status'' \<and> length args \<noteq> 1
              \<or> hd args \<noteq> ''status'' \<and> (length args \<noteq> 2 \<or> \<not> slot_valid (args ! 1))
      then Some (EOther ''invalid_account_command'') else None)"

text \<open>Logging out first closes what uses the account; the credentials go last.\<close>

definition account_logout :: "'db conn \<Rightarrow> 'v vault \<Rightarrow> account_env \<Rightarrow> string \<Rightarrow> 'v manager \<Rightarrow> 'db store \<Rightarrow>
    go_err option \<times> 'v manager \<times> 'db store" where
  "account_logout q V env slot m s =
     (case aStoreOpens env of
        Inl e \<Rightarrow> (Some e, m, s)
      | Inr _ \<Rightarrow>
          (case manager_Status V (aNow env) m of
             (Inl e, m1) \<Rightarrow> (Some e, m1, s)
           | (Inr _, m1) \<Rightarrow>
               (case InvalidateSlot q slot s of
                  (Inl e, s1) \<Rightarrow> (Some e, m1, s1)
                | (Inr _, s1) \<Rightarrow> (case Logout V slot m1 of (e, m2) \<Rightarrow> (e, m2, s1)))))"

definition reply_or :: "bool \<Rightarrow> 'a \<Rightarrow> 'a res" where
  "reply_or out x = (if out then Inr x else Inl (EOther ''write error''))"

definition accountCommand :: "'db conn \<Rightarrow> 'v vault \<Rightarrow> account_env \<Rightarrow> string list \<Rightarrow> 'v manager \<Rightarrow> 'db store \<Rightarrow>
    account_reply res \<times> 'v manager \<times> 'db store" where
  "accountCommand q V env args m s =
     (case account_usage args of
        Some e \<Rightarrow> (Inl e, m, s)
      | None \<Rightarrow>
          if \<not> aConfigDir env then (Inl ELockStorage, m, s)
          else if hd args \<noteq> ''status'' \<and> isl (fst (Acquire (aActivity env) (aActivityHeld env)))
          then (Inl (projl (fst (Acquire (aActivity env) (aActivityHeld env)))), m, s)
          else if isl (fst (Acquire (aLock env) (aLockHeld env))) then (Inl (projl (fst (Acquire (aLock env) (aLockHeld env)))), m, s)
          else if hd args = ''logout'' then
            (case account_logout q V env (args ! 1) m s of
               (Some e, m1, s1) \<Rightarrow> (Inl e, m1, s1)
             | (None, m1, s1) \<Rightarrow> (reply_or (aOutput env) (AccountLogout (args ! 1)), m1, s1))
          else if hd args = ''status'' then
            (case manager_Status V (aNow env) m of
               (Inl e, m1) \<Rightarrow> (Inl e, m1, s)
             | (Inr st, m1) \<Rightarrow> (reply_or (aOutput env) (AccountStatus st), m1, s))
          else if \<not> aCodexFound env then (Inl (EOther ''codex_executable_not_found''), m, s)
          else (case (if hd args = ''reauth'' then Reauthenticate V (args ! 1) (aLogin env) m else Login V (args ! 1) (aLogin env) m) of
                  (Some e, st, m1) \<Rightarrow> (Inl e, m1, s)
                | (None, st, m1) \<Rightarrow> (Inr (AccountLogin (args ! 1) st), m1, s)))"

section \<open>Files and store together\<close>

text \<open>A step on the files inside a command that also changes the store.\<close>

record command_env =
  eProject :: "origin res"
  eConfigDir :: bool
  eStoreOpens :: "unit res"
  eHomeDir :: bool
  eBase :: path
  eUserHome :: path
  eDirectory :: path
  eZone :: int
  eNow :: time
  eSamples :: "usage_snapshot list"
  eRandom :: string
  eWritten :: bool

text \<open>The backup in the Codex home of the user.\<close>

definition backupCheckpoint :: "command_env \<Rightarrow> snapshot \<Rightarrow> unit io" where
  "backupCheckpoint env sn =
     (if \<not> eHomeDir env then io_fail ErrPublish else BackupInHome (eUserHome env) (eZone env) sn (eNow env))"

definition conversations :: "command_env \<Rightarrow> path" where
  "conversations env = eBase env @ [''conversations'']"

text \<open>The parts a handoff or checkpoint command begins with: the project, the directories and the store.\<close>

definition command_origin :: "command_env \<Rightarrow> origin res" where
  "command_origin env =
     bind_r (eProject env) (\<lambda>o1. if \<not> eConfigDir env then Inl (EAffinity AffStorage) else
       bind_r (eStoreOpens env) (\<lambda>_. Inr o1))"

section \<open>The handoff command\<close>

record handoff_args =
  hVerb :: string
  hParsed :: bool
  hHandle :: string
  hCheckpoint :: string
  hTarget :: string
  hID :: string
  hBoundary :: bool

datatype handoff_reply =
  HandoffStatus string string string \<comment> \<open>state, identifier and target\<close>
| HandoffCancelled string
| HandoffPrepared string string

definition handoff_usage :: "handoff_args \<Rightarrow> go_err option" where
  "handoff_usage a =
     (if hVerb a \<notin> {''prepare'', ''cancel'', ''status''} then Some (EOther ''usage: handoff'')
      else if \<not> hParsed a \<or> \<not> ValidHandle (hHandle a) then Some ErrRecord
      else if hVerb a = ''prepare'' \<and> (hCheckpoint a = [] \<or> \<not> slot_valid (hTarget a) \<or> \<not> hBoundary a \<or> hID a \<noteq> [])
      then Some (EOther ''handoff_prepare_requires_checkpoint_target_and_boundary'')
      else if hVerb a = ''status'' \<and> (hCheckpoint a = [] \<or> hID a \<noteq> [] \<or> hTarget a \<noteq> [] \<or> hBoundary a)
      then Some (EOther ''handoff_status_requires_checkpoint'')
      else if hVerb a = ''cancel'' \<and> (hID a = [] \<or> hCheckpoint a \<noteq> [] \<or> hTarget a \<noteq> [] \<or> hBoundary a)
      then Some (EOther ''handoff_cancel_requires_id'')
      else None)"

definition handoff_state :: "reservation option \<Rightarrow> handoff_reply" where
  "handoff_state x =
     (case x of None \<Rightarrow> HandoffStatus ''absent'' [] []
      | Some v \<Rightarrow> HandoffStatus (if rConsumedBy v \<noteq> [] then ''consumed'' else ''pending'') (rID v) (rTarget v))"

text \<open>What preparing does to the files: the kept draft is checked and published, backed up and pinned.\<close>

definition handoff_snapshot :: "command_env \<Rightarrow> string \<Rightarrow> cli_record \<Rightarrow> snapshot io" where
  "handoff_snapshot env cp r =
     io_bind (wiki_Recheck (kHome r) (eDirectory env) cp (kOrigin (kData r)) (eNow env)) (\<lambda>sn.
     io_bind (backupCheckpoint env sn) (\<lambda>_.
     io_bind (Pin (eBase env) (eZone env) sn (eNow env)) (\<lambda>_. io_return sn)))"

definition handoff_router :: "command_env \<Rightarrow> 'db store \<Rightarrow> 'db router" where
  "handoff_router env s =
     router_Update (eSamples env) \<lparr>mem_sessions = new_store, disk = Some s, threshold = Fin 90, samples = Map.empty\<rparr>"

definition prepare_handoff :: "'db conn \<Rightarrow> access_source \<Rightarrow> command_env \<Rightarrow> handoff_args \<Rightarrow> cli_record \<Rightarrow> 'db store \<times> files \<Rightarrow>
    handoff_reply res \<times> 'db store \<times> files" where
  "prepare_handoff q acc env a r st =
     (case st of (s, fs) \<Rightarrow>
      case Ready q (kOrigin (kData r)) s of
        (Inl e, s1) \<Rightarrow> (Inl e, s1, fs)
      | (Inr _, s1) \<Rightarrow>
          case CheckpointReserved q (Session (kOrigin (kData r))) (hCheckpoint a) s1 of
            (Inl e, s2) \<Rightarrow> (Inl e, s2, fs)
          | (Inr True, s2) \<Rightarrow> (Inl (EAffinity AffConflict), s2, fs)
          | (Inr False, s2) \<Rightarrow>
              case handoff_snapshot env (hCheckpoint a) r fs of
                (Inl e, fs1) \<Rightarrow> (Inl e, s2, fs1)
              | (Inr sn, fs1) \<Rightarrow>
                  case router_PrepareHandoff q acc (eRandom env) (kOrigin (kData r)) (hTarget a) sn True (eNow env)
                         (handoff_router env s2) of
                    (Inl e, rt) \<Rightarrow> (Inl e, the (disk rt), fs1)
                  | (Inr v, rt) \<Rightarrow> (reply_or (eWritten env) (HandoffPrepared (rID v) (rTarget v)), the (disk rt), fs1))"

definition handoffCommand :: "'db conn \<Rightarrow> access_source \<Rightarrow> command_env \<Rightarrow> handoff_args \<Rightarrow> 'db store \<times> files \<Rightarrow>
    handoff_reply res \<times> 'db store \<times> files" where
  "handoffCommand q acc env a st =
     (case st of (s, fs) \<Rightarrow>
      case handoff_usage a of
        Some e \<Rightarrow> (Inl e, s, fs)
      | None \<Rightarrow>
          case command_origin env of
            Inl e \<Rightarrow> (Inl e, s, fs)
          | Inr o1 \<Rightarrow>
              case load_record (conversations env) (hHandle a) o1 (hVerb a = ''prepare'') fs of
                (Inl e, fs1) \<Rightarrow> (Inl e, s, fs1)
              | (Inr r, fs1) \<Rightarrow>
                  if hVerb a = ''status'' then
                    (case FindHandoff q (kOrigin (kData r)) (hCheckpoint a) s of
                       (Inl e, s1) \<Rightarrow> (Inl e, s1, fs1)
                     | (Inr x, s1) \<Rightarrow> (reply_or (eWritten env) (handoff_state x), s1, fs1))
                  else if hVerb a = ''cancel'' then
                    (case CancelHandoff q (hID a) (kOrigin (kData r)) s of
                       (Inl e, s1) \<Rightarrow> (Inl e, s1, fs1)
                     | (Inr _, s1) \<Rightarrow> (reply_or (eWritten env) (HandoffCancelled (hID a)), s1, fs1))
                  else prepare_handoff q acc env a r (s, fs1))"

section \<open>The checkpoint command\<close>

definition checkpointCommand :: "'db conn \<Rightarrow> command_env \<Rightarrow> bool \<Rightarrow> string \<Rightarrow> string \<Rightarrow> 'db store \<times> files \<Rightarrow>
    snapshot res \<times> 'db store \<times> files" where
  "checkpointCommand q env parsed handle i st =
     (case st of (s, fs) \<Rightarrow>
      if \<not> parsed \<or> \<not> ValidHandle handle \<or> i = [] then (Inl CpMismatch, s, fs)
      else case bind_r (eProject env) (\<lambda>o1. if \<not> eConfigDir env then Inl ErrRecord else bind_r (eStoreOpens env) (\<lambda>_. Inr o1)) of
        Inl e \<Rightarrow> (Inl e, s, fs)
      | Inr o1 \<Rightarrow>
          case LoadForCheckpoint (conversations env) handle o1 fs of
            (Inl e, fs1) \<Rightarrow> (Inl e, s, fs1)
          | (Inr r, fs1) \<Rightarrow>
              case CheckpointReserved q (Session (kOrigin (kData r))) i s of
                (Inl e, s1) \<Rightarrow> (Inl e, s1, fs1)
              | (Inr True, s1) \<Rightarrow> (Inl (EAffinity AffConflict), s1, fs1)
              | (Inr False, s1) \<Rightarrow>
                  case io_bind (wiki_Recheck (kHome r) (eDirectory env) i (kOrigin (kData r)) (eNow env)) (\<lambda>sn.
                         io_bind (backupCheckpoint env sn) (\<lambda>_. io_return sn)) fs1 of
                    (Inl e, fs2) \<Rightarrow> (Inl e, s1, fs2)
                  | (Inr sn, fs2) \<Rightarrow> (reply_or (eWritten env) sn, s1, fs2))"

section \<open>Preparing an execution\<close>

record exec_args =
  xParsed :: bool
  xModel :: string
  xResume :: string
  xHandoffGiven :: bool
  xHandoff :: string
  xWiki :: bool
  xArgs :: "string list"

definition valid_model :: "string \<Rightarrow> bool" where
  "valid_model m \<longleftrightarrow> length m \<le> 100 \<and> \<not> contains_any m [CR, NL, NUL]"

definition exec_usage :: "exec_args \<Rightarrow> go_err option" where
  "exec_usage a =
     (if \<not> xParsed a then Some (EOther ''usage: switcher-helper exec'')
      else if xHandoffGiven a \<and> xHandoff a = [] then Some (EOther ''handoff_id_required'')
      else if xWiki a \<and> (xArgs a \<noteq> [] \<or> xResume a = [])
           \<or> \<not> xWiki a \<and> (length (xArgs a) \<noteq> 1 \<or> trim_space (hd (xArgs a)) = [] \<or> 1048576 < length (hd (xArgs a)))
      then Some (EOther ''usage: switcher-helper exec'')
      else if xResume a \<noteq> [] \<and> (\<not> ValidHandle (xResume a) \<or> xModel a \<noteq> []) then Some ErrRecord
      else if xHandoff a \<noteq> [] \<and> (xResume a \<noteq> [] \<or> xWiki a) then Some (EOther ''handoff_requires_new_conversation'')
      else if \<not> valid_model (xModel a) then Some (EOther ''invalid_model'')
      else None)"

text \<open>The snapshot of the reservation the user named, for this project and not yet consumed.\<close>

definition exec_snapshot :: "'db conn \<Rightarrow> command_env \<Rightarrow> string \<Rightarrow> origin \<Rightarrow> 'db store \<times> files \<Rightarrow> snapshot res \<times> 'db store \<times> files" where
  "exec_snapshot q env i o1 st =
     (case st of (s, fs) \<Rightarrow>
      if i = [] then (Inr empty_snapshot, s, fs)
      else case Handoff q i s of
        (Inl e, s1) \<Rightarrow> (Inl e, s1, fs)
      | (Inr v, s1) \<Rightarrow>
          if rConsumedBy v \<noteq> [] \<or> Project (rSource v) \<noteq> Project o1 \<or> Worktree (rSource v) \<noteq> Worktree o1 \<or> Branch (rSource v) \<noteq> Branch o1
          then (Inl (EAffinity AffConflict), s1, fs)
          else case ReadPin (eBase env) v (eNow env) fs of (x, fs1) \<Rightarrow> (x, s1, fs1))"

text \<open>A resumed conversation must be registered for exactly its origin and ready.\<close>

definition resume_ready :: "'db conn \<Rightarrow> cli_record \<Rightarrow> 'db store \<Rightarrow> unit res \<times> 'db store" where
  "resume_ready q r s =
     (if Session (kOrigin (kData r)) = [] then (Inr (), s)
      else case Lookup q (Session (kOrigin (kData r))) s of
        (Inl _, s1) \<Rightarrow> (Inl ErrRecord, s1)
      | (Inr x, s1) \<Rightarrow> if sOrigin x \<noteq> kOrigin (kData r) then (Inl ErrRecord, s1) else Ready q (sOrigin x) s1)"

definition exec_record :: "command_env \<Rightarrow> exec_args \<Rightarrow> origin \<Rightarrow> cli_record io" where
  "exec_record env a o1 =
     (if xResume a = [] then create_record (conversations env) o1 (xModel a) (eRandom env)
      else Load (conversations env) (xResume a) o1)"

definition exec_binding :: "exec_args \<Rightarrow> origin \<Rightarrow> string \<Rightarrow> string \<Rightarrow> snapshot \<Rightarrow> binding res" where
  "exec_binding a o1 secret thread sn =
     (if xHandoff a \<noteq> [] then NewHandoff True o1 secret (xHandoff a) sn True else binding_New True o1 secret True thread)"

definition exec_prompt :: "exec_args \<Rightarrow> snapshot \<Rightarrow> time \<Rightarrow> string res" where
  "exec_prompt a sn now =
     (let p = (case xArgs a of [] \<Rightarrow> [] | x # _ \<Rightarrow> x) in
      if xHandoff a = [] then Inr p
      else bind_r (HandoffPrompt sn p now) (\<lambda>t. if 1048576 < length t then Inl (EOther ''handoff_prompt_too_large'') else Inr t))"

text \<open>Everything before the process is started: the record, the binding and the prompt. \<open>codex\<close> tells whether
  the executable was found, \<open>polled\<close> whether the first quota samples came before the context ended.\<close>

definition exec_prepare :: "'db conn \<Rightarrow> access_source \<Rightarrow> command_env \<Rightarrow> exec_args \<Rightarrow> bool \<Rightarrow> bool \<Rightarrow> string \<Rightarrow> 'db store \<times> files \<Rightarrow>
    (cli_record \<times> binding \<times> string \<times> 'db router) res \<times> 'db store \<times> files" where
  "exec_prepare q acc env a codex polled secret st =
     (case st of (s, fs) \<Rightarrow>
      case exec_usage a of
        Some e \<Rightarrow> (Inl e, s, fs)
      | None \<Rightarrow>
          case bind_r (eProject env) (\<lambda>o1. if \<not> codex then Inl (EOther ''codex_executable_not_found'')
                 else if \<not> eConfigDir env then Inl (EAffinity AffStorage) else bind_r (eStoreOpens env) (\<lambda>_. Inr o1)) of
            Inl e \<Rightarrow> (Inl e, s, fs)
          | Inr o1 \<Rightarrow>
              case exec_snapshot q env (xHandoff a) o1 (s, fs) of
                (Inl e, s1, fs1) \<Rightarrow> (Inl e, s1, fs1)
              | (Inr sn, s1, fs1) \<Rightarrow>
                  case exec_record env a o1 fs1 of
                    (Inl e, fs2) \<Rightarrow> (Inl e, s1, fs2)
                  | (Inr r, fs2) \<Rightarrow>
                      case resume_ready q r s1 of
                        (Inl e, s2) \<Rightarrow> (Inl e, s2, fs2)
                      | (Inr _, s2) \<Rightarrow>
                          if \<not> polled then (Inl (EOther ''cli_run_failed''), s2, fs2)
                          else let thread = Session (kOrigin (kData r)) in
                            case (if thread = [] then (Inr (), handoff_router env s2)
                                  else case Resolve q acc (kOrigin (kData r)) (eNow env) (handoff_router env s2) of
                                    (Inl e, rt) \<Rightarrow> (Inl e, rt) | (Inr _, rt) \<Rightarrow> (Inr (), rt)) of
                              (Inl e, rt) \<Rightarrow> (Inl e, the (disk rt), fs2)
                            | (Inr _, rt) \<Rightarrow>
                                (bind_r (exec_binding a o1 secret thread sn) (\<lambda>b.
                                 bind_r (exec_prompt a sn (eNow env)) (\<lambda>p. Inr (r, b, p, rt))), the (disk rt), fs2))"

text \<open>The callback of the start event: the binding, then the record, then the session of the router.\<close>

definition exec_started :: "'db conn \<Rightarrow> access_source \<Rightarrow> time \<Rightarrow> string \<Rightarrow> binding \<times> cli_record \<times> 'db router \<Rightarrow> files \<Rightarrow>
    string res \<times> (binding \<times> cli_record \<times> 'db router) \<times> files" where
  "exec_started q acc now i st fs =
     (case st of (b, r, rt) \<Rightarrow>
      case Started q acc now i b rt of
        (Inl e, b1, rt1) \<Rightarrow> (Inl e, (b1, r, rt1), fs)
      | (Inr _, b1, rt1) \<Rightarrow>
          case record_Started i r fs of
            ((Inl e, r1), fs1) \<Rightarrow> (Inl e, (b1, r1, rt1), fs1)
          | ((Inr _, r1), fs1) \<Rightarrow>
              case router_Session q i rt1 of
                (None, rt2) \<Rightarrow> (Inl EBinding, (b1, r1, rt2), fs1)
              | (Some x, rt2) \<Rightarrow> (Inr (Account x), (b1, r1, rt2), fs1))"

text \<open>After a successful run the record becomes resumable only when the store says the conversation is ready.\<close>

definition exec_complete :: "'db conn \<Rightarrow> go_err option \<Rightarrow> cli_record \<Rightarrow> 'db store \<times> files \<Rightarrow> go_err option \<times> cli_record \<times> 'db store \<times> files" where
  "exec_complete q runErr r st =
     (case st of (s, fs) \<Rightarrow>
      case runErr of
        Some e \<Rightarrow> (Some e, r, s, fs)
      | None \<Rightarrow>
          case Ready q (kOrigin (kData r)) s of
            (Inl e, s1) \<Rightarrow> (Some e, r, s1, fs)
          | (Inr _, s1) \<Rightarrow>
              case record_Complete r fs of
                ((Inl e, r1), fs1) \<Rightarrow> (Some e, r1, s1, fs1)
              | ((Inr _, r1), fs1) \<Rightarrow> (None, r1, s1, fs1))"

definition registrationFailureCode :: "go_err \<Rightarrow> go_err" where
  "registrationFailureCode e =
     (case filter (errors_is e) [EAffinity AffStorage, ERouting RtUsageUnavailable, ERouting RtCredentialsUnavailable,
        ERouting RtUnavailable, ERouting RtIdentity] of [] \<Rightarrow> EBinding | k # _ \<Rightarrow> k)"

end
