(* ===== verification/Commands_Props.thy ===== *)
theory Commands_Props
  imports Commands Wiki_Props Routing_Props Affinity_Ownership Account_Safety
begin

text \<open>
  The commands as compositions: logging out closes every conversation of the account before the credentials
  go, and the Wiki an execution hands to a new conversation has the digest of the draft that was on disk when
  the handoff was prepared, whatever happened to the store and the files in between.
\<close>

section \<open>Logout\<close>

lemma status_keeps_registry:
  assumes "keychain_api A item" and "registry_of item m r" and "manager_Status (Keychain A Service) now m = (x, m1)"
  shows "registry_of item m1 r"
proof -
  obtain y m2 where rd: "manager_read (Keychain A Service) m = (y, m2)" by (cases "manager_read (Keychain A Service) m")
  then have "m1 = m2" using assms(3) by (auto simp: manager_Status_def split: sum.splits)
  with vault_laws.read_store [OF keychain_vault [OF assms(1)] rd] assms(2) Account_Vault.holds_view show ?thesis by metis
qed

text \<open>C12: A logout that reports success has removed exactly the slot's account from the Keychain, and after it, over
  any run of the ownership store that does not register the conversation anew, every conversation of that slot
  is refused. A logout that fails has left the registry as it was.\<close>

theorem logout_closes_conversations:
  assumes "keychain_api A item" and "registry_of item m r"
    and "sql_engine q view" and "Affinity_Props.holds view s t"
    and "account_logout q (Keychain A Service) env slot m s = (e, m1, s1)"
    and "row \<in> set (session_rows t)" "r_slot row = slot" "c_string (Session o1) = r_id row"
    and "\<forall>ev\<in>set evs. \<not> creates (r_id row) ev"
  shows "if e = None
    then registry_of item m1 (filter (\<lambda>a. aSlot a \<noteq> slot) r)
      \<and> isl (fst (Ready q o1 (run_events q evs s1))) \<and> isl (fst (BeginWithInputs q o1 refs inputs rnd now (run_events q evs s1)))
    else registry_of item m1 r"
proof (cases "isl (aStoreOpens env)")
  case True
  then show ?thesis using assms(2,5) by (auto simp: account_logout_def split: sum.splits)
next
  case False
  obtain x m2 where st: "manager_Status (Keychain A Service) (aNow env) m = (x, m2)" by fastforce
  note kept = status_keeps_registry [OF assms(1,2) st]
  obtain y s2 where inv: "InvalidateSlot q slot s = (y, s2)" by fastforce
  show ?thesis
  proof (cases "isl x \<or> isl y")
    case True
    then show ?thesis using False assms(5) st inv kept by (auto simp: account_logout_def split: sum.splits)
  next
    case ok: False
    then obtain u where y: "y = Inr u" by (cases y) auto
    have lo: "Logout (Keychain A Service) slot m2 = (e, m1)" and s2: "s1 = s2"
      using False ok assms(5) st inv by (auto simp: account_logout_def split: sum.splits prod.splits)
    note reg = vault_laws.logout_registry [OF keychain_vault [OF assms(1)] lo kept]
    have i: "InvalidateSlot q slot s = (Inr u, s1)" using inv y s2 by simp
    have t1: "Affinity_Props.holds view s1 (drop_handoffs (touches_slot slot t) (block_slot slot t))"
      using invalidate_any [OF assms(3,4) i] by blast
    obtain t2 where t2: "Affinity_Props.holds view (run_events q evs s1) t2" using run_steps [OF assms(3) t1] by blast
    have "stopped (c_string (Session o1)) t2"
      using stopped_run [OF assms(3) t1 t2 invalidated_sessions [OF assms(3,4) i assms(6,7)]] assms(8,9) by simp
    with reg show ?thesis using stopped_refuses [OF assms(3) t2] by simp
  qed
qed

section \<open>A logout that runs\<close>

definition logout_env :: account_env where
  "logout_env = \<lparr>aConfigDir = True, aActivity = \<lparr>dir_made = True, dir_private = True, dir_owned = True, dir_opened = True,
       file_opened = True, file_private = True, file_owned = True, flock_works = True\<rparr>, aActivityHeld = False,
     aLock = \<lparr>dir_made = True, dir_private = True, dir_owned = True, dir_opened = True,
       file_opened = True, file_private = True, file_owned = True, flock_works = True\<rparr>, aLockHeld = False,
     aStoreOpens = Inr (), aCodexFound = True, aNow = 0, aLogin = sample_login, aOutput = True\<rparr>"

lemma sample_logout_run:
  "Logout test_vault ''a'' (test_manager [sample_record False]) = (None, test_manager [])"
proof -
  have e: "fits []" by (rule fits_intro) simp_all
  show ?thesis
    unfolding Logout_def by (simp add: test_read [OF sample_fits] sample_slot) (simp add: sample_defs test_save [OF e])
qed

lemma sample_account_logout:
  "account_logout pure_query test_vault logout_env ''a'' (test_manager [sample_record False]) (Some (sample_tables, None)) =
    (None, test_manager [], snd (InvalidateSlot pure_query ''a'' (Some (sample_tables, None))))"
proof -
  obtain x where "manager_Status test_vault 0 (test_manager [sample_record False]) = (Inr x, test_manager [sample_record False])"
    unfolding manager_Status_def by (simp add: test_read [OF sample_fits])
  moreover have "fst (InvalidateSlot pure_query ''a'' (Some (sample_tables, None))) = Inr ()" by code_simp
  then obtain s1 where "InvalidateSlot pure_query ''a'' (Some (sample_tables, None)) = (Inr (), s1)" by (metis prod.collapse)
  ultimately show ?thesis by (simp add: account_logout_def logout_env_def sample_logout_run)
qed

theorem logout_closes_conversations_witness:
  "isl (fst (Ready pure_query one (run_events pure_query [EGC 8] (snd (InvalidateSlot pure_query ''a'' (Some (sample_tables, None)))))))"
proof -
  have "sample_row \<in> set (session_rows sample_tables)" "r_slot sample_row = ''a''" "c_string (Session one) = r_id sample_row"
    "\<forall>ev\<in>set [EGC 8]. \<not> creates (r_id sample_row) ev"
    by (simp_all add: sample_tables_def sample_row_def one_def c_string_def)
  from logout_closes_conversations [OF test_kc.keychain_api_axioms test_holds [OF sample_fits] engine_axioms(1) sample_holds
    sample_account_logout this]
  show ?thesis by simp
qed

section \<open>Handing over the Wiki\<close>

lemma wiki_Recheck_reads:
  assumes "wiki_Recheck home project i o1 now fs = (Inr sn, fs1)"
  shows "\<exists>b (g :: registration). nodes fs (home @ [''wiki-candidate.md'']) = Some (Regular b) \<and> CheckBytes b (gMetadata g) now = Inr sn
    \<and> ID (gMetadata g) = i \<and> Origin (gMetadata g) = o1"
proof -
  from assms obtain b fs2 where r: "readRegular (home @ [''wiki-request.json'']) 8192 fs = (Inr b, fs2)"
    and rest: "(case Option.bind (json_parse b) read_registration of None \<Rightarrow> io_fail CpMismatch
       | Some g \<Rightarrow>
           if ID (gMetadata g) \<noteq> i \<or> i = [] \<or> Origin (gMetadata g) \<noteq> o1 then io_fail CpMismatch
           else if gState g \<noteq> ''failed'' \<and> gState g \<noteq> ''timed_out'' \<and> gState g \<noteq> ''validated''
           then io_fail (ECheckpoint CpState)
           else io_bind (readRegular (home @ [''wiki-candidate.md'']) MaxBytes) (\<lambda>c.
                io_bind (checked_bytes c (gMetadata g) now) (\<lambda>sn.
                io_bind (publishSnapshot project sn) (\<lambda>_. io_return sn)))) fs2 = (Inr sn, fs1)"
    unfolding wiki_Recheck_def io_bind_Inr by blast
  from rest obtain g where some: "Option.bind (json_parse b) read_registration = Some g"
    by (cases "Option.bind (json_parse b) read_registration") simp_all
  then have g: "ID (gMetadata g) = i \<and> Origin (gMetadata g) = o1" using rest by (simp split: if_split_asm)
  have more: "io_bind (readRegular (home @ [''wiki-candidate.md'']) MaxBytes) (\<lambda>c.
                io_bind (checked_bytes c (gMetadata g) now) (\<lambda>sn.
                io_bind (publishSnapshot project sn) (\<lambda>_. io_return sn))) fs2 = (Inr sn, fs1)"
    using rest some by (simp split: if_split_asm)
  from more obtain c fs3 fs4 where c: "readRegular (home @ [''wiki-candidate.md'']) MaxBytes fs2 = (Inr c, fs3)"
    "checked_bytes c (gMetadata g) now fs3 = (Inr sn, fs4)"
    unfolding io_bind_Inr io_simps by (elim exE conjE) blast
  have "nodes fs (home @ [''wiki-candidate.md'']) = Some (Regular c)"
    using readRegular_Inr [OF r] readRegular_Inr [OF c(1)] by simp
  moreover have "CheckBytes c (gMetadata g) now = Inr sn"
    using c(2) by (auto simp: checked_bytes_def split: sum.splits)
  ultimately show ?thesis using g by blast
qed

lemma ReadPin_sound:
  "ReadPin base v now fs = (Inr sn, fs1) \<Longrightarrow>
     own_digest sn now \<and> ID (Metadata sn) = rCheckpointID v \<and> Origin (Metadata sn) = rSource v \<and> SHA256 sn = rDigest v"
  unfolding ReadPin_def
  by (simp add: io_bind_Inr split: if_splits) (elim exE conjE, simp split: option.splits if_splits)

text \<open>Reading operations of the store leave some tables behind.\<close>

lemma after_event:
  assumes "sql_engine q view" "Affinity_Props.holds view s t" "s1 = snd (aff_exec q ev s)"
  shows "\<exists>t1. Affinity_Props.holds view s1 t1"
  using run_steps [OF assms(1,2), of "[ev]"] assms(3) by (auto simp: run_events_def)

lemma prepare_handoff_parts:
  assumes "prepare_handoff q acc env a r (s, fs) = (Inr reply, s1, fs1)"
  shows "\<exists>s2 s3 sn v rt. Ready q (kOrigin (kData r)) s = (Inr (), s2)
    \<and> CheckpointReserved q (Session (kOrigin (kData r))) (hCheckpoint a) s2 = (Inr False, s3)
    \<and> fst (handoff_snapshot env (hCheckpoint a) r fs) = Inr sn
    \<and> router_PrepareHandoff q acc (eRandom env) (kOrigin (kData r)) (hTarget a) sn True (eNow env) (handoff_router env s3) = (Inr v, rt)
    \<and> s1 = the (disk rt) \<and> reply = HandoffPrepared (rID v) (rTarget v)"
proof -
  obtain x s2 where a1: "Ready q (kOrigin (kData r)) s = (x, s2)" by fastforce
  obtain y s3 where a2: "CheckpointReserved q (Session (kOrigin (kData r))) (hCheckpoint a) s2 = (y, s3)" by fastforce
  obtain z fs2 where a3: "handoff_snapshot env (hCheckpoint a) r fs = (z, fs2)" by fastforce
  have x: "x = Inr ()" and y: "y = Inr False"
    using assms a1 a2 by (auto simp: prepare_handoff_def split: sum.splits bool.splits)
  then obtain sn where z: "z = Inr sn"
    using assms a1 a2 a3 by (auto simp: prepare_handoff_def split: sum.splits)
  obtain w rt where a4: "router_PrepareHandoff q acc (eRandom env) (kOrigin (kData r)) (hTarget a) sn True (eNow env)
      (handoff_router env s3) = (w, rt)" by fastforce
  then obtain v where w: "w = Inr v"
    using assms a1 a2 a3 x y z by (auto simp: prepare_handoff_def split: sum.splits)
  with assms a1 a2 a3 a4 x y z show ?thesis
    by (auto simp: prepare_handoff_def reply_or_def split: if_splits)
qed

lemma exec_snapshot_parts:
  assumes "exec_snapshot q env i o1 (s, fs) = (Inr sn, s1, fs1)" "i \<noteq> []"
  shows "\<exists>v. Handoff q i s = (Inr v, s1) \<and> rConsumedBy v = [] \<and> fst (ReadPin (eBase env) v (eNow env) fs) = Inr sn
    \<and> Project (rSource v) = Project o1 \<and> Worktree (rSource v) = Worktree o1 \<and> Branch (rSource v) = Branch o1"
  using assms by (auto simp: exec_snapshot_def split: sum.splits prod.splits if_splits)

text \<open>C11: The Wiki an execution puts into a new conversation has the digest of the draft that was on disk when the
  handoff was prepared. This holds over any SQL connection and any run of the store in between that does not
  prepare the same identifier again, and whatever happened to the files: the snapshot that is read passes
  \<open>CheckBytes\<close>, carries the checkpoint the user named, and belongs to the same project, worktree and branch.\<close>

theorem handed_over_wiki_is_the_draft:
  assumes "sql_engine q view" and "Affinity_Props.holds view s t"
    and "prepare_handoff q acc env a r (s, fs) = (Inr (HandoffPrepared i tg), s1, fs1)"
    and "\<forall>ev\<in>set evs. \<not> prepares (c_string i) ev"
    and "exec_snapshot q env2 i o1 (run_events q evs s1, fs2) = (Inr sn, s2, fs3)" and "i \<noteq> []"
  shows "\<exists>b. nodes fs (kHome r @ [''wiki-candidate.md'']) = Some (Regular b) \<and> sha256_hex (Markdown sn) = sha256_hex b
    \<and> ID (Metadata sn) = c_string (hCheckpoint a) \<and> is_ok (CheckBytes (Markdown sn) (Metadata sn) (eNow env2))
    \<and> Project (Origin (Metadata sn)) = Project o1 \<and> Worktree (Origin (Metadata sn)) = Worktree o1
    \<and> Branch (Origin (Metadata sn)) = Branch o1"
proof -
  from prepare_handoff_parts [OF assms(3)] obtain s3 s4 sn0 v rt where p:
    "Ready q (kOrigin (kData r)) s = (Inr (), s3)"
    "CheckpointReserved q (Session (kOrigin (kData r))) (hCheckpoint a) s3 = (Inr False, s4)"
    "fst (handoff_snapshot env (hCheckpoint a) r fs) = Inr sn0"
    "router_PrepareHandoff q acc (eRandom env) (kOrigin (kData r)) (hTarget a) sn0 True (eNow env) (handoff_router env s4) = (Inr v, rt)"
    "s1 = the (disk rt)" "HandoffPrepared i tg = HandoffPrepared (rID v) (rTarget v)" by blast
  obtain fs4 where "wiki_Recheck (kHome r) (eDirectory env) (hCheckpoint a) (kOrigin (kData r)) (eNow env) fs = (Inr sn0, fs4)"
    using p(3) by (auto simp: handoff_snapshot_def io_bind_def io_return_def split: prod.splits sum.splits)
  from wiki_Recheck_reads [OF this] obtain b and g :: registration where b: "nodes fs (kHome r @ [''wiki-candidate.md'']) = Some (Regular b)"
    "CheckBytes b (gMetadata g) (eNow env) = Inr sn0" "ID (gMetadata g) = hCheckpoint a" by blast
  note sn0 = CheckBytes_Inr [OF b(2)]
  obtain t3 where t3: "Affinity_Props.holds view s3 t3"
    using after_event [OF assms(1,2), of s3 "EReady (kOrigin (kData r))"] p(1) by (auto simp: val_def)
  obtain t4 where t4: "Affinity_Props.holds view s4 t4"
    using after_event [OF assms(1) t3, of s4 "EReserved (Session (kOrigin (kData r))) (hCheckpoint a)"] p(2) by (auto simp: val_def)
  have "disk (handoff_router env s4) = Some s4" by (simp add: handoff_router_def router_Update_def)
  with prepare_guard [OF p(4)] p(5) have pr:
    "PrepareHandoff q (eRandom env) (kOrigin (kData r)) (hTarget a) (ID (Metadata sn0)) (SHA256 sn0) True (eNow env) s4 = (Inr v, s1)"
    by auto
  have i: "i = eRandom env" using prepare_any [OF assms(1) t4 pr] p(6) by auto
  obtain t5 where t5: "Affinity_Props.holds view (run_events q evs s1) t5"
    and pins: "pins (c_string i) (c_string (ID (Metadata sn0))) (SHA256 sn0) t5"
    using prepared_pins [OF assms(1) t4 pr] assms(4) i by blast
  from exec_snapshot_parts [OF assms(5,6)] obtain v2 where x: "Handoff q i (run_events q evs s1) = (Inr v2, s2)"
    "fst (ReadPin (eBase env2) v2 (eNow env2) fs2) = Inr sn" "Project (rSource v2) = Project o1"
    "Worktree (rSource v2) = Worktree o1" "Branch (rSource v2) = Branch o1" by blast
  from handoff_any [OF assms(1) t5 x(1)] pins have v2: "rCheckpointID v2 = c_string (ID (Metadata sn0))" "rDigest v2 = SHA256 sn0"
    by (auto simp: pins_def)
  obtain fs5 where "ReadPin (eBase env2) v2 (eNow env2) fs2 = (Inr sn, fs5)" using x(2) by (metis prod.collapse)
  note pin = ReadPin_sound [OF this]
  have "sha256_hex (Markdown sn) = sha256_hex b" using pin own_digestD [of sn "eNow env2"] v2(2) sn0 by simp
  moreover have "is_ok (CheckBytes (Markdown sn) (Metadata sn) (eNow env2))"
    using pin by (auto simp: own_digest_def split: sum.splits)
  ultimately show ?thesis using b(1,3) pin v2(1) sn0 x(3-5) by auto
qed

section \<open>A handoff on disk\<close>

definition command_sample :: command_env where
  "command_sample = \<lparr>eProject = Inr (Checkpoint_Props.sample_origin\<lparr>Session := []\<rparr>), eConfigDir = True, eStoreOpens = Inr (), eHomeDir = True,
     eBase = [''base''], eUserHome = [''user''], eDirectory = [''project''], eZone = 0, eNow = 1,
     eSamples = [ok_sample ''a'' 20, ok_sample ''b'' 10], eRandom = ''h'', eWritten = True\<rparr>"

definition kept_request :: string where
  "kept_request = ''{\"metadata\":{\"checkpoint_id\":\"k\",\"origin\":{\"Project\":\"p\",\"Worktree\":\"w\",\"Branch\":\"b\",\"Session\":\"s\"}},\"state\":\"validated\"}''"

definition kept_files :: files where
  "kept_files = \<lparr>nodes = [[''project''] \<mapsto> Directory, [''user''] \<mapsto> Directory, [''base''] \<mapsto> Directory,
     [''home'', ''wiki-request.json''] \<mapsto> Regular kept_request, [''home'', ''wiki-candidate.md''] \<mapsto> Regular Checkpoint_Props.sample_file],
     answers = []\<rparr>"

definition kept_record :: cli_record where
  "kept_record = \<lparr>kHandle = replicate 32 CHR ''0'', kHome = [''home''], kData = empty_data\<lparr>kOrigin := Checkpoint_Props.sample_origin\<rparr>\<rparr>"

definition kept_args :: handoff_args where
  "kept_args = \<lparr>hVerb = ''prepare'', hParsed = True, hHandle = replicate 32 CHR ''0'', hCheckpoint = ''k'', hTarget = ''b'',
     hID = [], hBoundary = True\<rparr>"

definition kept_snapshot :: snapshot where
  "kept_snapshot = \<lparr>Metadata = sample_meta, Markdown = Checkpoint_Props.sample_file, SHA256 = sha256_hex Checkpoint_Props.sample_file, ValidatedAt = 1\<rparr>"

lemma kept_registration:
  "\<exists>g :: registration. Option.bind (json_parse kept_request) read_registration = Some g \<and> gMetadata g = sample_meta \<and> gState g = ''validated''"
proof -
  have "(case Option.bind (json_parse kept_request) read_registration of None \<Rightarrow> False
    | Some (g :: registration) \<Rightarrow> gMetadata g = sample_meta \<and> gState g = ''validated'')" by code_simp
  then show ?thesis by (auto split: option.splits)
qed

lemma kept_own: "own_digest kept_snapshot now"
  using sample_length Checkpoint_Props.sample_valid by (simp add: own_digest_def kept_snapshot_def CheckBytes_def)


lemma kept_check: "CheckBytes Checkpoint_Props.sample_file sample_meta 1 = Inr kept_snapshot"
  using sample_length Checkpoint_Props.sample_valid by (simp add: kept_snapshot_def CheckBytes_def)

lemma kept_meta: "ID sample_meta = ''k''" "Origin sample_meta = Checkpoint_Props.sample_origin" "Origin (Metadata kept_snapshot) = Checkpoint_Props.sample_origin"
  "Metadata kept_snapshot = sample_meta" "Markdown kept_snapshot = Checkpoint_Props.sample_file"
  by (simp_all add: sample_meta_def kept_snapshot_def)

lemma kept_published: "\<exists>fs1. wiki_Recheck [''home''] [''project''] ''k'' Checkpoint_Props.sample_origin 1 kept_files = (Inr kept_snapshot, fs1)
    \<and> nodes fs1 [''user''] = Some Directory \<and> nodes fs1 [''base''] = Some Directory
    \<and> (\<forall>p. hd p = ''user'' \<and> tl p \<noteq> [] \<or> hd p = ''base'' \<and> tl p \<noteq> [] \<longrightarrow> nodes fs1 p = None) \<and> answers fs1 = []"
proof -
  obtain g :: registration where g: "Option.bind (json_parse kept_request) read_registration = Some g" "gMetadata g = sample_meta"
    "gState g = ''validated''" using kept_registration by blast
  have n: "nodes kept_files [''home'', ''wiki-request.json''] = Some (Regular kept_request)"
    "nodes kept_files [''home'', ''wiki-candidate.md''] = Some (Regular Checkpoint_Props.sample_file)" "answers kept_files = []"
    by (simp_all add: kept_files_def)
  have len: "length kept_request \<le> 8192" by (simp add: kept_request_def)
  note rd = readRegular_calm [OF n(1,3) len] readRegular_calm [OF n(2,3) sample_length]
  have parts: "published_parts (Origin (Metadata kept_snapshot)) = [''.codex-switcher'', ''w'', ''b'', ''s'']"
    by (simp add: published_parts_def kept_snapshot_def sample_meta_def Checkpoint_Props.sample_origin_def)
  show ?thesis
    unfolding wiki_Recheck_def
    by (simp add: io_bind_def rd g kept_meta(1,2) checked_bytes_def kept_check publishSnapshot_def parts isolatedDirectory_def
      io_return_def)
      (auto simp: kept_files_def io_bind_def safe_part_def make_dir_def join_part_def get_node_def put_node_def io_return_def
        writeAtomic_def parts)
qed

lemma kept_backed:
  assumes "nodes fs [''user''] = Some Directory" "answers fs = []"
    and free: "\<forall>p. hd p = ''user'' \<and> tl p \<noteq> [] \<longrightarrow> nodes fs p = None"
  shows "\<exists>fs1. backupCheckpoint command_sample kept_snapshot fs = (Inr (), fs1) \<and> (\<forall>p. hd p \<noteq> ''user'' \<longrightarrow> nodes fs1 p = nodes fs p)
    \<and> answers fs1 = []"
proof -
  have o: "Project (Origin (Metadata kept_snapshot)) = ''p''" "Worktree (Origin (Metadata kept_snapshot)) = ''w''"
    "Branch (Origin (Metadata kept_snapshot)) = ''b''" "Session (Origin (Metadata kept_snapshot)) = ''s''"
    by (simp_all add: kept_snapshot_def sample_meta_def Checkpoint_Props.sample_origin_def)
  have none: "nodes fs (''user'' # x # xs) = None" for x xs using free by simp
  show ?thesis
    by (simp add: backupCheckpoint_def command_sample_def BackupInHome_def Backup_def kept_own o Let_def io_bind_def
      isolatedDirectory_def safe_part_def make_dir_def join_part_def get_node_def put_node_def io_return_def assms(1,2) none
      previous_backups_def lstat_exists_def writeAtomic_def)
qed

lemma kept_pinned:
  assumes "nodes fs [''base''] = Some Directory" "answers fs = []"
    and free: "\<forall>p. hd p = ''base'' \<and> tl p \<noteq> [] \<longrightarrow> nodes fs p = None"
  shows "\<exists>fs1. Pin [''base''] 0 kept_snapshot 1 fs = (Inr (), fs1)
    \<and> nodes fs1 (pin_path [''base''] kept_snapshot) = Some (Regular (json_print (snapshot_json 0 kept_snapshot))) \<and> answers fs1 = []"
proof -
  have none: "nodes fs (''base'' # x # xs) = None" for x xs using free by simp
  show ?thesis
    by (simp add: Pin_def kept_own io_bind_def isolatedDirectory_def safe_part_def make_dir_def join_part_def
      get_node_def put_node_def io_return_def lstat_exists_def writeAtomic_def pin_path_def assms(1,2) none)
qed

lemma kept_handoff: "\<exists>fs1. handoff_snapshot command_sample ''k'' kept_record kept_files = (Inr kept_snapshot, fs1)
    \<and> nodes fs1 (pin_path [''base''] kept_snapshot) = Some (Regular (json_print (snapshot_json 0 kept_snapshot))) \<and> answers fs1 = []"
proof -
  obtain fs1 where a: "wiki_Recheck [''home''] [''project''] ''k'' Checkpoint_Props.sample_origin 1 kept_files = (Inr kept_snapshot, fs1)"
    "nodes fs1 [''user''] = Some Directory" "nodes fs1 [''base''] = Some Directory" "answers fs1 = []"
    "\<forall>p. hd p = ''user'' \<and> tl p \<noteq> [] \<or> hd p = ''base'' \<and> tl p \<noteq> [] \<longrightarrow> nodes fs1 p = None"
    using kept_published by blast
  obtain fs2 where b: "backupCheckpoint command_sample kept_snapshot fs1 = (Inr (), fs2)" "\<forall>p. hd p \<noteq> ''user'' \<longrightarrow> nodes fs2 p = nodes fs1 p"
    "answers fs2 = []" using kept_backed [OF a(2,4)] a(5) by blast
  obtain fs3 where c: "Pin [''base''] 0 kept_snapshot 1 fs2 = (Inr (), fs3)"
    "nodes fs3 (pin_path [''base''] kept_snapshot) = Some (Regular (json_print (snapshot_json 0 kept_snapshot)))" "answers fs3 = []"
    using kept_pinned [of fs2] b(2,3) a(3,5) by auto
  have e: "kHome kept_record = [''home'']" "kOrigin (kData kept_record) = Checkpoint_Props.sample_origin" "eDirectory command_sample = [''project'']"
    "eNow command_sample = 1" "eBase command_sample = [''base'']" "eZone command_sample = 0"
    by (simp_all add: kept_record_def command_sample_def)
  show ?thesis
    using c(2,3) by (simp add: handoff_snapshot_def io_bind_def e a(1) b(1) c(1) io_return_def)
qed

lemma kept_store:
  "Ready pure_query Checkpoint_Props.sample_origin (Some (sample_tables, None)) = (Inr (), Some (sample_tables, None))"
  "CheckpointReserved pure_query ''s'' ''k'' (Some (sample_tables, None)) = (Inr False, Some (sample_tables, None))"
  by code_simp+

lemma kept_router: "handoff_router command_sample (Some (sample_tables, None)) = sample_router"
  by (simp add: handoff_router_def command_sample_def router_Update_def sample_router_def update_sample_def ok_sample_def slot_valid_def)

lemma kept_prepare: "\<exists>fs1. prepare_handoff pure_query sample_acc command_sample kept_args kept_record (Some (sample_tables, None), kept_files) =
      (Inr (HandoffPrepared ''h'' ''b''), Some (handed_tables, None), fs1)
    \<and> fst (exec_snapshot pure_query command_sample ''h'' (Checkpoint_Props.sample_origin\<lparr>Session := []\<rparr>) (Some (handed_tables, None), fs1)) = Inr kept_snapshot"
proof -
  obtain fs1 where h: "handoff_snapshot command_sample ''k'' kept_record kept_files = (Inr kept_snapshot, fs1)"
    "nodes fs1 (pin_path [''base''] kept_snapshot) = Some (Regular (json_print (snapshot_json 0 kept_snapshot)))" "answers fs1 = []"
    using kept_handoff by blast
  have e: "kOrigin (kData kept_record) = Checkpoint_Props.sample_origin" "hCheckpoint kept_args = ''k''" "hTarget kept_args = ''b''"
    "eNow command_sample = 1" "eRandom command_sample = ''h''" "eWritten command_sample" "eBase command_sample = [''base'']"
    "Session Checkpoint_Props.sample_origin = ''s''"
    by (simp_all add: kept_record_def kept_args_def command_sample_def Checkpoint_Props.sample_origin_def)
  have d: "disk sample_router = Some (Some (sample_tables, None))" by (simp add: sample_router_def)
  have sh: "SHA256 kept_snapshot = sha256_hex Checkpoint_Props.sample_file" by (simp add: kept_snapshot_def)
  have tg: "target sample_acc sample_router ''b'' 1" using sample_target [of "disk sample_router"] by simp
  have p: "prepare_handoff pure_query sample_acc command_sample kept_args kept_record (Some (sample_tables, None), kept_files) =
      (Inr (HandoffPrepared ''h'' ''b''), Some (handed_tables, None), fs1)"
    by (simp add: prepare_handoff_def e kept_store h(1) kept_router router_PrepareHandoff_def d kept_meta kept_check sh tg
      sample_store_prepare reply_or_def)
  have t: "metadata_text (Metadata kept_snapshot)" "clock_ok 0 (ValidatedAt kept_snapshot)"
    by (simp_all add: metadata_text_def kept_snapshot_def sample_meta_def Checkpoint_Props.sample_origin_def clock_ok_def time_unit_defs)
  have n: "nodes fs1 ([''base''] @ [''handoff-snapshots'', SHA256 kept_snapshot @ ''.json'']) =
      Some (Regular (json_print (snapshot_json 0 kept_snapshot)))" using h(2) by (simp add: pin_path_def)
  have r: "readRegular ([''base''] @ [''handoff-snapshots'', SHA256 kept_snapshot @ ''.json'']) pin_limit fs1 =
      (Inr (json_print (snapshot_json 0 kept_snapshot)), fs1)"
    by (rule readRegular_calm [OF n h(3) snapshot_length [OF kept_own t]])
  have "ReadPin [''base''] \<lparr>rID = ''h'', rSource = Checkpoint_Props.sample_origin, rTarget = ''b'', rCheckpointID = ''k'',
      rDigest = sha256_hex Checkpoint_Props.sample_file, rConsumedBy = []\<rparr> 1 fs1 = (Inr kept_snapshot, fs1)"
    using r pin_readable [OF kept_own t] kept_own
    by (simp add: ReadPin_def io_bind_def io_return_def sh sha256_hex_form kept_meta)
  then have "fst (exec_snapshot pure_query command_sample ''h'' (Checkpoint_Props.sample_origin\<lparr>Session := []\<rparr>) (Some (handed_tables, None), fs1)) = Inr kept_snapshot"
    by (simp add: exec_snapshot_def handed_lookup e)
  with p show ?thesis by blast
qed

theorem handed_over_wiki_is_the_draft_witness:
  "\<exists>b. nodes kept_files [''home'', ''wiki-candidate.md''] = Some (Regular b) \<and> sha256_hex (Markdown kept_snapshot) = sha256_hex b"
proof -
  obtain fs1 where p: "prepare_handoff pure_query sample_acc command_sample kept_args kept_record (Some (sample_tables, None), kept_files) =
      (Inr (HandoffPrepared ''h'' ''b''), Some (handed_tables, None), fs1)"
    "fst (exec_snapshot pure_query command_sample ''h'' (Checkpoint_Props.sample_origin\<lparr>Session := []\<rparr>) (Some (handed_tables, None), fs1)) = Inr kept_snapshot"
    using kept_prepare by blast
  obtain s2 fs3 where x: "exec_snapshot pure_query command_sample ''h'' (Checkpoint_Props.sample_origin\<lparr>Session := []\<rparr>)
      (run_events pure_query [] (Some (handed_tables, None)), fs1) = (Inr kept_snapshot, s2, fs3)"
    using p(2) by (simp add: run_events_def) (metis prod.collapse)
  from handed_over_wiki_is_the_draft [OF engine_axioms(1) sample_holds p(1) _ x] show ?thesis
    by (auto simp: kept_record_def)
qed

end
