(* ===== verification/Probe_Tools.thy ===== *)
theory Probe_Tools
  imports Proxy_Refs Accountslot
begin

text \<open>
  Files \<^verbatim>\<open>probetools.go\<close>, \<^verbatim>\<open>probeimage.go\<close> and the text contract of \<^verbatim>\<open>switchprobe.go\<close>: a request of the shared
  connection is decoded, checked and rewritten before it is sent with the credentials of one account. Complete
  tool pairs are portable, with call identifiers derived afresh for each account; opaque state (compactions,
  reasoning, encrypted messages between agents) stays with the account that produced it. A decoded
  \<^verbatim>\<open>map[string]json.RawMessage\<close> is a member list, of which the last member of a name counts; a normalised body is
  the map \<^verbatim>\<open>json.Marshal\<close> prints.
\<close>

section \<open>Members of an item\<close>

definition probeString :: "item \<Rightarrow> string \<Rightarrow> string" where
  "probeString it k = (case obj_get it k of Some (JStr s) \<Rightarrow> s | _ \<Rightarrow> [])"

definition probeHasString :: "item \<Rightarrow> string \<Rightarrow> bool" where
  "probeHasString it k = (case obj_get it k of Some (JStr s) \<Rightarrow> True | _ \<Rightarrow> False)"

text \<open>The names allowed are the ones that occur between spaces in the list. A nil map and an empty one differ
  here, but both lack the members every caller asks for next.\<close>

definition probeKeys :: "item \<Rightarrow> string \<Rightarrow> bool" where
  "probeKeys it keys = list_all (\<lambda>(k, v). contains ('' '' @ keys @ '' '') ('' '' @ k @ '' '')) it"

definition probeCompleted :: "item \<Rightarrow> bool" where
  "probeCompleted it \<longleftrightarrow>
     obj_get it ''status'' = None \<or> obj_get it ''status'' = Some JNull \<or> probeString it ''status'' = ''completed''"

definition member_del :: "string \<Rightarrow> item \<Rightarrow> item" where
  "member_del k it = filter (\<lambda>(x, v). x \<noteq> k) it"

definition member_set :: "string \<Rightarrow> json \<Rightarrow> item \<Rightarrow> item" where
  "member_set k j it = member_del k it @ [(k, j)]"

definition probePortableCall :: "string \<Rightarrow> string \<Rightarrow> string \<Rightarrow> string" where
  "probePortableCall salt slot c = ''call_'' @ hex_encode (take 16 (sha256 (salt @ [NUL] @ slot @ [NUL] @ c)))"

section \<open>Inline images\<close>

definition std_value :: "char \<Rightarrow> nat option" where
  "std_value c =
     (if 65 \<le> byte c \<and> byte c \<le> 90 then Some (byte c - 65)
      else if 97 \<le> byte c \<and> byte c \<le> 122 then Some (byte c - 71)
      else if 48 \<le> byte c \<and> byte c \<le> 57 then Some (byte c + 4)
      else if c = CHR ''+'' then Some 62 else if c = CHR ''/'' then Some 63 else None)"

text \<open>The strict standard encoding: whole quanta, padding at the end only and no stray bits before it.\<close>

fun base64_strict :: "string \<Rightarrow> bool" where
  "base64_strict [] = True"
| "base64_strict (a # b # c # d # rest) =
     (if c = CHR ''='' then d = CHR ''='' \<and> rest = [] \<and> std_value a \<noteq> None \<and> (case std_value b of None \<Rightarrow> False | Some x \<Rightarrow> x mod 16 = 0)
      else if d = CHR ''='' then rest = [] \<and> std_value a \<noteq> None \<and> std_value b \<noteq> None
             \<and> (case std_value c of None \<Rightarrow> False | Some x \<Rightarrow> x mod 4 = 0)
      else std_value a \<noteq> None \<and> std_value b \<noteq> None \<and> std_value c \<noteq> None \<and> std_value d \<noteq> None \<and> base64_strict rest)"
| "base64_strict _ = False"

definition probeInlineToolImage :: "item \<Rightarrow> bool" where
  "probeInlineToolImage part =
     (if \<not> probeKeys part ''type image_url detail'' \<or> probeString part ''type'' \<noteq> ''input_image'' \<or> \<not> probeHasString part ''image_url''
      then False
      else if obj_get part ''detail'' \<noteq> None \<and> probeString part ''detail'' \<notin> {''auto'', ''low'', ''high'', ''original''} then False
      else if 4194304 < length (probeString part ''image_url'') then False
      else case str_cut '','' (probeString part ''image_url'') of (header, encoded, found) \<Rightarrow>
        if \<not> found \<or> encoded = [] \<or> contains_any encoded [CR, NL] then False
        else if dropWhile (\<lambda>c. c \<noteq> CHR ''='') encoded \<notin> {[], ''='', ''==''} then False
        else if header \<notin> {''data:image/png;base64'', ''data:image/jpeg;base64'', ''data:image/webp;base64'', ''data:image/gif;base64''}
        then False else base64_strict encoded)"

section \<open>Shapes\<close>

definition output_part :: "item \<Rightarrow> bool" where
  "output_part p =
     (if probeString p ''type'' = ''input_image'' then probeInlineToolImage p
      else probeKeys p ''type text'' \<and> (probeString p ''type'' = ''input_text'' \<or> probeString p ''type'' = ''output_text'')
        \<and> probeHasString p ''text'')"

definition probeToolOutput :: "json option \<Rightarrow> bool" where
  "probeToolOutput raw =
     (case raw of Some (JStr s) \<Rightarrow> True
      | _ \<Rightarrow> (case decode_maps raw of None \<Rightarrow> False | Some ps \<Rightarrow> list_all output_part ps))"

definition text_part :: "item \<Rightarrow> bool" where
  "text_part p \<longleftrightarrow> probeKeys p ''type text annotations logprobs'' \<and> probeHasString p ''text''
     \<and> (\<forall>k\<in>{''annotations'', ''logprobs''}. obj_get p k = None \<or> obj_get p k = Some (JArr []))"

definition probeMessageText :: "json option \<Rightarrow> bool" where
  "probeMessageText raw =
     (case raw of Some (JStr s) \<Rightarrow> True
      | _ \<Rightarrow> (case decode_maps raw of None \<Rightarrow> False | Some ps \<Rightarrow> list_all text_part ps))"

definition encrypted_part :: "item \<Rightarrow> bool" where
  "encrypted_part p \<longleftrightarrow> probeString p ''type'' = ''encrypted_content''"

definition agent_part :: "item \<Rightarrow> bool" where
  "agent_part p =
     (if encrypted_part p
      then probeKeys p ''type encrypted_content'' \<and> probeHasString p ''encrypted_content'' \<and> probeString p ''encrypted_content'' \<noteq> []
      else probeKeys p ''type text'' \<and> probeString p ''type'' = ''input_text'' \<and> probeHasString p ''text'')"

definition probeAgentMessage :: "item \<Rightarrow> bool" where
  "probeAgentMessage it \<longleftrightarrow> probeKeys it ''type id author recipient content'' \<and> probeString it ''author'' \<noteq> []
     \<and> probeString it ''recipient'' \<noteq> []
     \<and> (case decode_maps (obj_get it ''content'') of None \<Rightarrow> False | Some ps \<Rightarrow> list_all agent_part ps)"

fun probeToolDefinitions :: "json \<Rightarrow> bool" and tool_definition :: "json \<Rightarrow> bool" where
  "probeToolDefinitions (JArr vs) = list_all tool_definition vs"
| "probeToolDefinitions _ = False"
| "tool_definition (JObj ms) =
     (let kind = probeString ms ''type'' in
      if kind = ''function'' \<or> kind = ''custom'' then probeString ms ''name'' \<noteq> []
      else if kind = ''namespace''
      then probeString ms ''name'' \<noteq> [] \<and> map_of (rev (map (\<lambda>(k, v). (k, probeToolDefinitions v)) ms)) ''tools'' = Some True
      else False)"
| "tool_definition _ = False"

definition tools_member_ok :: "json option \<Rightarrow> bool" where
  "tools_member_ok raw = (case raw of None \<Rightarrow> False | Some j \<Rightarrow> probeToolDefinitions j)"

section \<open>Rejections\<close>

record body_error =
  Reason :: string
  Item :: int
  Part :: int

definition probeCategory :: "string \<Rightarrow> string" where
  "probeCategory v =
     (if v \<in> {''additional_tools'', ''reasoning'', ''item_reference'', ''function_call'', ''function_call_output'', ''input_image'',
              ''input_file'', ''phase'', ''channel'', ''encrypted_content''} then v else ''unknown'')"

text \<open>The type of every part of a message; each part is decoded into a struct. \<open>None\<close>: not a list of objects.\<close>

fun part_type :: "json \<Rightarrow> string option" where
  "part_type (JObj ms) = string_field ''type'' ms"
| "part_type JNull = Some []"
| "part_type _ = None"

fun bad_part :: "nat \<Rightarrow> string list \<Rightarrow> (nat \<times> string) option" where
  "bad_part j [] = None"
| "bad_part j (t # ts) = (if t \<noteq> ''input_text'' \<and> t \<noteq> ''output_text'' then Some (j, t) else bad_part (Suc j) ts)"

text \<open>The first member that a message may not have. Map iteration has no order, so which one is reported is
  not determined; here it is the first in the text.\<close>

definition foreign_key :: "item \<Rightarrow> string option" where
  "foreign_key it =
     (case filter (\<lambda>(k, v). k \<notin> {''type'', ''role'', ''content'', ''id'', ''status'', ''phase''}) it of
        [] \<Rightarrow> None | (k, v) # _ \<Rightarrow> Some k)"

definition probeTextMessage :: "item \<Rightarrow> int \<Rightarrow> body_error option" where
  "probeTextMessage it i =
     (let kind = probeString it ''type''; role = probeString it ''role'';
          bad = (\<lambda>reason part. Some \<lparr>Reason = reason, Item = i, Part = part\<rparr>) in
      if kind \<noteq> [] \<and> kind \<noteq> ''message'' then bad (''item_type_'' @ probeCategory kind) (- 1)
      else if role \<notin> {''user'', ''assistant'', ''system'', ''developer''} then bad ''unsupported_role'' (- 1)
      else if obj_get it ''phase'' \<noteq> None \<and> (role \<noteq> ''assistant'' \<or> probeString it ''phase'' \<notin> {''commentary'', ''final_answer''})
      then bad ''message_phase_invalid'' (- 1)
      else case foreign_key it of
        Some k \<Rightarrow> bad (''message_field_'' @ probeCategory k) (- 1)
      | None \<Rightarrow>
          case obj_get it ''content'' of
            Some (JStr s) \<Rightarrow> None
          | Some JNull \<Rightarrow> None
          | Some (JArr vs) \<Rightarrow>
              (case all_some (map part_type vs) of
                 None \<Rightarrow> bad ''invalid_content_shape'' (- 1)
               | Some ts \<Rightarrow> (case bad_part 0 ts of
                     None \<Rightarrow> None | Some (j, t) \<Rightarrow> bad (''content_type_'' @ probeCategory t) (int j)))
          | _ \<Rightarrow> bad ''invalid_content_shape'' (- 1))"

section \<open>The decoded request\<close>

record tool_input =
  dFields :: "item option"
  dItems :: "item list"
  dParseErr :: "body_error option"
  dPortable :: bool
  dAgentOwner :: "(string \<Rightarrow> bool) option"

definition parseProbeToolInput :: "string \<Rightarrow> tool_input" where
  "parseProbeToolInput body =
     (let fail = (\<lambda>p reason. \<lparr>dFields = p, dItems = [], dParseErr = Some \<lparr>Reason = reason, Item = - 1, Part = - 1\<rparr>,
            dPortable = False, dAgentOwner = None\<rparr>) in
      case json_parse body of
        Some (JObj ms) \<Rightarrow>
          (case decode_maps (obj_get ms ''input'') of
             None \<Rightarrow> fail (Some ms) ''input_not_message_array''
           | Some items \<Rightarrow> \<lparr>dFields = Some ms, dItems = items, dParseErr = None, dPortable = False, dAgentOwner = None\<rparr>)
      | _ \<Rightarrow> fail None ''invalid_json_object'')"

definition compactItems :: "tool_input \<Rightarrow> item list" where
  "compactItems d = filter (\<lambda>it. probeString it ''type'' = ''compaction'') (dItems d)"

definition user_message :: "item \<Rightarrow> bool" where
  "user_message it \<longleftrightarrow> probeString it ''role'' = ''user'' \<and> (probeString it ''type'' = ''message'' \<or> probeString it ''type'' = [])"

definition owner_kinds :: "string list" where
  "owner_kinds = [''reasoning'', ''function_call'', ''custom_tool_call'', ''function_call_output'', ''custom_tool_call_output'']"

definition probeItemsNeedTurnOwner :: "item list \<Rightarrow> bool" where
  "probeItemsNeedTurnOwner items =
     foldl (\<lambda>need it. if probeString it ''type'' \<in> set owner_kinds then True else if user_message it then False else need) False items"

section \<open>Messages between agents\<close>

text \<open>The message a collaboration call hands to another agent; the arguments of the call are JSON themselves.\<close>

definition probeAgentOutputMessage :: "item \<Rightarrow> string" where
  "probeAgentOutputMessage it =
     (if probeString it ''type'' \<noteq> ''function_call'' \<or> \<not> probeCompleted it then []
      else if probeString it ''namespace'' \<notin> {''collaboration'', ''multi_agent_v1''} then []
      else if probeString it ''name'' \<notin> {''spawn_agent'', ''send_message'', ''followup_task''} then []
      else case json_parse (probeString it ''arguments'') of
        Some (JObj args) \<Rightarrow> probeString args ''message''
      | _ \<Rightarrow> [])"

definition agentOwnershipRejection :: "tool_input \<Rightarrow> string \<Rightarrow> string" where
  "agentOwnershipRejection d m =
     (if (case dAgentOwner d of None \<Rightarrow> False | Some f \<Rightarrow> f m) then []
      else if dPortable d then ''agent_message_portable_owner_unavailable'' else ''agent_message_owner_unavailable'')"

text \<open>The encrypted contents of an agent message, in order, and the first one that is not owned.\<close>

definition agent_contents :: "item \<Rightarrow> string list" where
  "agent_contents it =
     (case decode_maps (obj_get it ''content'') of
        None \<Rightarrow> [] | Some ps \<Rightarrow> map (\<lambda>p. probeString p ''encrypted_content'') (filter encrypted_part ps))"

definition agent_rejection :: "tool_input \<Rightarrow> string list \<Rightarrow> string" where
  "agent_rejection d ms = (case filter (\<lambda>m. agentOwnershipRejection d m \<noteq> []) ms of [] \<Rightarrow> [] | m # _ \<Rightarrow> agentOwnershipRejection d m)"

section \<open>Normalisation\<close>

type_synonym owner_check = "(item \<Rightarrow> bool) option"

record norm_context =
  cInput :: tool_input
  cSlot :: string
  cPrevious :: string
  cSalt :: string
  cAllow :: owner_check
  cReasoning :: owner_check
  cLastUser :: nat

record norm_state =
  nResult :: "item list"
  nPending :: "(string \<times> string) list"
  nSeen :: "string set"
  nAgent :: bool

definition portable_here :: "norm_context \<Rightarrow> nat \<Rightarrow> bool" where
  "portable_here c i \<longleftrightarrow> i < cLastUser c \<or> dPortable (cInput c)"

definition remapped :: "norm_context \<Rightarrow> nat \<Rightarrow> item \<Rightarrow> item" where
  "remapped c i it =
     (if portable_here c i
      then member_set ''call_id'' (JStr (probePortableCall (cSalt c) (cSlot c) (probeString it ''call_id''))) it else it)"

text \<open>The end of the loop body: only the account of the turn may go on with its tools.\<close>

definition keep_item :: "norm_context \<Rightarrow> nat \<Rightarrow> bool \<Rightarrow> item \<Rightarrow> norm_state \<Rightarrow> string + norm_state" where
  "keep_item c i tool it st =
     (if \<not> dPortable (cInput c) \<and> cLastUser c < i \<and> tool \<and> cPrevious c \<noteq> cSlot c then Inl ''tool_turn_owner_unavailable''
      else Inr (st\<lparr>nResult := nResult st @ [member_del ''id'' it]\<rparr>))"

definition norm_call :: "norm_context \<Rightarrow> nat \<Rightarrow> string \<Rightarrow> item \<Rightarrow> norm_state \<Rightarrow> string + norm_state" where
  "norm_call c i kind it st =
     (let field = (if kind = ''custom_tool_call'' then ''input'' else ''arguments'');
          m = probeAgentOutputMessage it; k = probeString it ''call_id'' in
      if \<not> probeKeys it (''type id status call_id name namespace '' @ field) \<or> \<not> probeHasString it field
         \<or> probeString it ''name'' = [] \<or> \<not> probeCompleted it then Inl ''tool_call_invalid''
      else if m \<noteq> [] \<and> agentOwnershipRejection (cInput c) m \<noteq> [] then Inl (agentOwnershipRejection (cInput c) m)
      else if k = [] \<or> k \<in> nSeen st then Inl ''tool_call_duplicate_or_missing''
      else keep_item c i True (remapped c i it)
        (st\<lparr>nPending := (k, kind) # nPending st, nSeen := insert k (nSeen st), nAgent := nAgent st \<or> m \<noteq> []\<rparr>))"

definition norm_output :: "norm_context \<Rightarrow> nat \<Rightarrow> string \<Rightarrow> item \<Rightarrow> norm_state \<Rightarrow> string + norm_state" where
  "norm_output c i kind it st =
     (let k = probeString it ''call_id'' in
      if \<not> probeKeys it ''type id status call_id output'' \<or> \<not> probeCompleted it \<or> \<not> probeToolOutput (obj_get it ''output'')
      then Inl ''tool_output_invalid''
      else if (case map_of (nPending st) k of None \<Rightarrow> [] | Some x \<Rightarrow> x) @ ''_output'' \<noteq> kind
      then Inl ''tool_output_orphan_or_duplicate''
      else keep_item c i True (remapped c i it) (st\<lparr>nPending := filter (\<lambda>(x, y). x \<noteq> k) (nPending st)\<rparr>))"

definition norm_reasoning :: "norm_context \<Rightarrow> nat \<Rightarrow> item \<Rightarrow> norm_state \<Rightarrow> string + norm_state" where
  "norm_reasoning c i it st =
     (if \<not> probeKeys it ''type id status summary content encrypted_content'' \<or> \<not> probeCompleted it
         \<or> decode_maps (obj_get it ''summary'') = None
         \<or> obj_get it ''encrypted_content'' \<noteq> None \<and> obj_get it ''encrypted_content'' \<noteq> Some JNull
           \<and> \<not> probeHasString it ''encrypted_content''
      then Inl ''reasoning_shape_unsupported''
      else if portable_here c i then Inr st
      else if cPrevious c = [] \<or> cPrevious c \<noteq> cSlot c then Inl ''reasoning_owner_unavailable''
      else if (case cReasoning c of None \<Rightarrow> False | Some f \<Rightarrow> \<not> f it) then Inl ''reasoning_owner_unavailable''
      else Inr (st\<lparr>nResult := nResult st @ [it]\<rparr>))"

definition norm_item :: "norm_context \<Rightarrow> nat \<Rightarrow> item \<Rightarrow> norm_state \<Rightarrow> string + norm_state" where
  "norm_item c i it st =
     (let kind = probeString it ''type''; d = cInput c in
      if i = cLastUser c \<and> nPending st \<noteq> [] then Inl ''tool_pair_crosses_user_boundary''
      else if kind = ''compaction'' then
        (if dPortable d \<or> (case cAllow c of None \<Rightarrow> True | Some f \<Rightarrow> \<not> f it) then Inl ''compaction_owner_unavailable''
         else Inr (st\<lparr>nResult := nResult st @ [it]\<rparr>))
      else if kind = [] \<or> kind = ''message'' then
        (if probeTextMessage it (int i) \<noteq> None then Inl ''message_shape_unsupported''
         else if \<not> probeMessageText (obj_get it ''content'') then Inl ''message_content_unsupported''
         else keep_item c i False it st)
      else if kind = ''agent_message'' then
        (if \<not> probeAgentMessage it then Inl ''agent_message_shape_unsupported''
         else let r = agent_rejection d (agent_contents it) in
           if r \<noteq> [] then Inl r
           else keep_item c i False it (st\<lparr>nAgent := nAgent st \<or> agent_contents it \<noteq> []\<rparr>))
      else if kind = ''additional_tools'' then
        (if \<not> probeKeys it ''type role id tools'' \<or> \<not> tools_member_ok (obj_get it ''tools'') then Inl ''tool_declaration_unsupported''
         else keep_item c i False it st)
      else if kind = ''function_call'' \<or> kind = ''custom_tool_call'' then norm_call c i kind it st
      else if kind = ''function_call_output'' \<or> kind = ''custom_tool_call_output'' then norm_output c i kind it st
      else if kind = ''reasoning'' then norm_reasoning c i it st
      else Inl ''history_type_unsupported'')"

fun norm_items :: "norm_context \<Rightarrow> nat \<Rightarrow> item list \<Rightarrow> norm_state \<Rightarrow> (string \<times> nat) + norm_state" where
  "norm_items c i [] st = Inr st"
| "norm_items c i (it # its) st =
     (case norm_item c i it st of Inl r \<Rightarrow> Inl (r, i) | Inr st1 \<Rightarrow> norm_items c (Suc i) its st1)"

text \<open>The position of the last message of the user.\<close>

fun last_user :: "nat \<Rightarrow> item list \<Rightarrow> nat option \<Rightarrow> nat option" where
  "last_user i [] found = found"
| "last_user i (it # its) found = last_user (Suc i) its (if user_message it then Some i else found)"

text \<open>What leaves the helper, and what it needs at dispatch: the owner of the turn, the owner of agent messages.\<close>

record normalized =
  zBody :: item
  zItems :: "item list"
  zTurnOwner :: bool
  zAgentOwner :: bool

fun server_reference :: "string list \<Rightarrow> item \<Rightarrow> string option" where
  "server_reference [] p = None"
| "server_reference (k # ks) p =
     (if obj_get p k \<noteq> None \<and> obj_get p k \<noteq> Some JNull \<and> obj_get p k \<noteq> Some (JStr []) then Some (''server_reference_'' @ k)
      else server_reference ks p)"

definition body_bad :: "string \<Rightarrow> int \<Rightarrow> body_error + 'a" where
  "body_bad r i = Inl \<lparr>Reason = r, Item = i, Part = - 1\<rparr>"

definition normalize :: "tool_input \<Rightarrow> string \<Rightarrow> string \<Rightarrow> string \<Rightarrow> owner_check \<Rightarrow> owner_check \<Rightarrow> body_error + normalized" where
  "normalize d slot previousSlot salt allow reasoning =
     (case dFields d of
        None \<Rightarrow> Inl (the (dParseErr d))
      | Some p0 \<Rightarrow>
          case server_reference [''previous_response_id'', ''conversation''] p0 of
            Some r \<Rightarrow> body_bad r (- 1)
          | None \<Rightarrow>
              case dParseErr d of
                Some e \<Rightarrow> Inl e
              | None \<Rightarrow>
                  case last_user 0 (dItems d) None of
                    None \<Rightarrow> body_bad ''user_boundary_missing'' (- 1)
                  | Some u \<Rightarrow>
                      case norm_items \<lparr>cInput = d, cSlot = slot, cPrevious = previousSlot, cSalt = salt, cAllow = allow,
                               cReasoning = reasoning, cLastUser = u\<rparr> 0 (dItems d)
                             \<lparr>nResult = [], nPending = [], nSeen = {}, nAgent = False\<rparr> of
                        Inl (r, i) \<Rightarrow> body_bad r (int i)
                      | Inr st \<Rightarrow>
                          if nPending st \<noteq> [] then body_bad ''tool_output_missing'' (- 1)
                          else let p = member_del ''conversation'' (member_del ''previous_response_id'' p0) in
                            if obj_get p ''tools'' \<noteq> None \<and> \<not> tools_member_ok (obj_get p ''tools'')
                               \<or> obj_get p ''additional_tools'' \<noteq> None \<and> \<not> tools_member_ok (obj_get p ''additional_tools'')
                            then body_bad ''tool_declaration_unsupported'' (- 1)
                            else Inr \<lparr>zBody = member_set ''input'' (JArr (map JObj (nResult st))) p, zItems = nResult st,
                                   zTurnOwner = \<not> dPortable d \<and> probeItemsNeedTurnOwner (nResult st), zAgentOwner = nAgent st\<rparr>)"

end
