(* ===== verification/Probe_Owners.thy ===== *)
theory Probe_Owners
  imports Probe_Tools "HOL-Library.Mapping"
begin

text \<open>
  Files \<^verbatim>\<open>probecompact.go\<close>, \<^verbatim>\<open>probereasoning.go\<close> and \<^verbatim>\<open>probeagentownership.go\<close>: the registries that remember,
  by digests only, which account produced a compaction, a piece of reasoning or a message between agents. A
  \<^verbatim>\<open>[32]byte\<close> is a string of 32 bytes and the zero value marks a credential that is not known. The map from digests
  is a finite one. The lemmas say that a registry permits an item only for the account
  from whose response it was learned, over any run of responses, and that it stays within its capacity.
\<close>

section \<open>Compactions\<close>

type_synonym compact_owner = "string \<times> string" \<comment> \<open>slot and credential\<close>

type_synonym compact_registry = "(string, compact_owner) mapping"

definition probeCompactKey :: "item \<Rightarrow> string option" where
  "probeCompactKey it =
     (if probeString it ''type'' \<noteq> ''compaction'' \<or> \<not> probeKeys it ''type id encrypted_content'' then None
      else let content = probeString it ''encrypted_content'' in
        if content = [] \<or> 4194304 < length content then None
        else if obj_get it ''id'' \<noteq> None \<and> \<not> probeHasString it ''id'' then None
        else Some (sha256 content))"

definition compact_permits :: "compact_registry \<Rightarrow> item \<Rightarrow> string \<Rightarrow> string \<Rightarrow> bool" where
  "compact_permits owners it slot credential \<longleftrightarrow>
     (case probeCompactKey it of None \<Rightarrow> False
      | Some key \<Rightarrow> credential \<noteq> zero_digest \<and> Mapping.lookup owners key = Some (slot, credential))"

text \<open>Decoding members into one struct field of maps, nil at first. A second array is decoded over the elements of
  the first: an object adds its members to the map that stands there. \<open>None\<close> is a type error.\<close>

fun merge_items :: "item list \<Rightarrow> json list \<Rightarrow> item list option" where
  "merge_items old [] = Some []"
| "merge_items old (JNull # vs) = map_option ((#) []) (merge_items (tl old) vs)"
| "merge_items old (JObj ms # vs) = map_option ((#) (case old of [] \<Rightarrow> ms | x # _ \<Rightarrow> x @ ms)) (merge_items (tl old) vs)"
| "merge_items old (_ # vs) = None"

fun decode_items :: "item list option \<Rightarrow> json list \<Rightarrow> item list option option" where
  "decode_items cur [] = Some cur"
| "decode_items cur (JNull # vs) = decode_items None vs"
| "decode_items cur (JArr xs # vs) =
     (case merge_items (case cur of None \<Rightarrow> [] | Some its \<Rightarrow> its) xs of
        None \<Rightarrow> None | Some its \<Rightarrow> decode_items (Some its) vs)"
| "decode_items cur (_ # vs) = None"

text \<open>The output of a compaction response. \<open>None\<close>: not decoded, or nil.\<close>

definition compaction_output :: "string \<Rightarrow> item list option" where
  "compaction_output body =
     (case json_parse body of
        Some (JObj ms) \<Rightarrow>
          (case (string_field ''object'' ms, decode_items None (field_values ''output'' ms)) of
             (Some ob, Some (Some items)) \<Rightarrow> if ob = ''response.compaction'' then Some items else None
           | _ \<Rightarrow> None)
      | _ \<Rightarrow> None)"

definition may_own :: "compact_registry \<Rightarrow> compact_owner \<Rightarrow> item \<Rightarrow> bool" where
  "may_own owners ow it =
     (case probeCompactKey it of None \<Rightarrow> False
      | Some key \<Rightarrow> (case Mapping.lookup owners key of None \<Rightarrow> True | Some x \<Rightarrow> x = ow))"

text \<open>The callback runs once for every compaction of an accepted output, so the keys it collects are theirs.\<close>

definition compact_keys :: "item list \<Rightarrow> string list" where
  "compact_keys items =
     map (\<lambda>it. the (probeCompactKey it)) (filter (\<lambda>it. probeString it ''type'' = ''compaction'') items)"

definition compact_accept :: "string \<Rightarrow> string \<Rightarrow> string \<Rightarrow> compact_registry \<Rightarrow> bool \<times> compact_registry" where
  "compact_accept body slot credential owners =
     (if credential = zero_digest then (False, owners)
      else case compaction_output body of
        None \<Rightarrow> (False, owners)
      | Some items \<Rightarrow>
          let d = \<lparr>dFields = Some [(''input'', JArr (map JObj items))], dItems = items, dParseErr = None, dPortable = False,
                    dAgentOwner = None\<rparr>;
              keys = remdups (compact_keys items) in
          case normalize d slot slot ''compact-validation'' (Some (may_own owners (slot, credential))) None of
            Inl e \<Rightarrow> (False, owners)
          | Inr z \<Rightarrow>
              if keys = [] \<or> 1024 < Mapping.size owners + length keys then (False, owners)
              else (True, foldl (\<lambda>m k. Mapping.update k (slot, credential) m) owners keys))"

section \<open>Reasoning\<close>

record reasoning_owners =
  oCredential :: string
  oBoundary :: string
  oKeys :: "string set"

definition no_reasoning :: reasoning_owners where
  "no_reasoning = \<lparr>oCredential = zero_digest, oBoundary = zero_digest, oKeys = {}\<rparr>"

text \<open>The digest covers the opaque bytes and the identifier; without opaque bytes, everything but the status, each
  member as it stood in the text, without white space. A value of the model does not keep how a string was spelled;
  it is printed the way \<^verbatim>\<open>encoding/json\<close> spells it, so spellings the code tells apart are one here.\<close>

fun raw_print :: "json \<Rightarrow> string" where
  "raw_print JNull = ''null''"
| "raw_print (JBool b) = (if b then ''true'' else ''false'')"
| "raw_print (JNum s) = s"
| "raw_print (JStr s) = json_quote s"
| "raw_print (JArr vs) = ''['' @ commas (map raw_print vs) @ '']''"
| "raw_print (JObj ms) = ''{'' @ commas (map (\<lambda>(k, t). json_quote k @ '':'' @ t) (map (\<lambda>(k, v). (k, raw_print v)) ms)) @ ''}''"

definition raw_map_print :: "item \<Rightarrow> string" where
  "raw_map_print it = ''{'' @ commas (map (\<lambda>(k, t). json_quote k @ '':'' @ t)
     (sort_key fst (last_members (map (\<lambda>(k, v). (k, raw_print v)) it)))) @ ''}''"

definition probeReasoningKey :: "item \<Rightarrow> string" where
  "probeReasoningKey it =
     (if probeString it ''encrypted_content'' \<noteq> []
      then sha256 (json_marshal (JArr [JStr ''encrypted'', JStr (probeString it ''id''), JStr (probeString it ''encrypted_content'')]))
      else sha256 (raw_map_print (member_del ''status'' it)))"

definition reasoning_permits :: "reasoning_owners \<Rightarrow> item \<Rightarrow> string \<Rightarrow> bool" where
  "reasoning_permits o1 it credential \<longleftrightarrow>
     credential \<noteq> zero_digest \<and> credential = oCredential o1 \<and> probeReasoningKey it \<in> oKeys o1"

definition reasoning_accept :: "string set \<Rightarrow> string \<Rightarrow> string \<Rightarrow> reasoning_owners \<Rightarrow> bool \<times> reasoning_owners" where
  "reasoning_accept keys credential boundary o1 =
     (let next1 = (if oCredential o1 = credential \<and> oBoundary o1 = boundary then oKeys o1 else {}) \<union> keys in
      if 1024 < card next1 \<or> next1 \<noteq> {} \<and> credential = zero_digest then (False, o1)
      else (True, \<lparr>oCredential = credential, oBoundary = boundary, oKeys = next1\<rparr>))"

section \<open>Messages between agents\<close>

definition probeAgentOwnerLimit :: nat where "probeAgentOwnerLimit = 1024"

type_synonym agent_owners = "(string \<times> string) set" \<comment> \<open>digest of the message and credential\<close>

definition agent_permits :: "agent_owners \<Rightarrow> string \<Rightarrow> string \<Rightarrow> bool" where
  "agent_permits o1 content credential \<longleftrightarrow> content \<noteq> [] \<and> credential \<noteq> zero_digest \<and> (sha256 content, credential) \<in> o1"

definition agent_accept :: "string set \<Rightarrow> string \<Rightarrow> agent_owners \<Rightarrow> bool \<times> agent_owners" where
  "agent_accept ms credential o1 =
     (if ms = {} then (True, o1)
      else if credential = zero_digest then (False, o1)
      else if probeAgentOwnerLimit < card o1 + card {m \<in> ms. (m, credential) \<notin> o1} then (False, o1)
      else (True, o1 \<union> (\<lambda>m. (m, credential)) ` ms))"

section \<open>The registries of one connection\<close>

record owners =
  gCompact :: compact_registry
  gReasoning :: reasoning_owners
  gAgent :: agent_owners

definition no_owners :: owners where
  "no_owners = \<lparr>gCompact = Mapping.empty, gReasoning = no_reasoning, gAgent = {}\<rparr>"

text \<open>A compaction response is accepted for the slot and the credential in use, and with it its reasoning; a
  streamed turn that ended well records its reasoning, then its messages (closure \<open>validateCompact\<close> and the end of
  the request in \<^verbatim>\<open>switchprobe.go\<close>, without the checkpoint that follows).\<close>

definition response_reasoning :: "item list \<Rightarrow> string set" where
  "response_reasoning items = probeReasoningKey ` set (filter (\<lambda>it. probeString it ''type'' = ''reasoning'') items)"

definition validateCompact :: "string \<Rightarrow> string \<Rightarrow> string \<Rightarrow> string \<Rightarrow> owners \<Rightarrow> bool \<times> owners" where
  "validateCompact body slot cred boundary g =
     (case compact_accept body slot cred (gCompact g) of (ok, m) \<Rightarrow>
        if \<not> ok then (False, g)
        else let items = (case compaction_output body of None \<Rightarrow> [] | Some its \<Rightarrow> its) in
          case reasoning_accept (response_reasoning items) cred boundary (gReasoning g) of (ok1, r) \<Rightarrow>
            (ok1, g\<lparr>gCompact := m, gReasoning := r\<rparr>))"

definition turn_ended :: "string set \<Rightarrow> string set \<Rightarrow> string \<Rightarrow> string \<Rightarrow> owners \<Rightarrow> string \<times> owners" where
  "turn_ended keys ms cred boundary g =
     (case reasoning_accept keys cred boundary (gReasoning g) of (ok, r) \<Rightarrow>
        if \<not> ok then (''probe_reasoning_ownership_unavailable'', g)
        else case agent_accept ms cred (gAgent g) of (ok1, a) \<Rightarrow>
          (if ok1 then [] else ''agent_message_owner_unavailable'', g\<lparr>gReasoning := r, gAgent := a\<rparr>))"

datatype learned =
  Compacted string string string string \<comment> \<open>body, slot, credential, boundary\<close>
| TurnEnded "string set" "string set" string string \<comment> \<open>reasoning, messages, credential, boundary\<close>

fun learn :: "learned \<Rightarrow> owners \<Rightarrow> owners" where
  "learn (Compacted body slot cred boundary) g = snd (validateCompact body slot cred boundary g)"
| "learn (TurnEnded keys ms cred boundary) g = snd (turn_ended keys ms cred boundary g)"

definition learn_all :: "learned list \<Rightarrow> owners \<Rightarrow> owners" where
  "learn_all evs g = foldl (\<lambda>g ev. learn ev g) g evs"

lemma learn_all_snoc [simp]: "learn_all (evs @ [ev]) g = learn ev (learn_all evs g)"
  by (simp add: learn_all_def)

lemma learn_all_Nil [simp]: "learn_all [] g = g"
  by (simp add: learn_all_def)

lemma compact_updates: "Mapping.lookup (foldl (\<lambda>m k. Mapping.update k x m) m0 ks) = (\<lambda>k. if k \<in> set ks then Some x else Mapping.lookup m0 k)"
  by (induction ks arbitrary: m0) (auto simp: lookup_update')

text \<open>The loop of a normalisation that succeeds.\<close>

lemma normalize_loop:
  assumes "normalize d slot prev salt allow reasoning = Inr z"
  shows "\<exists>u st p. last_user 0 (dItems d) None = Some u
    \<and> norm_items \<lparr>cInput = d, cSlot = slot, cPrevious = prev, cSalt = salt, cAllow = allow, cReasoning = reasoning, cLastUser = u\<rparr> 0
        (dItems d) \<lparr>nResult = [], nPending = [], nSeen = {}, nAgent = False\<rparr> = Inr st
    \<and> nPending st = [] \<and> zItems z = nResult st \<and> zAgentOwner z = nAgent st
    \<and> zTurnOwner z = (\<not> dPortable d \<and> probeItemsNeedTurnOwner (nResult st)) \<and> dFields d = Some p
    \<and> zBody z = member_set ''input'' (JArr (map JObj (nResult st))) (member_del ''conversation'' (member_del ''previous_response_id'' p))"
proof -
  obtain p where p: "dFields d = Some p" using assms by (cases "dFields d") (simp_all add: normalize_def)
  have "server_reference [''previous_response_id'', ''conversation''] p = None"
    using assms p by (cases "server_reference [''previous_response_id'', ''conversation''] p") (simp_all add: normalize_def body_bad_def)
  moreover from this have "dParseErr d = None" using assms p by (cases "dParseErr d") (simp_all add: normalize_def)
  moreover from calculation obtain u where u: "last_user 0 (dItems d) None = Some u"
    using assms p by (cases "last_user 0 (dItems d) None") (simp_all add: normalize_def body_bad_def)
  moreover obtain st where st: "norm_items \<lparr>cInput = d, cSlot = slot, cPrevious = prev, cSalt = salt, cAllow = allow, cReasoning = reasoning, cLastUser = u\<rparr> 0
        (dItems d) \<lparr>nResult = [], nPending = [], nSeen = {}, nAgent = False\<rparr> = Inr st"
    using assms p calculation
    by (cases "norm_items \<lparr>cInput = d, cSlot = slot, cPrevious = prev, cSalt = salt, cAllow = allow, cReasoning = reasoning, cLastUser = u\<rparr> 0
        (dItems d) \<lparr>nResult = [], nPending = [], nSeen = {}, nAgent = False\<rparr>") (auto simp: normalize_def body_bad_def)
  ultimately show ?thesis using assms p by (auto simp: normalize_def body_bad_def Let_def split: if_splits)
qed

text \<open>An accepted response owns exactly its compactions, and takes none from another owner.\<close>

lemma norm_items_allow:
  "norm_items c i its st = Inr st1 \<Longrightarrow> it \<in> set its \<Longrightarrow> probeString it ''type'' = ''compaction'' \<Longrightarrow> \<exists>f. cAllow c = Some f \<and> f it"
proof (induction its arbitrary: i st)
  case (Cons x its)
  from Cons.prems(1) obtain s where s: "norm_item c i x st = Inr s" "norm_items c (Suc i) its s = Inr st1"
    by (auto split: sum.splits)
  show ?case
  proof (cases "x = it")
    case True
    with s(1) Cons.prems(3) show ?thesis by (auto simp: norm_item_def Let_def split: if_splits option.splits)
  next
    case False
    with Cons.IH [OF s(2)] Cons.prems(2,3) show ?thesis by simp
  qed
qed simp

lemma compact_accept_effect:
  assumes "compact_accept body slot cred m = (ok, m1)" "ok"
  shows "\<exists>items. compaction_output body = Some items \<and> cred \<noteq> zero_digest
    \<and> Mapping.lookup m1 = (\<lambda>k. if k \<in> set (compact_keys items) then Some (slot, cred) else Mapping.lookup m k)
    \<and> (\<forall>k\<in>set (compact_keys items). Mapping.lookup m k = None \<or> Mapping.lookup m k = Some (slot, cred))
    \<and> (\<forall>it\<in>set items. probeString it ''type'' = ''compaction'' \<longrightarrow> probeCompactKey it \<noteq> None)
    \<and> Mapping.size m + card (set (compact_keys items)) \<le> 1024"
proof -
  have cred: "cred \<noteq> zero_digest" using assms by (auto simp: compact_accept_def)
  then obtain items where items: "compaction_output body = Some items"
    using assms by (cases "compaction_output body") (simp_all add: compact_accept_def)
  define d where "d = \<lparr>dFields = Some [(''input'', JArr (map JObj items))], dItems = items, dParseErr = None, dPortable = False,
                    dAgentOwner = None :: (string \<Rightarrow> bool) option\<rparr>"
  have run: "compact_accept body slot cred m =
      (case normalize d slot slot ''compact-validation'' (Some (may_own m (slot, cred))) None of
         Inl e \<Rightarrow> (False, m)
       | Inr z \<Rightarrow> if remdups (compact_keys items) = [] \<or> 1024 < Mapping.size m + length (remdups (compact_keys items)) then (False, m)
           else (True, foldl (\<lambda>m k. Mapping.update k (slot, cred) m) m (remdups (compact_keys items))))"
    using cred items by (simp add: compact_accept_def Let_def d_def)
  obtain z where z: "normalize d slot slot ''compact-validation'' (Some (may_own m (slot, cred))) None = Inr z"
    using assms run by (cases "normalize d slot slot ''compact-validation'' (Some (may_own m (slot, cred))) None") simp_all
  have cap: "Mapping.size m + length (remdups (compact_keys items)) \<le> 1024"
    and m1: "m1 = foldl (\<lambda>m k. Mapping.update k (slot, cred) m) m (remdups (compact_keys items))"
    using assms run z by (auto split: if_splits)
  have al: "may_own m (slot, cred) it" if "it \<in> set items" "probeString it ''type'' = ''compaction''" for it
  proof -
    obtain c i st st1 where "norm_items c i items st = Inr st1" "cAllow c = Some (may_own m (slot, cred))"
      using normalize_loop [OF z] by (auto simp: d_def)
    with norm_items_allow that show ?thesis by (metis option.inject)
  qed
  then have "\<forall>it\<in>set items. probeString it ''type'' = ''compaction'' \<longrightarrow> probeCompactKey it \<noteq> None"
    by (fastforce simp: may_own_def split: option.splits)
  moreover have "\<forall>k\<in>set (compact_keys items). Mapping.lookup m k = None \<or> Mapping.lookup m k = Some (slot, cred)"
  proof
    fix k assume "k \<in> set (compact_keys items)"
    then obtain it where "it \<in> set items" "probeString it ''type'' = ''compaction''" "k = the (probeCompactKey it)"
      by (auto simp: compact_keys_def)
    with al [of it] show "Mapping.lookup m k = None \<or> Mapping.lookup m k = Some (slot, cred)" by (auto simp: may_own_def split: option.splits)
  qed
  ultimately show ?thesis
    using cred items cap by (auto simp: m1 compact_updates length_remdups_card_conv)
qed

lemma compact_accept_refused: "compact_accept body slot cred m = (ok, m1) \<Longrightarrow> \<not> ok \<Longrightarrow> m1 = m"
  unfolding compact_accept_def Let_def by (simp split: if_splits option.splits sum.splits)

section \<open>What one event changes\<close>

lemma reasoning_accept_cases:
  assumes "reasoning_accept keys c b o1 = (ok, o2)"
  shows "o2 = (if ok then \<lparr>oCredential = c, oBoundary = b, oKeys = (if oCredential o1 = c \<and> oBoundary o1 = b then oKeys o1 else {}) \<union> keys\<rparr>
      else o1) \<and> (ok \<longrightarrow> card (oKeys o2) \<le> 1024)"
  using assms unfolding reasoning_accept_def Let_def by (auto split: if_split_asm)

lemma agent_accept_cases:
  assumes "agent_accept ms c o1 = (ok, o2)"
  shows "o2 = o1 \<or> c \<noteq> zero_digest \<and> o2 = o1 \<union> (\<lambda>m. (m, c)) ` ms"
  using assms by (auto simp: agent_accept_def split: if_split_asm)

lemma learn_compact:
  "gCompact (learn (Compacted body s c b) g) = snd (compact_accept body s c (gCompact g))"
  "gCompact (learn (TurnEnded keys ms c b) g) = gCompact g"
proof -
  obtain ok m where "compact_accept body s c (gCompact g) = (ok, m)" by fastforce
  with compact_accept_refused [OF this] show "gCompact (learn (Compacted body s c b) g) = snd (compact_accept body s c (gCompact g))"
    by (cases ok) (simp_all add: validateCompact_def Let_def split: prod.splits)
qed (simp add: turn_ended_def split: prod.splits)

lemma learn_agent:
  "gAgent (learn (Compacted body s c b) g) = gAgent g"
  "gAgent (learn (TurnEnded keys ms c b) g) = gAgent g \<or> gAgent (learn (TurnEnded keys ms c b) g) = snd (agent_accept ms c (gAgent g))"
  by (auto simp: validateCompact_def turn_ended_def Let_def split: prod.splits)

text \<open>The reasoning an event brings.\<close>

fun brings :: "learned \<Rightarrow> (string set \<times> string \<times> string) option" where
  "brings (Compacted body s c b) = (case compaction_output body of None \<Rightarrow> None | Some items \<Rightarrow> Some (response_reasoning items, c, b))"
| "brings (TurnEnded keys ms c b) = Some (keys, c, b)"

lemma learn_reasoning:
  "gReasoning (learn ev g) = gReasoning g
     \<or> (\<exists>keys c b. brings ev = Some (keys, c, b) \<and> gReasoning (learn ev g) = snd (reasoning_accept keys c b (gReasoning g)))"
proof (cases ev)
  case (Compacted body s c b)
  obtain ok m where a: "compact_accept body s c (gCompact g) = (ok, m)" by fastforce
  show ?thesis
  proof (cases ok)
    case True
    from compact_accept_effect [OF a True] obtain items where "compaction_output body = Some items" by blast
    with Compacted a True show ?thesis by (simp add: validateCompact_def split: prod.splits)
  qed (use Compacted a in \<open>simp add: validateCompact_def\<close>)
next
  case (TurnEnded keys ms c b)
  then show ?thesis by (auto simp: turn_ended_def split: prod.splits)
qed

section \<open>What the registries guarantee\<close>

text \<open>Every entry was learned from a response of the account that owns it.\<close>

definition learned_compact :: "learned list \<Rightarrow> string \<Rightarrow> string \<Rightarrow> string \<Rightarrow> bool" where
  "learned_compact evs key slot cred \<longleftrightarrow>
     (\<exists>body b items. Compacted body slot cred b \<in> set evs \<and> compaction_output body = Some items \<and> key \<in> set (compact_keys items))"

lemma compact_learned:
  "Mapping.lookup (gCompact (learn_all evs no_owners)) key = Some (slot, cred) \<Longrightarrow> cred \<noteq> zero_digest \<and> learned_compact evs key slot cred"
proof (induction evs rule: rev_induct)
  case Nil
  then show ?case by (simp add: no_owners_def)
next
  case (snoc ev evs)
  let ?g = "learn_all evs no_owners"
  have old: "cred \<noteq> zero_digest \<and> learned_compact (evs @ [ev]) key slot cred" if "Mapping.lookup (gCompact ?g) key = Some (slot, cred)"
    using snoc.IH [OF that] by (auto simp: learned_compact_def)
  show ?case
  proof (cases ev)
    case (Compacted body s c b)
    obtain ok m1 where a: "compact_accept body s c (gCompact ?g) = (ok, m1)" by fastforce
    have now: "Mapping.lookup m1 key = Some (slot, cred)" using snoc.prems Compacted a learn_compact(1) [of body s c b ?g] by simp
    show ?thesis
    proof (cases ok)
      case True
      from compact_accept_effect [OF a True] obtain items where i: "compaction_output body = Some items" "c \<noteq> zero_digest"
        "Mapping.lookup m1 = (\<lambda>k. if k \<in> set (compact_keys items) then Some (s, c) else Mapping.lookup (gCompact ?g) k)" by blast
      show ?thesis
      proof (cases "key \<in> set (compact_keys items)")
        case True
        with now i have "s = slot" "c = cred" by simp_all
        with i True Compacted show ?thesis unfolding learned_compact_def by fastforce
      next
        case False
        with now i old show ?thesis by simp
      qed
    next
      case False
      with compact_accept_refused [OF a] now old show ?thesis by simp
    qed
  next
    case (TurnEnded keys ms c b)
    with snoc.prems old learn_compact(2) [of keys ms c b ?g] show ?thesis by simp
  qed
qed

text \<open>An owner never changes.\<close>

lemma compact_owner_stays:
  assumes "Mapping.lookup (gCompact g) key = Some ow"
  shows "Mapping.lookup (gCompact (learn_all evs g)) key = Some ow"
proof (induction evs rule: rev_induct)
  case (snoc ev evs)
  let ?g = "learn_all evs g"
  show ?case
  proof (cases ev)
    case (Compacted body s c b)
    obtain ok m1 where a: "compact_accept body s c (gCompact ?g) = (ok, m1)" by fastforce
    have "Mapping.lookup m1 key = Some ow"
    proof (cases ok)
      case True
      from compact_accept_effect [OF a True] snoc.IH show ?thesis by fastforce
    next
      case False
      with compact_accept_refused [OF a] snoc.IH show ?thesis by simp
    qed
    with Compacted a learn_compact(1) [of body s c b ?g] show ?thesis by simp
  next
    case (TurnEnded keys ms c b)
    with snoc.IH learn_compact(2) [of keys ms c b ?g] show ?thesis by simp
  qed
qed (use assms in simp)

text \<open>The other two registries.\<close>

definition learned_reasoning :: "learned list \<Rightarrow> string \<Rightarrow> string \<Rightarrow> bool" where
  "learned_reasoning evs key cred \<longleftrightarrow> (\<exists>ev\<in>set evs. \<exists>keys b. brings ev = Some (keys, cred, b) \<and> key \<in> keys)"

definition learned_message :: "learned list \<Rightarrow> string \<Rightarrow> string \<Rightarrow> bool" where
  "learned_message evs m cred \<longleftrightarrow> (\<exists>keys ms b. TurnEnded keys ms cred b \<in> set evs \<and> m \<in> ms)"

lemma reasoning_learned:
  "key \<in> oKeys (gReasoning (learn_all evs no_owners)) \<Longrightarrow>
     learned_reasoning evs key (oCredential (gReasoning (learn_all evs no_owners)))"
proof (induction evs rule: rev_induct)
  case Nil
  then show ?case by (simp add: no_owners_def no_reasoning_def)
next
  case (snoc ev evs)
  let ?r = "gReasoning (learn_all evs no_owners)"
  have more: "learned_reasoning (evs @ [ev]) k x" if "learned_reasoning evs k x" for k x
    using that by (auto simp: learned_reasoning_def)
  from learn_reasoning [of ev "learn_all evs no_owners"] show ?case
  proof (elim disjE exE conjE)
    assume "gReasoning (learn ev (learn_all evs no_owners)) = ?r"
    with snoc more show ?thesis by simp
  next
    fix keys c b assume br: "brings ev = Some (keys, c, b)"
      and r: "gReasoning (learn ev (learn_all evs no_owners)) = snd (reasoning_accept keys c b ?r)"
    obtain ok o2 where a: "reasoning_accept keys c b ?r = (ok, o2)" by fastforce
    have now: "learned_reasoning (evs @ [ev]) key c" if "key \<in> keys" using that br by (auto simp: learned_reasoning_def)
    have new: "gReasoning (learn_all (evs @ [ev]) no_owners) = o2" using r a by simp
    show ?thesis
    proof (cases "ok \<and> \<not> (oCredential ?r = c \<and> oBoundary ?r = b \<and> key \<in> oKeys ?r)")
      case True
      with reasoning_accept_cases [OF a] have o2: "oCredential o2 = c" "oKeys o2 = (if oCredential ?r = c \<and> oBoundary ?r = b then oKeys ?r else {}) \<union> keys"
        by simp_all
      with True new snoc.prems have "key \<in> keys" by (auto split: if_splits)
      with now o2 new show ?thesis by simp
    next
      case False
      with reasoning_accept_cases [OF a] have "oCredential o2 = oCredential ?r" "ok \<or> o2 = ?r" by (auto split: if_splits)
      with False new snoc more show ?thesis by auto
    qed
  qed
qed

lemma message_learned: "(m, cred) \<in> gAgent (learn_all evs no_owners) \<Longrightarrow> cred \<noteq> zero_digest \<and> learned_message evs m cred"
proof (induction evs rule: rev_induct)
  case Nil
  then show ?case by (simp add: no_owners_def)
next
  case (snoc ev evs)
  let ?g = "learn_all evs no_owners"
  have old: "cred \<noteq> zero_digest \<and> learned_message (evs @ [ev]) m cred" if "(m, cred) \<in> gAgent ?g"
    using snoc.IH [OF that] by (auto simp: learned_message_def)
  show ?case
  proof (cases ev)
    case (Compacted body s c b)
    with snoc.prems old learn_agent(1) [of body s c b ?g] show ?thesis by simp
  next
    case (TurnEnded keys ms c b)
    obtain ok a where a: "agent_accept ms c (gAgent ?g) = (ok, a)" by fastforce
    from learn_agent(2) [of keys ms c b ?g] agent_accept_cases [OF a] snoc.prems TurnEnded a old
    show ?thesis by (auto simp: learned_message_def)
  qed
qed

text \<open>Capacity: no registry outgrows 1024 entries.\<close>

definition bounded :: "owners \<Rightarrow> bool" where
  "bounded g \<longleftrightarrow> finite (Mapping.keys (gCompact g)) \<and> Mapping.size (gCompact g) \<le> 1024 \<and> card (oKeys (gReasoning g)) \<le> 1024
     \<and> finite (gAgent g) \<and> card (gAgent g) \<le> probeAgentOwnerLimit"

fun finite_event :: "learned \<Rightarrow> bool" where
  "finite_event (TurnEnded keys ms c b) = finite ms"
| "finite_event _ = True"

lemma agent_accept_bounded:
  assumes "finite o1" "card o1 \<le> probeAgentOwnerLimit" "finite ms"
  shows "finite (snd (agent_accept ms c o1)) \<and> card (snd (agent_accept ms c o1)) \<le> probeAgentOwnerLimit"
proof -
  have "o1 \<union> (\<lambda>m. (m, c)) ` ms = o1 \<union> (\<lambda>m. (m, c)) ` {m \<in> ms. (m, c) \<notin> o1}" by auto
  moreover have "card (o1 \<union> (\<lambda>m. (m, c)) ` {m \<in> ms. (m, c) \<notin> o1}) \<le> card o1 + card {m \<in> ms. (m, c) \<notin> o1}"
    by (rule order_trans [OF card_Un_le]) (simp add: card_image_le assms(3))
  ultimately have "card (o1 \<union> (\<lambda>m. (m, c)) ` ms) \<le> card o1 + card {m \<in> ms. (m, c) \<notin> o1}" by simp
  with assms show ?thesis by (auto simp: agent_accept_def)
qed

lemma compact_accept_bounded:
  assumes "finite (Mapping.keys m)" "Mapping.size m \<le> 1024"
  shows "finite (Mapping.keys (snd (compact_accept body s c m))) \<and> Mapping.size (snd (compact_accept body s c m)) \<le> 1024"
proof -
  obtain ok m1 where a: "compact_accept body s c m = (ok, m1)" by fastforce
  show ?thesis
  proof (cases ok)
    case True
    from compact_accept_effect [OF a True] obtain items where i:
      "Mapping.lookup m1 = (\<lambda>k. if k \<in> set (compact_keys items) then Some (s, c) else Mapping.lookup m k)"
      "Mapping.size m + card (set (compact_keys items)) \<le> 1024" by blast
    have "Mapping.keys m1 = Mapping.keys m \<union> set (compact_keys items)"
      unfolding keys_dom_lookup i(1) by (auto simp: dom_def split: if_splits)
    with i(2) assms card_Un_le [of "Mapping.keys m" "set (compact_keys items)"] a show ?thesis by (simp add: Mapping.size_def)
  qed (use compact_accept_refused [OF a] a assms in simp)
qed

lemma learn_bounded:
  assumes "bounded g" "finite_event ev"
  shows "bounded (learn ev g)"
proof -
  have "card (oKeys (gReasoning (learn ev g))) \<le> 1024"
    using learn_reasoning [of ev g]
  proof (elim disjE exE conjE)
    fix keys c b assume r: "gReasoning (learn ev g) = snd (reasoning_accept keys c b (gReasoning g))"
    obtain ok o2 where a: "reasoning_accept keys c b (gReasoning g) = (ok, o2)" by fastforce
    with r have new: "gReasoning (learn ev g) = o2" by simp
    from reasoning_accept_cases [OF a] have "card (oKeys o2) \<le> 1024 \<or> o2 = gReasoning g" by auto
    with assms(1) show ?thesis unfolding new bounded_def by blast
  qed (use assms in \<open>simp add: bounded_def\<close>)
  moreover have "finite (Mapping.keys (gCompact (learn ev g))) \<and> Mapping.size (gCompact (learn ev g)) \<le> 1024"
    using assms compact_accept_bounded by (cases ev) (simp_all add: learn_compact bounded_def del: learn.simps)
  moreover have "finite (gAgent (learn ev g)) \<and> card (gAgent (learn ev g)) \<le> probeAgentOwnerLimit"
  proof (cases ev)
    case (TurnEnded keys ms c b)
    with learn_agent(2) [of keys ms c b g] assms agent_accept_bounded [of "gAgent g" ms c] show ?thesis
      by (auto simp: bounded_def simp del: learn.simps)
  qed (use assms in \<open>simp add: learn_agent bounded_def del: learn.simps\<close>)
  ultimately show ?thesis by (simp add: bounded_def)
qed

lemma registries_bounded: "list_all finite_event evs \<Longrightarrow> bounded (learn_all evs no_owners)"
proof (induction evs rule: rev_induct)
  case Nil
  show ?case by (simp add: bounded_def no_owners_def no_reasoning_def)
next
  case (snoc ev evs)
  then show ?case using learn_bounded by simp
qed

end
