(* ===== verification/Probe_Tools_Props.thy ===== *)
theory Probe_Tools_Props
  imports Probe_Owners "HOL-Library.Multiset"
begin

text \<open>
  What leaves the helper: opaque state only under the account it belongs to, no reference to server state, and
  every tool call with exactly its own output.
\<close>

section \<open>Members\<close>

lemma obj_get_del [simp]: "obj_get (member_del k it) x = (if x = k then None else obj_get it x)"
proof -
  have "map_of (rev (filter (\<lambda>(y, v). y \<noteq> k) it)) x = (if x = k then None else map_of (rev it) x)"
    by (induction it rule: rev_induct) auto
  then show ?thesis by (simp add: obj_get_def member_del_def)
qed

lemma obj_get_set [simp]: "obj_get (member_set k j it) x = (if x = k then Some j else obj_get it x)"
  using obj_get_del [of k it x] by (simp add: member_set_def obj_get_def)

lemma probeString_simps [simp]:
  "probeString (member_del k it) x = (if x = k then [] else probeString it x)"
  "probeString (member_set k (JStr s) it) x = (if x = k then s else probeString it x)"
  by (simp_all add: probeString_def)

lemma remapped_simps [simp]:
  "k \<noteq> ''call_id'' \<Longrightarrow> obj_get (remapped c i it) k = obj_get it k"
  "k \<noteq> ''call_id'' \<Longrightarrow> probeString (remapped c i it) k = probeString it k"
  by (simp_all add: remapped_def)

lemma remapped_call: "probeString (remapped c i it) ''call_id'' =
    (if portable_here c i then probePortableCall (cSalt c) (cSlot c) (probeString it ''call_id'') else probeString it ''call_id'')"
  by (simp add: remapped_def)

lemma agent_message_cong:
  assumes "\<And>k. k \<noteq> ''id'' \<Longrightarrow> k \<noteq> ''call_id'' \<Longrightarrow> obj_get a k = obj_get b k"
  shows "probeAgentOutputMessage a = probeAgentOutputMessage b" and "agent_contents a = agent_contents b"
proof -
  have "probeString a k = probeString b k" if "k \<noteq> ''id''" "k \<noteq> ''call_id''" for k
    using assms [OF that] by (simp add: probeString_def)
  then have eqs: "probeString a ''type'' = probeString b ''type''" "probeString a ''namespace'' = probeString b ''namespace''"
    "probeString a ''name'' = probeString b ''name''" "probeString a ''arguments'' = probeString b ''arguments''"
    "probeCompleted a = probeCompleted b"
    using assms by (simp_all add: probeCompleted_def)
  show "probeAgentOutputMessage a = probeAgentOutputMessage b" by (simp only: probeAgentOutputMessage_def eqs)
  show "agent_contents a = agent_contents b" using assms by (simp add: agent_contents_def)
qed

text \<open>The names allowed are looked up between spaces in one string, so a name with a space in it is allowed too
  when its words stand side by side there.\<close>

lemma probeKeys_spaced_name: "probeKeys [(''type id'', JNull), (''status'', JNull)] ''type id status call_id output''"
  by code_simp

section \<open>The loop\<close>

text \<open>An invariant of the loop, as a predicate of the items done.\<close>

lemma norm_items_inv:
  assumes step: "\<And>pre it post s s1. items = pre @ it # post \<Longrightarrow> norm_item c (length pre) it s = Inr s1 \<Longrightarrow> P pre s \<Longrightarrow> P (pre @ [it]) s1"
  shows "norm_items c (length pre) its st = Inr st1 \<Longrightarrow> items = pre @ its \<Longrightarrow> P pre st \<Longrightarrow> P items st1"
proof (induction its arbitrary: pre st)
  case (Cons it its)
  from Cons.prems(1) obtain s where s: "norm_item c (length pre) it st = Inr s" "norm_items c (length (pre @ [it])) its s = Inr st1"
    by (auto split: sum.splits)
  from Cons.IH [OF s(2) _ step [OF Cons.prems(2) s(1) Cons.prems(3)]] Cons.prems(2) show ?case by simp
qed simp

text \<open>What one item may add to the result.\<close>

definition owned_by :: "tool_input \<Rightarrow> string \<Rightarrow> bool" where
  "owned_by d m \<longleftrightarrow> (\<exists>f. dAgentOwner d = Some f \<and> f m)"

definition may_leave :: "tool_input \<Rightarrow> string \<Rightarrow> string \<Rightarrow> string \<Rightarrow> owner_check \<Rightarrow> owner_check \<Rightarrow> item \<Rightarrow> bool" where
  "may_leave d slot previousSlot salt allow reasoning out \<longleftrightarrow>
     (probeString out ''type'' = ''compaction'' \<longrightarrow> \<not> dPortable d \<and> (\<exists>f. allow = Some f \<and> f out))
     \<and> (probeString out ''type'' = ''reasoning'' \<longrightarrow> \<not> dPortable d \<and> previousSlot = slot \<and> slot \<noteq> []
          \<and> (\<forall>f. reasoning = Some f \<longrightarrow> f out))
     \<and> (probeString out ''type'' \<notin> {''compaction'', ''reasoning''} \<longrightarrow> obj_get out ''id'' = None)
     \<and> (probeString out ''type'' = ''agent_message'' \<longrightarrow> list_all (owned_by d) (agent_contents out))
     \<and> (probeAgentOutputMessage out \<noteq> [] \<longrightarrow> owned_by d (probeAgentOutputMessage out))
     \<and> (dPortable d \<and> probeString out ''type'' \<in> set owner_kinds
          \<longrightarrow> (\<exists>k. probeString out ''call_id'' = probePortableCall salt slot k))"

abbreviation leaves :: "norm_context \<Rightarrow> item \<Rightarrow> bool" where
  "leaves c \<equiv> may_leave (cInput c) (cSlot c) (cPrevious c) (cSalt c) (cAllow c) (cReasoning c)"

lemma accepted_owner: "agentOwnershipRejection d m = [] \<Longrightarrow> owned_by d m"
  by (auto simp: agentOwnershipRejection_def owned_by_def split: if_splits option.splits)

lemma agent_rejection_none: "agent_rejection d ms = [] \<Longrightarrow> list_all (owned_by d) ms"
proof -
  assume "agent_rejection d ms = []"
  then have "filter (\<lambda>m. agentOwnershipRejection d m \<noteq> []) ms = []"
    by (auto simp: agent_rejection_def split: list.splits dest: filter_eq_ConsD)
  then show ?thesis by (auto simp: filter_empty_conv list_all_iff intro: accepted_owner)
qed

lemma agent_message_kind: "probeAgentOutputMessage it \<noteq> [] \<Longrightarrow> probeString it ''type'' = ''function_call''"
  by (auto simp: probeAgentOutputMessage_def split: if_splits)

lemma keep_item_result:
  assumes "keep_item c i tool it st = Inr st1"
  shows "nResult st1 = nResult st @ [member_del ''id'' it] \<and> nPending st1 = nPending st \<and> nSeen st1 = nSeen st \<and> nAgent st1 = nAgent st
    \<and> (\<not> dPortable (cInput c) \<and> cLastUser c < i \<and> tool \<longrightarrow> cPrevious c = cSlot c)"
  using assms by (auto simp: keep_item_def split: if_splits)

text \<open>How one round changes the result and the open calls, by the kind of the item.\<close>

definition call_kinds :: "string list" where
  "call_kinds = [''function_call'', ''custom_tool_call'']"

definition output_kinds :: "string list" where
  "output_kinds = [''function_call_output'', ''custom_tool_call_output'']"

text \<open>An item other than a call or an output: it is kept as it is, or without its identifier.\<close>

definition carries :: "norm_context \<Rightarrow> nat \<Rightarrow> item \<Rightarrow> norm_state \<Rightarrow> norm_state \<Rightarrow> item \<Rightarrow> bool" where
  "carries c i it st st1 out \<longleftrightarrow>
     nResult st1 = nResult st @ [out] \<and> leaves c out
     \<and> probeString out ''type'' = probeString it ''type'' \<and> probeString out ''role'' = probeString it ''role''
     \<and> (probeString it ''type'' \<in> {''compaction'', ''reasoning''} \<longrightarrow> out = it)
     \<and> (probeString it ''type'' = ''reasoning'' \<longrightarrow> \<not> portable_here c i)
     \<and> (probeString it ''type'' = ''agent_message'' \<and> agent_contents out \<noteq> [] \<longrightarrow> nAgent st1)"

definition passes :: "norm_context \<Rightarrow> nat \<Rightarrow> item \<Rightarrow> norm_state \<Rightarrow> norm_state \<Rightarrow> bool" where
  "passes c i it st st1 \<longleftrightarrow> nPending st1 = nPending st \<and> nSeen st1 = nSeen st
     \<and> (nResult st1 = nResult st \<or> (\<exists>out. carries c i it st st1 out))"

definition kept :: "norm_context \<Rightarrow> nat \<Rightarrow> item \<Rightarrow> norm_state \<Rightarrow> norm_state \<Rightarrow> bool" where
  "kept c i it st st1 \<longleftrightarrow>
     (let kind = probeString it ''type''; k = probeString it ''call_id'' in
      (i = cLastUser c \<longrightarrow> nPending st = []) \<and> (nAgent st \<longrightarrow> nAgent st1) \<and>
      (if kind \<in> set call_kinds
       then nResult st1 = nResult st @ [member_del ''id'' (remapped c i it)] \<and> nPending st1 = (k, kind) # nPending st
         \<and> k \<notin> nSeen st \<and> nSeen st1 = insert k (nSeen st)
         \<and> (probeAgentOutputMessage it \<noteq> [] \<longrightarrow> owned_by (cInput c) (probeAgentOutputMessage it) \<and> nAgent st1)
       else if kind \<in> set output_kinds
       then nResult st1 = nResult st @ [member_del ''id'' (remapped c i it)]
         \<and> nPending st1 = filter (\<lambda>(x, y). x \<noteq> k) (nPending st) \<and> nSeen st1 = nSeen st
         \<and> (\<exists>y. map_of (nPending st) k = Some y \<and> y @ ''_output'' = kind)
       else passes c i it st st1))"

lemma plain_may_leave:
  assumes "probeString it ''type'' \<notin> {''compaction'', ''reasoning'', ''agent_message''}" "probeString it ''type'' \<notin> set owner_kinds"
  shows "leaves c (member_del ''id'' it)"
  using assms agent_message_kind [of "member_del ''id'' it"] by (auto simp: may_leave_def owner_kinds_def)

lemma norm_call_kept:
  assumes "norm_call c i (probeString it ''type'') it st = Inr st1" "probeString it ''type'' \<in> set call_kinds" "i = cLastUser c \<longrightarrow> nPending st = []"
  shows "kept c i it st st1"
proof -
  let ?m = "probeAgentOutputMessage it" and ?k = "probeString it ''call_id''"
  have own: "?m \<noteq> [] \<longrightarrow> owned_by (cInput c) ?m" and new: "?k \<notin> nSeen st"
    and keep: "keep_item c i True (remapped c i it)
        (st\<lparr>nPending := (?k, probeString it ''type'') # nPending st, nSeen := insert ?k (nSeen st), nAgent := nAgent st \<or> ?m \<noteq> []\<rparr>) = Inr st1"
    using assms(1) by (auto simp: norm_call_def Let_def intro: accepted_owner split: if_splits)
  with keep_item_result [OF keep] assms(2,3) show ?thesis by (simp add: kept_def Let_def)
qed

lemma norm_output_kept:
  assumes "norm_output c i (probeString it ''type'') it st = Inr st1" "probeString it ''type'' \<in> set output_kinds" "i = cLastUser c \<longrightarrow> nPending st = []"
  shows "kept c i it st st1"
proof -
  let ?k = "probeString it ''call_id''"
  have keep: "keep_item c i True (remapped c i it) (st\<lparr>nPending := filter (\<lambda>(x, y). x \<noteq> ?k) (nPending st)\<rparr>) = Inr st1"
    and open1: "(case map_of (nPending st) ?k of None \<Rightarrow> [] | Some x \<Rightarrow> x) @ ''_output'' = probeString it ''type''"
    using assms(1) by (auto simp: norm_output_def Let_def split: if_splits)
  from open1 assms(2) have "\<exists>y. map_of (nPending st) ?k = Some y \<and> y @ ''_output'' = probeString it ''type''"
    by (auto simp: output_kinds_def split: option.splits)
  moreover have "probeString it ''type'' \<notin> set call_kinds" using assms(2) by (auto simp: output_kinds_def call_kinds_def)
  ultimately show ?thesis using keep_item_result [OF keep] assms(2,3) by (simp add: kept_def Let_def)
qed

lemma norm_reasoning_other:
  assumes "norm_reasoning c i it st = Inr st1" "probeString it ''type'' = ''reasoning''"
  shows "passes c i it st st1 \<and> nAgent st1 = nAgent st"
proof (cases "portable_here c i")
  case True
  with assms(1) have "st1 = st" by (simp add: norm_reasoning_def split: if_split_asm)
  then show ?thesis by (simp add: passes_def)
next
  case False
  with assms(1) have r: "st1 = st\<lparr>nResult := nResult st @ [it]\<rparr>" "cPrevious c = cSlot c" "cSlot c \<noteq> []" "\<not> dPortable (cInput c)"
    "\<forall>f. cReasoning c = Some f \<longrightarrow> f it"
    by (auto simp: norm_reasoning_def portable_here_def split: if_split_asm option.split_asm)
  have "leaves c it" using r assms(2) agent_message_kind [of it] by (auto simp: may_leave_def)
  with r assms(2) False show ?thesis by (simp add: passes_def carries_def)
qed

lemma agent_message_leaves:
  assumes "probeString it ''type'' = ''agent_message''" "agent_rejection (cInput c) (agent_contents it) = []"
  shows "leaves c (member_del ''id'' it)"
proof -
  have "agent_contents (member_del ''id'' it) = agent_contents it" by (rule agent_message_cong) simp
  moreover have "probeAgentOutputMessage (member_del ''id'' it) = []"
    using agent_message_kind [of "member_del ''id'' it"] assms(1) by auto
  ultimately show ?thesis using assms agent_rejection_none by (simp add: may_leave_def owner_kinds_def)
qed

lemma keep_item_passes:
  assumes "keep_item c i False it st = Inr st1" "leaves c (member_del ''id'' it)"
    and "nPending st = nPending st0" "nSeen st = nSeen st0" "nResult st = nResult st0"
    and "probeString it ''type'' \<notin> {''compaction'', ''reasoning''}"
    and "probeString it ''type'' = ''agent_message'' \<and> agent_contents it \<noteq> [] \<longrightarrow> nAgent st"
  shows "passes c i it st0 st1 \<and> nAgent st1 = nAgent st"
proof -
  have "agent_contents (member_del ''id'' it) = agent_contents it" by (rule agent_message_cong) simp
  with keep_item_result [OF assms(1)] assms(2-) show ?thesis by (simp add: passes_def carries_def)
qed

lemma norm_item_other:
  assumes "norm_item c i it st = Inr st1" "probeString it ''type'' \<notin> set call_kinds" "probeString it ''type'' \<notin> set output_kinds"
  shows "passes c i it st st1 \<and> (nAgent st \<longrightarrow> nAgent st1)"
proof -
  have kinds: "probeString it ''type'' \<noteq> ''function_call''" "probeString it ''type'' \<noteq> ''custom_tool_call''"
    "probeString it ''type'' \<noteq> ''function_call_output''" "probeString it ''type'' \<noteq> ''custom_tool_call_output''"
    using assms(2,3) by (auto simp: call_kinds_def output_kinds_def)
  consider "probeString it ''type'' = ''compaction''" | "probeString it ''type'' = ''reasoning''" | "probeString it ''type'' = ''agent_message''"
    | "probeString it ''type'' \<notin> {''compaction'', ''reasoning'', ''agent_message''}" by blast
  then show ?thesis
  proof cases
    case 1
    with assms(1) obtain f where f: "\<not> dPortable (cInput c)" "cAllow c = Some f" "f it" "st1 = st\<lparr>nResult := nResult st @ [it]\<rparr>"
      by (auto simp: norm_item_def Let_def split: if_split_asm option.split_asm)
    then have "leaves c it" using 1 agent_message_kind [of it] by (auto simp: may_leave_def owner_kinds_def)
    with f 1 show ?thesis by (simp add: passes_def carries_def)
  next
    case 2
    with assms(1) have "norm_reasoning c i it st = Inr st1" by (simp add: norm_item_def Let_def split: if_split_asm)
    from norm_reasoning_other [OF this 2] show ?thesis by simp
  next
    case 3
    with assms(1) have r: "agent_rejection (cInput c) (agent_contents it) = []"
      and k: "keep_item c i False it (st\<lparr>nAgent := nAgent st \<or> agent_contents it \<noteq> []\<rparr>) = Inr st1"
      by (simp_all add: norm_item_def Let_def split: if_split_asm)
    from keep_item_passes [OF k agent_message_leaves [OF 3 r], of st] 3 show ?thesis by simp
  next
    case 4
    with assms(1) kinds have k: "keep_item c i False it st = Inr st1"
      by (simp add: norm_item_def Let_def split: if_split_asm)
    have "leaves c (member_del ''id'' it)"
      by (rule plain_may_leave) (use 4 kinds in \<open>simp_all add: owner_kinds_def\<close>)
    from keep_item_passes [OF k this, of st] 4 show ?thesis by simp
  qed
qed

lemma norm_item_kept:
  assumes "norm_item c i it st = Inr st1"
  shows "kept c i it st st1"
proof -
  let ?kind = "probeString it ''type''"
  have first: "i = cLastUser c \<longrightarrow> nPending st = []" using assms by (auto simp: norm_item_def Let_def split: if_splits)
  show ?thesis
  proof (cases "?kind \<in> set call_kinds")
    case True
    then have "norm_call c i ?kind it st = Inr st1"
      using assms by (auto simp: norm_item_def Let_def call_kinds_def split: if_splits)
    with True first show ?thesis by (intro norm_call_kept)
  next
    case nc: False
    show ?thesis
    proof (cases "?kind \<in> set output_kinds")
      case True
      then have "norm_output c i ?kind it st = Inr st1"
        using assms by (auto simp: norm_item_def Let_def output_kinds_def split: if_splits)
      with True first show ?thesis by (intro norm_output_kept)
    next
      case no: False
      with nc norm_item_other [OF assms] first show ?thesis by (simp add: kept_def Let_def)
    qed
  qed
qed


section \<open>What leaves\<close>

lemma kept_leaves:
  assumes "kept c i it st st1" "list_all (leaves c) (nResult st)"
  shows "list_all (leaves c) (nResult st1)"
proof -
  let ?kind = "probeString it ''type''" and ?out = "member_del ''id'' (remapped c i it)"
  have msg: "probeAgentOutputMessage ?out = probeAgentOutputMessage it" by (rule agent_message_cong) simp
  have ids: "\<exists>k. probeString ?out ''call_id'' = probePortableCall (cSalt c) (cSlot c) k" if "dPortable (cInput c)"
    using that by (auto simp: remapped_call portable_here_def)
  consider "?kind \<in> set call_kinds" | "?kind \<in> set output_kinds" "?kind \<notin> set call_kinds"
    | "?kind \<notin> set call_kinds" "?kind \<notin> set output_kinds" by blast
  then show ?thesis
  proof cases
    case 1
    then have "?kind \<notin> {''compaction'', ''reasoning'', ''agent_message''}" by (auto simp: call_kinds_def)
    moreover have "probeAgentOutputMessage it \<noteq> [] \<longrightarrow> owned_by (cInput c) (probeAgentOutputMessage it)"
      and "nResult st1 = nResult st @ [?out]"
      using assms(1) 1 by (simp_all add: kept_def Let_def)
    ultimately show ?thesis using assms(2) msg ids by (simp add: may_leave_def)
  next
    case 2
    then have "?kind \<notin> {''compaction'', ''reasoning'', ''agent_message'', ''function_call''}" by (auto simp: output_kinds_def)
    moreover from this have "probeAgentOutputMessage it = []" using agent_message_kind by auto
    moreover have "nResult st1 = nResult st @ [?out]" using assms(1) 2 by (simp add: kept_def Let_def)
    ultimately show ?thesis using assms(2) msg ids by (simp add: may_leave_def)
  next
    case 3
    with assms show ?thesis by (auto simp: kept_def passes_def carries_def Let_def)
  qed
qed

lemma loop_leaves:
  assumes "norm_items c 0 its st = Inr st1" "nResult st = []"
  shows "list_all (leaves c) (nResult st1)"
proof (rule norm_items_inv [where P = "\<lambda>pre s. list_all (leaves c) (nResult s)" and pre = "[]" and c = c and items = its and its = its and st = st])
  fix pre :: "item list" and it s s1 assume "norm_item c (length pre) it s = Inr s1" "list_all (leaves c) (nResult s)"
  then show "list_all (leaves c) (nResult s1)" by (blast intro: kept_leaves norm_item_kept)
qed (use assms in simp_all)

lemma normalize_leaves:
  assumes "normalize d slot prev salt allow reasoning = Inr z"
  shows "list_all (may_leave d slot prev salt allow reasoning) (zItems z)"
proof -
  obtain u st where st: "norm_items \<lparr>cInput = d, cSlot = slot, cPrevious = prev, cSalt = salt, cAllow = allow, cReasoning = reasoning, cLastUser = u\<rparr> 0
        (dItems d) \<lparr>nResult = [], nPending = [], nSeen = {}, nAgent = False\<rparr> = Inr st" "zItems z = nResult st"
    using normalize_loop [OF assms] by blast
  from loop_leaves [OF st(1)] st(2) show ?thesis by simp
qed

section \<open>Tool calls and their results\<close>

definition tool_calls :: "item list \<Rightarrow> (string \<times> string) list" where
  "tool_calls items = map (\<lambda>it. (probeString it ''call_id'', probeString it ''type'' @ ''_output''))
     (filter (\<lambda>it. probeString it ''type'' \<in> set call_kinds) items)"

definition tool_results :: "item list \<Rightarrow> (string \<times> string) list" where
  "tool_results items = map (\<lambda>it. (probeString it ''call_id'', probeString it ''type''))
     (filter (\<lambda>it. probeString it ''type'' \<in> set output_kinds) items)"

definition paired :: "item list \<Rightarrow> bool" where
  "paired items \<longleftrightarrow> (\<forall>n. mset (tool_results (take n items)) \<subseteq># mset (tool_calls (take n items)))"

lemma tool_append [simp]:
  "tool_calls (xs @ ys) = tool_calls xs @ tool_calls ys" "tool_results (xs @ ys) = tool_results xs @ tool_results ys"
  by (simp_all add: tool_calls_def tool_results_def)

lemma paired_snoc:
  assumes "paired xs" "mset (tool_results (xs @ [x])) \<subseteq># mset (tool_calls (xs @ [x]))"
  shows "paired (xs @ [x])"
  unfolding paired_def
proof
  fix n show "mset (tool_results (take n (xs @ [x]))) \<subseteq># mset (tool_calls (take n (xs @ [x])))"
  proof (cases "n \<le> length xs")
    case True
    with assms(1) show ?thesis by (simp add: paired_def)
  next
    case False
    with assms(2) show ?thesis by simp
  qed
qed

text \<open>The name under which an open call has been sent: all of them lie on one side of the last message of the user.\<close>

definition sent :: "norm_context \<Rightarrow> nat \<Rightarrow> string \<Rightarrow> string" where
  "sent c j k = (if j \<le> cLastUser c \<or> dPortable (cInput c) then probePortableCall (cSalt c) (cSlot c) k else k)"

definition balanced :: "norm_context \<Rightarrow> nat \<Rightarrow> norm_state \<Rightarrow> bool" where
  "balanced c j s \<longleftrightarrow> distinct (map fst (nPending s)) \<and> set (map fst (nPending s)) \<subseteq> nSeen s
     \<and> paired (nResult s)
     \<and> mset (tool_calls (nResult s)) = mset (tool_results (nResult s)) + mset (map (\<lambda>(k, y). (sent c j k, y @ ''_output'')) (nPending s))"

lemma mset_drop_key:
  assumes "map_of ps k = Some y" "distinct (map fst ps)"
  shows "mset ps = add_mset (k, y) (mset (filter (\<lambda>(x, z). x \<noteq> k) ps))"
  using assms
proof (induction ps)
  case (Cons p ps)
  obtain a b where p: "p = (a, b)" by fastforce
  show ?case
  proof (cases "a = k")
    case True
    with Cons.prems p have "filter (\<lambda>(x, z). x \<noteq> k) ps = ps" by (force simp: filter_id_conv image_iff)
    with True Cons.prems p show ?thesis by simp
  qed (use Cons p in \<open>simp add: add_mset_commute\<close>)
qed simp

lemma sent_step: "i = cLastUser c \<longrightarrow> ps = [] \<Longrightarrow> map (\<lambda>(k, y). (sent c (Suc i) k, f y)) ps = map (\<lambda>(k, y). (sent c i k, f y)) ps"
  by (auto simp: sent_def le_Suc_eq)

lemma remapped_sent: "probeString (remapped c i it) ''call_id'' = sent c (Suc i) (probeString it ''call_id'')"
  by (auto simp: remapped_call sent_def portable_here_def Suc_le_eq)

lemma call_result_kinds: "x \<in> set call_kinds \<Longrightarrow> x \<notin> set output_kinds"
  by (auto simp: call_kinds_def output_kinds_def)

lemma kept_balanced:
  assumes "kept c i it st st1" "balanced c i st"
  shows "balanced c (Suc i) st1"
proof -
  let ?kind = "probeString it ''type''" and ?k = "probeString it ''call_id''" and ?out = "member_del ''id'' (remapped c i it)"
  let ?open = "\<lambda>ps. mset (map (\<lambda>(k, y). (sent c (Suc i) k, y @ ''_output'')) ps)"
  have eq: "mset (tool_calls (nResult st)) = mset (tool_results (nResult st)) + ?open (nPending st)"
  proof -
    have "i = cLastUser c \<longrightarrow> nPending st = []" using assms(1) by (simp add: kept_def Let_def)
    with assms(2) show ?thesis by (simp only: balanced_def sent_step)
  qed
  have st: "distinct (map fst (nPending st))" "set (map fst (nPending st)) \<subseteq> nSeen st" "paired (nResult st)"
    using assms(2) by (auto simp: balanced_def)
  have out: "probeString ?out ''type'' = ?kind" "probeString ?out ''call_id'' = sent c (Suc i) ?k"
    by (simp_all add: remapped_sent)
  consider "?kind \<in> set call_kinds" | "?kind \<in> set output_kinds" "?kind \<notin> set call_kinds"
    | "?kind \<notin> set call_kinds" "?kind \<notin> set output_kinds" by blast
  then show ?thesis
  proof cases
    case 1
    then have s1: "nResult st1 = nResult st @ [?out]" "nPending st1 = (?k, ?kind) # nPending st" "?k \<notin> nSeen st" "nSeen st1 = insert ?k (nSeen st)"
      using assms(1) by (simp_all add: kept_def Let_def)
    have adds: "tool_calls [?out] = [(sent c (Suc i) ?k, ?kind @ ''_output'')]" "tool_results [?out] = []"
      using 1 out call_result_kinds by (simp_all add: tool_calls_def tool_results_def)
    have eq1: "mset (tool_calls (nResult st1)) = mset (tool_results (nResult st1)) + ?open (nPending st1)"
      using eq adds by (simp add: s1)
    moreover have "paired (nResult st1)"
      unfolding s1(1) using st(3) by (rule paired_snoc) (use eq1 s1(1) in simp)
    ultimately show ?thesis using st s1 by (auto simp: balanced_def)
  next
    case 2
    then obtain y where s1: "nResult st1 = nResult st @ [?out]" "nPending st1 = filter (\<lambda>(x, y). x \<noteq> ?k) (nPending st)" "nSeen st1 = nSeen st"
      and y: "map_of (nPending st) ?k = Some y" "y @ ''_output'' = ?kind"
      using assms(1) by (auto simp: kept_def Let_def)
    have adds: "tool_calls [?out] = []" "tool_results [?out] = [(sent c (Suc i) ?k, ?kind)]"
      using 2 out by (simp_all add: tool_calls_def tool_results_def)
    have "?open (nPending st) = add_mset (sent c (Suc i) ?k, ?kind) (?open (nPending st1))"
      unfolding s1(2) mset_map mset_drop_key [OF y(1) st(1)] by (simp add: y(2) del: mset_filter)
    with eq adds have eq1: "mset (tool_calls (nResult st1)) = mset (tool_results (nResult st1)) + ?open (nPending st1)"
      by (simp add: s1)
    moreover have "paired (nResult st1)"
      unfolding s1(1) using st(3) by (rule paired_snoc) (use eq1 s1(1) in simp)
    moreover have "distinct (map fst (nPending st1))" using st(1) by (simp add: s1 distinct_map_filter)
    ultimately show ?thesis using st s1 by (auto simp: balanced_def)
  next
    case 3
    then have s1: "nPending st1 = nPending st" "nSeen st1 = nSeen st"
      and r: "nResult st1 = nResult st \<or> (\<exists>o1. nResult st1 = nResult st @ [o1] \<and> probeString o1 ''type'' = ?kind)"
      using assms(1) by (auto simp: kept_def passes_def carries_def Let_def)
    from r show ?thesis
    proof (elim disjE exE conjE)
      assume "nResult st1 = nResult st"
      with s1 st eq show ?thesis by (simp add: balanced_def)
    next
      fix o1 assume o1: "nResult st1 = nResult st @ [o1]" "probeString o1 ''type'' = ?kind"
      with 3 have adds: "tool_calls [o1] = []" "tool_results [o1] = []" by (simp_all add: tool_calls_def tool_results_def)
      have "paired (nResult st1)" unfolding o1(1) using st(3) by (rule paired_snoc) (use eq adds in simp)
      with s1 st eq adds o1(1) show ?thesis by (simp add: balanced_def)
    qed
  qed
qed

lemma loop_balanced:
  assumes "norm_items c 0 its \<lparr>nResult = [], nPending = [], nSeen = {}, nAgent = False\<rparr> = Inr st1"
  shows "balanced c (length its) st1"
proof (rule norm_items_inv [where P = "\<lambda>pre s. balanced c (length pre) s" and pre = "[]" and c = c and items = its and its = its
      and st = "\<lparr>nResult = [], nPending = [], nSeen = {}, nAgent = False\<rparr>"])
  fix pre :: "item list" and it s s1 assume "norm_item c (length pre) it s = Inr s1" "balanced c (length pre) s"
  then show "balanced c (length (pre @ [it])) s1" using kept_balanced norm_item_kept by fastforce
qed (use assms in \<open>simp_all add: balanced_def paired_def tool_calls_def tool_results_def\<close>)

lemma normalize_pairs:
  assumes "normalize d slot prev salt allow reasoning = Inr z"
  shows "paired (zItems z) \<and> mset (tool_results (zItems z)) = mset (tool_calls (zItems z))"
proof -
  obtain u st where st: "norm_items \<lparr>cInput = d, cSlot = slot, cPrevious = prev, cSalt = salt, cAllow = allow, cReasoning = reasoning, cLastUser = u\<rparr> 0
        (dItems d) \<lparr>nResult = [], nPending = [], nSeen = {}, nAgent = False\<rparr> = Inr st" "nPending st = []" "zItems z = nResult st"
    using normalize_loop [OF assms] by blast
  from loop_balanced [OF st(1)] st(2,3) show ?thesis by (simp add: balanced_def)
qed

end
