(* ===== verification/Probe_Dispatch.thy ===== *)
theory Probe_Dispatch
  imports Probe_Tools_Props
begin

text \<open>
  The request of a shared connection between validation and dispatch (\<^verbatim>\<open>switchprobe.go\<close>): the history is normalised
  under the credential of the selected account, what needs that credential is pinned, and the pin is compared again
  with the credential that access yields when the request is really sent, which may have been refreshed meanwhile.
  After a usage limit the original body is normalised once more as portable history for another account.
\<close>

section \<open>Validation and dispatch\<close>

definition probe_salt :: "string \<Rightarrow> string \<Rightarrow> string" where
  "probe_salt secret cred = secret @ '':'' @ hex_encode cred"

definition probe_normalize :: "owners \<Rightarrow> string \<Rightarrow> tool_input \<Rightarrow> string \<Rightarrow> string \<Rightarrow> string \<Rightarrow> string \<Rightarrow> body_error + normalized" where
  "probe_normalize g secret d selected previousSlot ownerCredential cred =
     (let owner = (if cred = zero_digest \<or> cred \<noteq> ownerCredential then [] else previousSlot) in
      normalize (d\<lparr>dAgentOwner := Some (\<lambda>m. agent_permits (gAgent g) m cred)\<rparr>) selected owner (probe_salt secret cred)
        (Some (\<lambda>it. compact_permits (gCompact g) it selected cred)) (Some (\<lambda>it. reasoning_permits (gReasoning g) it cred)))"

text \<open>The closure's variables that hold until the request ends.\<close>

record active =
  activeCompactItems :: "item list"
  activeTurnOwner :: string

definition probe_pin :: "tool_input \<Rightarrow> normalized \<Rightarrow> string \<Rightarrow> string \<Rightarrow> active" where
  "probe_pin d z ownerCredential cred =
     (let o1 = (if dPortable d then cred else zero_digest);
          o2 = (if zTurnOwner z then ownerCredential else o1);
          o3 = (if zAgentOwner z then cred else o2) in
      \<lparr>activeCompactItems = compactItems d, activeTurnOwner = o3\<rparr>)"

datatype resolve_error = ErrHistoryOwner | ErrCompactionOwner

definition probe_resolve :: "owners \<Rightarrow> active \<Rightarrow> string \<Rightarrow> string \<Rightarrow> resolve_error option" where
  "probe_resolve g a slot cred =
     (if activeTurnOwner a \<noteq> zero_digest \<and> cred \<noteq> activeTurnOwner a then Some ErrHistoryOwner
      else if list_ex (\<lambda>it. \<not> compact_permits (gCompact g) it slot cred) (activeCompactItems a) then Some ErrCompactionOwner
      else None)"

text \<open>The body for the next account, which has no owner of anything.\<close>

definition quota_switch_body :: "string \<Rightarrow> string \<Rightarrow> string \<Rightarrow> string \<Rightarrow> body_error + normalized" where
  "quota_switch_body secret body slot cred =
     normalize ((parseProbeToolInput body)\<lparr>dPortable := True\<rparr>) slot [] (probe_salt secret cred) None None"

section \<open>What a normalisation marks\<close>

lemma last_user_spec:
  "last_user i its found = Some u \<Longrightarrow>
     found = Some u \<and> (\<forall>x\<in>set its. \<not> user_message x)
     \<or> (\<exists>j<length its. u = i + j \<and> user_message (its ! j) \<and> (\<forall>k. j < k \<and> k < length its \<longrightarrow> \<not> user_message (its ! k)))"
proof (induction its arbitrary: i found)
  case (Cons x its)
  from Cons.prems have "last_user (Suc i) its (if user_message x then Some i else found) = Some u" by simp
  from Cons.IH [OF this] show ?case
  proof
    assume a: "(if user_message x then Some i else found) = Some u \<and> (\<forall>y\<in>set its. \<not> user_message y)"
    show ?thesis
    proof (cases "user_message x")
      case True
      with a have "u = i + 0 \<and> user_message ((x # its) ! 0) \<and> (\<forall>k. 0 < k \<and> k < length (x # its) \<longrightarrow> \<not> user_message ((x # its) ! k))"
        by (auto simp: nth_Cons')
      then show ?thesis by blast
    qed (use a in simp)
  next
    assume "\<exists>j<length its. u = Suc i + j \<and> user_message (its ! j) \<and> (\<forall>k. j < k \<and> k < length its \<longrightarrow> \<not> user_message (its ! k))"
    then obtain j where j: "j < length its" "u = Suc i + j" "user_message (its ! j)" "\<forall>k. j < k \<and> k < length its \<longrightarrow> \<not> user_message (its ! k)" by blast
    then have "Suc j < length (x # its) \<and> u = i + Suc j \<and> user_message ((x # its) ! Suc j)
        \<and> (\<forall>k. Suc j < k \<and> k < length (x # its) \<longrightarrow> \<not> user_message ((x # its) ! k))" by (auto simp: Suc_less_eq2)
    then show ?thesis by blast
  qed
qed simp

lemma need_snoc [simp]:
  "probeItemsNeedTurnOwner (xs @ [x]) =
     (if probeString x ''type'' \<in> set owner_kinds then True else if user_message x then False else probeItemsNeedTurnOwner xs)"
  by (simp add: probeItemsNeedTurnOwner_def)

text \<open>The encrypted messages an item shows to the account.\<close>

definition agent_secrets :: "item \<Rightarrow> string list" where
  "agent_secrets it =
     (if probeString it ''type'' = ''agent_message'' then agent_contents it
      else if probeAgentOutputMessage it \<noteq> [] then [probeAgentOutputMessage it] else [])"

definition marked :: "norm_context \<Rightarrow> item list \<Rightarrow> norm_state \<Rightarrow> bool" where
  "marked c pre s \<longleftrightarrow>
     (\<forall>out\<in>set (nResult s). probeString out ''type'' = ''compaction'' \<longrightarrow> out \<in> set pre)
     \<and> (\<forall>out\<in>set (nResult s). agent_secrets out \<noteq> [] \<longrightarrow> nAgent s)
     \<and> ((\<exists>out\<in>set (nResult s). probeString out ''type'' = ''reasoning'') \<longrightarrow> cLastUser c < length pre \<and> probeItemsNeedTurnOwner (nResult s))"

lemma kept_adds:
  assumes "kept c i it st st1"
  shows "(nAgent st \<longrightarrow> nAgent st1) \<and> (nResult st1 = nResult st \<or> (\<exists>out. nResult st1 = nResult st @ [out]
    \<and> probeString out ''type'' = probeString it ''type'' \<and> probeString out ''role'' = probeString it ''role''
    \<and> (probeString it ''type'' \<in> {''compaction'', ''reasoning''} \<longrightarrow> out = it)
    \<and> (probeString it ''type'' = ''reasoning'' \<longrightarrow> \<not> portable_here c i)
    \<and> (agent_secrets out \<noteq> [] \<longrightarrow> nAgent st1)))"
proof -
  let ?kind = "probeString it ''type''" and ?out = "member_del ''id'' (remapped c i it)"
  have msg: "probeAgentOutputMessage ?out = probeAgentOutputMessage it" by (rule agent_message_cong) simp
  have mono: "nAgent st \<longrightarrow> nAgent st1" using assms by (simp add: kept_def Let_def)
  consider "?kind \<in> set call_kinds" | "?kind \<in> set output_kinds" "?kind \<notin> set call_kinds"
    | "?kind \<notin> set call_kinds" "?kind \<notin> set output_kinds" by blast
  then show ?thesis
  proof cases
    case 1
    then have r: "nResult st1 = nResult st @ [?out]" "probeAgentOutputMessage it \<noteq> [] \<longrightarrow> nAgent st1"
      using assms by (simp_all add: kept_def Let_def)
    have "?kind \<notin> {''compaction'', ''reasoning'', ''agent_message''}" using 1 by (auto simp: call_kinds_def)
    with r mono msg show ?thesis by (simp add: agent_secrets_def)
  next
    case 2
    then have r: "nResult st1 = nResult st @ [?out]" using assms by (simp add: kept_def Let_def)
    have k: "?kind \<notin> {''compaction'', ''reasoning'', ''agent_message'', ''function_call''}" using 2 by (auto simp: output_kinds_def)
    then have "probeAgentOutputMessage it = []" using agent_message_kind by auto
    with r k mono msg show ?thesis by (simp add: agent_secrets_def)
  next
    case 3
    then have "passes c i it st st1" using assms by (simp add: kept_def Let_def)
    then consider "nResult st1 = nResult st" | out where "carries c i it st st1 out" by (auto simp: passes_def)
    then show ?thesis
    proof cases
      case (2 out)
      then have t: "probeString out ''type'' = ?kind" by (simp add: carries_def)
      with 3 have "probeAgentOutputMessage out = []" using agent_message_kind [of out] by (auto simp: call_kinds_def)
      with 2 t have "agent_secrets out \<noteq> [] \<longrightarrow> nAgent st1" by (simp add: agent_secrets_def carries_def)
      with 2 mono show ?thesis by (auto simp: carries_def)
    qed (use mono in simp)
  qed
qed

lemma kept_marked:
  assumes "kept c (length pre) it st st1" "marked c pre st"
    and "length pre = cLastUser c \<longrightarrow> user_message it" "cLastUser c < length pre \<longrightarrow> \<not> user_message it"
  shows "marked c (pre @ [it]) st1"
proof -
  let ?kind = "probeString it ''type''"
  have m: "\<And>out. out \<in> set (nResult st) \<Longrightarrow> probeString out ''type'' = ''compaction'' \<Longrightarrow> out \<in> set pre"
    "\<And>out. out \<in> set (nResult st) \<Longrightarrow> agent_secrets out \<noteq> [] \<Longrightarrow> nAgent st"
    "\<And>out. out \<in> set (nResult st) \<Longrightarrow> probeString out ''type'' = ''reasoning'' \<Longrightarrow> cLastUser c < length pre \<and> probeItemsNeedTurnOwner (nResult st)"
    using assms(2) by (auto simp: marked_def)
  from kept_adds [OF assms(1)] consider "nAgent st \<longrightarrow> nAgent st1" "nResult st1 = nResult st"
    | out where "nAgent st \<longrightarrow> nAgent st1" "nResult st1 = nResult st @ [out]" "probeString out ''type'' = ?kind" "probeString out ''role'' = probeString it ''role''"
      "?kind \<in> {''compaction'', ''reasoning''} \<longrightarrow> out = it" "?kind = ''reasoning'' \<longrightarrow> \<not> portable_here c (length pre)"
      "agent_secrets out \<noteq> [] \<longrightarrow> nAgent st1" by blast
  then show ?thesis
  proof cases
    case 1
    with m show ?thesis unfolding marked_def by (metis UnCI length_append_singleton less_SucI set_append)
  next
    case (2 out)
    have user: "user_message out = user_message it" using 2(3,4) by (simp add: user_message_def)
    have reason: "cLastUser c < length (pre @ [it]) \<and> probeItemsNeedTurnOwner (nResult st1)"
      if "\<exists>x\<in>set (nResult st1). probeString x ''type'' = ''reasoning''"
    proof (cases "?kind = ''reasoning''")
      case True
      with 2 show ?thesis by (simp add: portable_here_def owner_kinds_def)
    next
      case False
      with that 2(2,3) obtain x where "x \<in> set (nResult st)" "probeString x ''type'' = ''reasoning''" by auto
      from m(3) [OF this] assms(4) user 2(2) show ?thesis by simp
    qed
    have comp: "x \<in> set (pre @ [it])" if "x \<in> set (nResult st1)" "probeString x ''type'' = ''compaction''" for x
      using that m(1) [of x] 2(2,3,5) by auto
    have sec: "nAgent st1" if "x \<in> set (nResult st1)" "agent_secrets x \<noteq> []" for x
      using that m(2) [of x] 2(1,2,7) by auto
    from reason comp sec show ?thesis unfolding marked_def by blast
  qed
qed

lemma normalize_marked:
  assumes "normalize d slot prev salt allow reasoning = Inr z"
  shows "(\<forall>out\<in>set (zItems z). probeString out ''type'' = ''compaction'' \<longrightarrow> out \<in> set (compactItems d))
    \<and> (\<forall>out\<in>set (zItems z). agent_secrets out \<noteq> [] \<longrightarrow> zAgentOwner z)
    \<and> (\<forall>out\<in>set (zItems z). probeString out ''type'' = ''reasoning'' \<longrightarrow> zTurnOwner z)"
proof -
  obtain u st where u: "last_user 0 (dItems d) None = Some u" and st: "norm_items \<lparr>cInput = d, cSlot = slot, cPrevious = prev, cSalt = salt,
      cAllow = allow, cReasoning = reasoning, cLastUser = u\<rparr> 0 (dItems d) \<lparr>nResult = [], nPending = [], nSeen = {}, nAgent = False\<rparr> = Inr st"
    and z: "zItems z = nResult st" "zAgentOwner z = nAgent st" "zTurnOwner z = (\<not> dPortable d \<and> probeItemsNeedTurnOwner (nResult st))"
    using normalize_loop [OF assms] by blast
  let ?c = "\<lparr>cInput = d, cSlot = slot, cPrevious = prev, cSalt = salt, cAllow = allow, cReasoning = reasoning, cLastUser = u\<rparr>"
  from last_user_spec [OF u] have us: "u < length (dItems d)" "user_message (dItems d ! u)" "\<forall>k. u < k \<and> k < length (dItems d) \<longrightarrow> \<not> user_message (dItems d ! k)"
    by auto
  have step: "marked ?c (pre @ [it]) s1" if "dItems d = pre @ it # post" "norm_item ?c (length pre) it s = Inr s1" "marked ?c pre s" for pre it post s s1
  proof (rule kept_marked [OF norm_item_kept [OF that(2)] that(3)])
    have it: "dItems d ! length pre = it" "length pre < length (dItems d)" using that(1) by simp_all
    show "length pre = cLastUser ?c \<longrightarrow> user_message it" using it us(2) by auto
    show "cLastUser ?c < length pre \<longrightarrow> \<not> user_message it" using it us(3) by auto
  qed
  have "marked ?c (dItems d) st"
    by (rule norm_items_inv [where P = "marked ?c" and pre = "[]" and c = ?c and items = "dItems d" and its = "dItems d"
        and st = "\<lparr>nResult = [], nPending = [], nSeen = {}, nAgent = False\<rparr>", OF step]) (use st in \<open>simp_all add: marked_def\<close>)
  moreover have "\<not> dPortable d" if "out \<in> set (zItems z)" "probeString out ''type'' = ''reasoning''" for out
    using normalize_leaves [OF assms] that by (auto simp: list_all_iff may_leave_def)
  ultimately show ?thesis by (auto simp: z marked_def compactItems_def)
qed

section \<open>Where opaque state goes\<close>

definition belongs :: "learned list \<Rightarrow> string \<Rightarrow> string \<Rightarrow> item \<Rightarrow> bool" where
  "belongs evs slot cred out \<longleftrightarrow>
     (probeString out ''type'' = ''compaction'' \<longrightarrow> (\<exists>key. probeCompactKey out = Some key \<and> learned_compact evs key slot cred))
     \<and> (probeString out ''type'' = ''reasoning'' \<longrightarrow> learned_reasoning evs (probeReasoningKey out) cred)
     \<and> (\<forall>m\<in>set (agent_secrets out). learned_message evs (sha256 m) cred)"

lemma secrets_owned:
  assumes "may_leave d slot prev salt allow reasoning out" "m \<in> set (agent_secrets out)"
  shows "owned_by d m"
  using assms by (auto simp: may_leave_def agent_secrets_def list_all_iff split: if_splits)

text \<open>C8: whatever opaque state a validated request holds when it is sent (a compaction, the reasoning of the turn,
  a message between agents), the account it is sent under is the one whose own response brought that state to the
  connection, even when access yields another credential at dispatch than at validation.\<close>

theorem opaque_state_reaches_its_account:
  assumes "g = learn_all evs no_owners"
    and "probe_normalize g secret d slot previousSlot ownerCredential cred = Inr z"
    and "probe_resolve g (probe_pin d z ownerCredential cred) slot now = None"
  shows "\<forall>out\<in>set (zItems z). belongs evs slot now out"
proof
  fix out assume out: "out \<in> set (zItems z)"
  let ?d = "d\<lparr>dAgentOwner := Some (\<lambda>m. agent_permits (gAgent g) m cred)\<rparr>"
  let ?prev = "if cred = zero_digest \<or> cred \<noteq> ownerCredential then [] else previousSlot"
  have n: "normalize ?d slot ?prev (probe_salt secret cred) (Some (\<lambda>it. compact_permits (gCompact g) it slot cred))
      (Some (\<lambda>it. reasoning_permits (gReasoning g) it cred)) = Inr z"
    using assms(2) by (simp add: probe_normalize_def)
  have leaves: "may_leave ?d slot ?prev (probe_salt secret cred) (Some (\<lambda>it. compact_permits (gCompact g) it slot cred))
      (Some (\<lambda>it. reasoning_permits (gReasoning g) it cred)) out"
    using normalize_leaves [OF n] out by (simp add: list_all_iff)
  note mk = normalize_marked [OF n]
  have pinned: "now = activeTurnOwner (probe_pin d z ownerCredential cred)" if "activeTurnOwner (probe_pin d z ownerCredential cred) \<noteq> zero_digest"
    using assms(3) that by (auto simp: probe_resolve_def split: if_splits)
  have "\<exists>key. probeCompactKey out = Some key \<and> learned_compact evs key slot now" if "probeString out ''type'' = ''compaction''"
  proof -
    have "out \<in> set (compactItems d)" using mk out that by (simp add: compactItems_def)
    then have "compact_permits (gCompact g) out slot now"
      using assms(3) by (auto simp: probe_resolve_def probe_pin_def Let_def list_ex_iff split: if_splits)
    then show ?thesis using compact_learned assms(1) by (auto simp: compact_permits_def split: option.splits)
  qed
  moreover have "learned_reasoning evs (probeReasoningKey out) now" if r: "probeString out ''type'' = ''reasoning''"
  proof -
    from leaves r have l: "?prev = slot" "slot \<noteq> []" "reasoning_permits (gReasoning g) out cred" by (auto simp: may_leave_def)
    then have c: "cred \<noteq> zero_digest" "cred = ownerCredential" by (auto split: if_splits)
    moreover have "zTurnOwner z" using mk out r by blast
    ultimately have "now = cred" using pinned by (simp add: probe_pin_def Let_def)
    with l(3) reasoning_learned assms(1) show ?thesis by (auto simp: reasoning_permits_def)
  qed
  moreover have "learned_message evs (sha256 m) now" if m: "m \<in> set (agent_secrets out)" for m
  proof -
    from secrets_owned [OF leaves m] have p: "agent_permits (gAgent g) m cred" by (simp add: owned_by_def)
    have "zAgentOwner z" using mk out m by auto
    with p have "now = cred" using pinned by (simp add: probe_pin_def Let_def agent_permits_def)
    with p message_learned assms(1) show ?thesis by (auto simp: agent_permits_def)
  qed
  ultimately show "belongs evs slot now out" by (simp add: belongs_def)
qed

text \<open>A turn whose reasoning and whose message to another agent came from the account it goes back to.\<close>

definition demo_reasoning :: item where
  "demo_reasoning = [(''type'', JStr ''reasoning''), (''id'', JStr ''rs''), (''summary'', JArr []), (''encrypted_content'', JStr ''x'')]"

definition demo_message :: item where
  "demo_message = [(''type'', JStr ''agent_message''), (''author'', JStr ''a''), (''recipient'', JStr ''b''),
     (''content'', JArr [JObj [(''type'', JStr ''encrypted_content''), (''encrypted_content'', JStr ''y'')]])]"

definition demo_user :: item where
  "demo_user = [(''role'', JStr ''user''), (''content'', JStr ''go'')]"

definition demo_turn :: tool_input where
  "demo_turn = \<lparr>dFields = Some [], dItems = [demo_user, demo_reasoning, demo_message], dParseErr = None, dPortable = False, dAgentOwner = None\<rparr>"

definition demo_events :: "learned list" where
  "demo_events = [TurnEnded {probeReasoningKey demo_reasoning} {sha256 ''y''} ''C'' ''B'']"

definition demo_sent :: normalized where
  "demo_sent = \<lparr>zBody = [(''input'', JArr (map JObj [demo_user, demo_reasoning, demo_message]))],
     zItems = [demo_user, demo_reasoning, demo_message], zTurnOwner = True, zAgentOwner = True\<rparr>"

lemma demo_credential: "''C'' \<noteq> zero_digest"
proof
  assume "''C'' = zero_digest"
  then have "length ''C'' = length zero_digest" by (rule arg_cong)
  then show False by (simp add: zero_digest_def)
qed

lemma demo_items:
  "probeString demo_user ''type'' = []" "user_message demo_user" "probeTextMessage demo_user 0 = None"
  "probeMessageText (obj_get demo_user ''content'')" "member_del ''id'' demo_user = demo_user"
  "probeString demo_reasoning ''type'' = ''reasoning''" "\<not> user_message demo_reasoning" "probeCompleted demo_reasoning"
  "probeKeys demo_reasoning ''type id status summary content encrypted_content''" "decode_maps (obj_get demo_reasoning ''summary'') = Some []"
  "probeHasString demo_reasoning ''encrypted_content''"
  "probeString demo_message ''type'' = ''agent_message''" "\<not> user_message demo_message" "probeAgentMessage demo_message"
  "agent_contents demo_message = [''y'']" "member_del ''id'' demo_message = demo_message"
  by code_simp+

lemma demo_owners: "learn_all demo_events no_owners =
    \<lparr>gCompact = Mapping.empty, gReasoning = \<lparr>oCredential = ''C'', oBoundary = ''B'', oKeys = {probeReasoningKey demo_reasoning}\<rparr>, gAgent = {(sha256 ''y'', ''C'')}\<rparr>"
  by (simp add: demo_events_def learn_all_def turn_ended_def no_owners_def no_reasoning_def reasoning_accept_def agent_accept_def
      probeAgentOwnerLimit_def demo_credential [simplified])

lemma demo_normalize: "probe_normalize (learn_all demo_events no_owners) ''s'' demo_turn ''a'' ''a'' ''C'' ''C'' = Inr demo_sent"
  by (simp add: demo_owners demo_credential demo_items probe_normalize_def normalize_def demo_turn_def demo_sent_def norm_item_def
      norm_reasoning_def keep_item_def portable_here_def agent_rejection_def agentOwnershipRejection_def agent_permits_def
      reasoning_permits_def probeItemsNeedTurnOwner_def owner_kinds_def member_set_def Let_def
      member_del_def [of _ "[]"] obj_get_def [of "[]"])

theorem opaque_state_reaches_its_account_witness:
  "probe_normalize (learn_all demo_events no_owners) ''s'' demo_turn ''a'' ''a'' ''C'' ''C'' = Inr demo_sent
   \<and> probe_resolve (learn_all demo_events no_owners) (probe_pin demo_turn demo_sent ''C'' ''C'') ''a'' ''C'' = None
   \<and> list_all (belongs demo_events ''a'' ''C'') [demo_user, demo_reasoning, demo_message]"
proof -
  have "probe_resolve (learn_all demo_events no_owners) (probe_pin demo_turn demo_sent ''C'' ''C'') ''a'' ''C'' = None"
    by (simp add: probe_resolve_def probe_pin_def demo_sent_def demo_turn_def compactItems_def demo_items)
  with opaque_state_reaches_its_account [OF HOL.refl demo_normalize this] demo_normalize
  show ?thesis by (simp add: demo_sent_def list_all_iff)
qed

section \<open>Portable history\<close>


definition demo_portable :: string where
  "demo_portable = ''{\"previous_response_id\":null,\"input\":[{\"type\":\"reasoning\",\"id\":\"rs\",\"summary\":[],\"encrypted_content\":\"x\"},{\"role\":\"user\",\"content\":\"go\"}]}''"


section \<open>Tool pairs\<close>



definition demo_call :: item where
  "demo_call = [(''type'', JStr ''function_call''), (''id'', JStr ''fc''), (''call_id'', JStr ''k''), (''name'', JStr ''f''), (''arguments'', JStr ''{}'')]"

definition demo_output :: item where
  "demo_output = [(''type'', JStr ''function_call_output''), (''call_id'', JStr ''k''), (''output'', JStr ''ok'')]"

definition demo_tools :: tool_input where
  "demo_tools = \<lparr>dFields = Some [], dItems = [demo_user, demo_call, demo_output], dParseErr = None, dPortable = False, dAgentOwner = None\<rparr>"


end
