(* ===== verification/Spec2Isabelle.thy ===== *)
theory Spec2Isabelle
  imports Checkpoint_Props Handoff_Store Affinity_Ownership Affinity_Live Routing_Props Proxy_Handler_Props Account_Safety Account_Progress
    Usage_Monitor Proxy_Echo Cli_Session_Props Wiki_Props Cli_Record Cli_Run Probe_Quota Session_Status Project_Identity
    Commands_Props Probe_Dispatch
begin

text \<open>
  Verification of the codex-switcher helper (\<^verbatim>\<open>src/internal\<close> and \<^verbatim>\<open>src/cmd/switcher-helper\<close>, Go).

  The helper runs the Codex CLI against up to five accounts. A local proxy sends every model request of a
  conversation with the credentials of the one account the conversation belongs to. Continuations, response
  identifiers and server history never cross accounts. Moving on to another account is an explicit handoff:
  the old conversation writes a Wiki, the Wiki is validated and pinned, and a new conversation on the target
  account receives it. Which account a conversation uses is decided from sampled quota; credentials are kept
  in the Keychain and refreshed under a durable marker.

  \<^bold>\<open>Conventions.\<close> A Go string or byte slice is \<open>string\<close> (a list of bytes as characters), a struct a \<open>record\<close>, an
  enumeration a \<open>datatype\<close>, \<^verbatim>\<open>time.Time\<close> and \<^verbatim>\<open>time.Duration\<close> are nanoseconds in \<open>int\<close>, a \<^verbatim>\<open>float64\<close> is
  the \<open>f64\<close> of theory Json (finite values rounded to 53 bits, NaN and infinities), an error one constructor of
  \<open>go_err\<close> per sentinel (theory Go\_Errors, with \<open>errors_is\<close>). A result that can fail is \<open>go_err + 'a\<close>
  (\<open>'a res\<close>), state is passed explicitly, and a method under a mutex is one step. What the source cannot decide
  is an argument: clock readings, \<^verbatim>\<open>rand.Text\<close>, answers of the file system, the upstream service, the browser
  login, the token endpoint. Field names carry a short prefix where two records share a name.

  \<^bold>\<open>Base.\<close> Prelude (strings, hex, lists), Sha256 (executable FIPS 180-4), Json and Json\_Value (parsing as
  \<^verbatim>\<open>encoding/json\<close> does it, member matching, printing of decoded values), Json\_Print and Json\_Utf8 (printing of
  structs; what is printed from UTF-8 parses to itself), Calendar and Calendar\_Zone (RFC 3339 in UTC and in a
  zone, with round trips), Files (the file system as a map of nodes with a list of answers of the system calls,
  and the programs \<open>writeAtomic\<close>, \<open>readRegular\<close>, \<open>isolatedDirectory\<close> of \<^verbatim>\<open>wikidraft\<close>).

  \<^bold>\<open>Ownership\<close> (\<^verbatim>\<open>internal/affinity\<close>). Affinity\_Sql: the statements the code sends as a datatype, reference
  tables and their meaning, and the locale \<open>sql_engine\<close>: a connection whose successful calls agree with the
  reference and whose failures change nothing or roll back. Affinity: every operation over a connection.
  Affinity\_Inv, Affinity\_Spec, Affinity\_Refine: the table invariant, what each operation may do to the tables,
  and the refinement over any lawful connection (\<open>affinity_atomic\<close>). Affinity\_Props, Affinity\_Ownership: runs of
  operations; exclusive requests, permanent blocking, owners of responses, consumption of handoffs, invalidation
  of a slot, collection. Affinity\_Live: on a healthy database requests and handoffs succeed.

  \<^bold>\<open>Checkpoints and handoffs\<close> (\<^verbatim>\<open>internal/checkpoint\<close>, \<^verbatim>\<open>internal/handoff\<close>). Checkpoint, Checkpoint\_Props: the
  file format, its validation, and the request as a state machine with an inductive step relation. Handoff\_Store:
  the in-memory store.

  \<^bold>\<open>Quota and routing\<close> (\<^verbatim>\<open>internal/usage\<close>, \<^verbatim>\<open>internal/routing\<close>, \<^verbatim>\<open>probequota.go\<close>). Usage, Usage\_Monitor: the quota
  document, one refresh of a slot, ageing, and the loop of the monitor. Routing, Routing\_Props: the choice of an
  account for a new conversation and the guarded handoff. Probe\_Quota: the choice of the shared connection and the
  overlay of accounts that were rejected.

  \<^bold>\<open>Proxy\<close> (\<^verbatim>\<open>internal/proxy\<close>). Proxy\_Refs, Proxy\_Echo: the references a request asks for and a completed response
  grants, and that an echo asks for what was granted. Proxy\_Stream, Proxy\_Limit: the observer of event streams, the
  gate that withholds a completed event, the inspection for usage limits. Proxy\_Handler: the handler from admission
  to the recorded completion. Proxy\_Stream\_Props, Proxy\_Delivery, Proxy\_Handler\_Props: no completion before it is
  recorded, delivery byte for byte whatever the reads, one attempt, owners, closing after failures, over interleaved
  requests.

  \<^bold>\<open>Accounts\<close> (\<^verbatim>\<open>internal/accounts\<close>, \<^verbatim>\<open>internal/credentialstore\<close>, \<^verbatim>\<open>internal/applock\<close>). Vault: the locale of a
  vault, the Keychain over the parameter \<open>keychain_api\<close>, and the proof that it is a vault. Credentials, Accounts,
  Account\_Refresh: import, registry, login, logout, access, the verified refresh, locks and progress. Accounts\_Props,
  Registry\_Inv, Registry\_Size: round trip and soundness of the registry. Account\_Vault, Account\_Runs, Account\_Safety,
  Account\_Progress: the effect of every operation over any lawful vault, runs with crashes and restarts in which no
  failed exchange is repeated, and the progress counters.

  \<^bold>\<open>Conversations\<close> (\<^verbatim>\<open>internal/clisession\<close>, \<^verbatim>\<open>cliidentity\<close>, \<^verbatim>\<open>clirecord\<close>, \<^verbatim>\<open>clirun\<close>, \<^verbatim>\<open>wikidraft\<close>,
  \<^verbatim>\<open>sessionstatus\<close>, \<^verbatim>\<open>projectidentity\<close>). Cli\_Session, Cli\_Session\_Props: the binding of one CLI process to one
  conversation over histories of its events. Cli\_Record: the durable record, which no interrupted run leaves
  resumable. Cli\_Run: the event loop over the output of the CLI. Wiki\_Draft, Wiki\_Props: drafts, atomic publication,
  backups, pins and the prompt of a handoff. Session\_Status: the observational status files. Project\_Identity: the
  origin of a directory.

  \<^bold>\<open>Commands\<close> (\<^verbatim>\<open>account.go\<close>, \<^verbatim>\<open>handoff.go\<close>, \<^verbatim>\<open>checkpoint.go\<close>, \<^verbatim>\<open>exec.go\<close>). Commands composes the components in the
  order of the code; Commands\_Props holds the properties that span them: a logout closes the conversations of the
  account before the credentials go, and the Wiki that reaches a new conversation is the draft that was handed off.

  \<^bold>\<open>Portable history\<close> (\<^verbatim>\<open>probetools.go\<close>, \<^verbatim>\<open>probeimage.go\<close>, \<^verbatim>\<open>probecompact.go\<close>, \<^verbatim>\<open>probereasoning.go\<close>,
  \<^verbatim>\<open>probeagentownership.go\<close> and the request of \<^verbatim>\<open>switchprobe.go\<close>). Probe\_Tools: how the shared connection checks and
  rewrites the history of a request. Probe\_Owners: the registries that remember which account produced a compaction,
  reasoning or a message between agents, over any run of responses. Probe\_Tools\_Props: invariants of the loop.
  Probe\_Dispatch: validation, the pin compared at dispatch, the body for another account; opaque state reaches only
  the account it came from, portable history holds none, tool calls keep their outputs.

  \<^bold>\<open>Parameters and their laws.\<close> \<open>sql_engine\<close> (interpreted by \<open>engine\<close> on \<open>pure_query\<close>, the executable reference
  connection), \<open>keychain_api\<close> (interpreted by \<open>test_kc\<close>), a vault (interpreted on the program's Keychain). The
  hypotheses of a property are witnessed on these.

  \<^bold>\<open>Bounds and termination.\<close> All recursion is structural or has a measure; the parser of JSON recurses at most
  to Go's depth of 10000, given as fuel that is enough for every text by its length. Loops over input take the list
  of reads; the loop of the monitor, which may run for ever, is a \<open>partial_function (option)\<close>, and that it returns
  exactly when a round ends it is a theorem.

  \<^bold>\<open>Not modelled.\<close> Process and network plumbing whose behaviour is the operating system's: \<^verbatim>\<open>main.go\<close>, \<^verbatim>\<open>live.go\<close>,
  \<^verbatim>\<open>direct.go\<close>, \<^verbatim>\<open>status.go\<close>, \<^verbatim>\<open>usage.go\<close>, \<^verbatim>\<open>project.go\<close>, \<^verbatim>\<open>buildinfo.go\<close>, the socket handling of \<^verbatim>\<open>daemon.go\<close>; the
  synthetic upstream and demos (\<^verbatim>\<open>cliprobe\<close>, \<^verbatim>\<open>livetest\<close>); rendering of TOML profiles; the fixed Korean prompt of a
  draft; clearing native memory; HTTP transport settings. Of the shared connection
  (\<^verbatim>\<open>switchprobe.go\<close>, \<^verbatim>\<open>multiprobe.go\<close>, \<^verbatim>\<open>probeauxiliary.go\<close>) the HTTP server, goroutines, reports and the checkpoint file
  are not modelled.
\<close>

end
